(* ===== verification/Chain_Prelude.thy ===== *)
theory Chain_Prelude
  imports Main "HOL-Library.Word" "HOL-Library.AList"
begin

text \<open>
  The shared ground of the development: Rust's fixed-width integers and their saturating and
  checked operations, the storage maps of FRAME (\<^verbatim>\<open>StorageMap\<close>, \<^verbatim>\<open>StorageDoubleMap\<close>) as
  association lists, the error type of a dispatchable call, and the generic facts on sums and
  lists that the component theories use.

  Integers keep their width: \<open>u32\<close>, \<open>u64\<close> and \<open>u128\<close> are words, so a plain \<open>+\<close> or \<open>-\<close> wraps
  around, which is what the release profile of the workspace compiles it to (the workspace's
  \<^verbatim>\<open>Cargo.toml\<close> does not switch \<^verbatim>\<open>overflow-checks\<close> on).
\<close>

named_theorems nat_of_word \<open>reading the word operations as operations on natural numbers\<close>
named_theorems storage_simps \<open>lookups after updates of a storage map\<close>

section \<open>Machine integers\<close>

type_synonym u8 = "8 word"
type_synonym u32 = "32 word"
type_synonym u64 = "64 word"
type_synonym u128 = "128 word"

definition saturating_add :: "'a::len word \<Rightarrow> 'a word \<Rightarrow> 'a word" where
  "saturating_add a b = (if unat a + unat b < 2 ^ LENGTH('a) then a + b else - 1)"

definition saturating_sub :: "'a::len word \<Rightarrow> 'a word \<Rightarrow> 'a word" where
  "saturating_sub a b = (if b \<le> a then a - b else 0)"

definition saturating_mul :: "'a::len word \<Rightarrow> 'a word \<Rightarrow> 'a word" where
  "saturating_mul a b = (if unat a * unat b < 2 ^ LENGTH('a) then a * b else - 1)"

definition checked_add :: "'a::len word \<Rightarrow> 'a word \<Rightarrow> 'a word option" where
  "checked_add a b = (if unat a + unat b < 2 ^ LENGTH('a) then Some (a + b) else None)"

definition checked_sub :: "'a::len word \<Rightarrow> 'a word \<Rightarrow> 'a word option" where
  "checked_sub a b = (if b \<le> a then Some (a - b) else None)"

lemma unat_max_word: "unat (- 1 :: 'a::len word) = 2 ^ LENGTH('a) - 1"
  by (simp add: unsigned_minus_1_eq_mask mask_eq_exp_minus_1)

lemma unat_plus_fits [nat_of_word]:
  fixes a b :: "'a::len word"
  assumes "unat a + unat b < 2 ^ LENGTH('a)"
  shows "unat (a + b) = unat a + unat b"
  using assms by (simp add: unat_word_ariths)

lemma unat_minus_le [nat_of_word]:
  fixes a b :: "'a::len word"
  assumes "b \<le> a"
  shows "unat (a - b) = unat a - unat b"
  using assms by (simp add: unat_sub)

lemma unat_saturating_add [nat_of_word]:
  fixes a b :: "'a::len word"
  shows "unat (saturating_add a b) = min (unat a + unat b) (2 ^ LENGTH('a) - 1)"
  by (auto simp: saturating_add_def unat_plus_fits unat_max_word min_def)

lemma unat_saturating_sub [nat_of_word]:
  "unat (saturating_sub a b) = unat a - unat b"
  by (auto simp: saturating_sub_def unat_minus_le word_le_nat_alt)

lemma unat_saturating_mul [nat_of_word]:
  fixes a b :: "'a::len word"
  shows "unat (saturating_mul a b) = min (unat a * unat b) (2 ^ LENGTH('a) - 1)"
proof (cases "unat a * unat b < 2 ^ LENGTH('a)")
  case True
  then show ?thesis by (simp add: saturating_mul_def unat_word_ariths)
next
  case False
  then have "2 ^ LENGTH('a) - 1 \<le> unat a * unat b" by simp
  with False show ?thesis by (simp add: saturating_mul_def unat_max_word min_absorb2)
qed

lemma checked_add_Some:
  fixes a b c :: "'a::len word"
  assumes "checked_add a b = Some c"
  shows "unat c = unat a + unat b" and "unat a + unat b < 2 ^ LENGTH('a)"
  using assms by (auto simp: checked_add_def unat_plus_fits split: if_splits)

lemma checked_sub_Some:
  assumes "checked_sub a b = Some c"
  shows "unat c = unat a - unat b" and "unat b \<le> unat a"
  using assms by (auto simp: checked_sub_def unat_minus_le word_le_nat_alt split: if_splits)

lemma unat_bound: "unat (a :: 'a::len word) < 2 ^ LENGTH('a)"
  by (rule unsigned_less)

lemma unat_Suc_bound:
  fixes h :: "'a::len word"
  assumes "h \<noteq> - 1"
  shows "unat h + 1 < 2 ^ LENGTH('a)"
proof -
  have "unat h \<noteq> 2 ^ LENGTH('a) - 1"
    using assms by (metis unat_max_word word_unat_eq_iff)
  with unat_bound [of h] show ?thesis by linarith
qed

lemma unat_less_u128: "unat (a :: u128) < 2 ^ 128"
  using unsigned_less [of a, where ?'a = nat] by simp

lemma unat_pos_iff: "0 < unat a \<longleftrightarrow> a \<noteq> 0"
  by (simp add: unat_gt_0)

text \<open>Code equations that stay on words and integers, so that closed runs evaluate quickly.\<close>

definition add_fits :: "'a::len word \<Rightarrow> 'a word \<Rightarrow> bool" where
  "add_fits a b \<longleftrightarrow> unat a + unat b < 2 ^ LENGTH('a)"

lemma no_overflow_iff:
  fixes a b :: "'a::len word"
  shows "unat a + unat b < 2 ^ LENGTH('a) \<longleftrightarrow> a \<le> a + b"
  by (simp add: no_olen_add_nat)

lemma add_fits_code [code]: "add_fits a b \<longleftrightarrow> a \<le> a + b"
  by (simp add: add_fits_def no_overflow_iff)

lemma saturating_add_code [code]: "saturating_add a b = (if a \<le> a + b then a + b else - 1)"
  by (simp add: saturating_add_def no_overflow_iff)

lemma checked_add_code [code]: "checked_add a b = (if a \<le> a + b then Some (a + b) else None)"
  by (simp add: checked_add_def no_overflow_iff)

lemma saturating_mul_code [code]:
  fixes a b :: "'a::len word"
  shows "saturating_mul a b = (if uint a * uint b < 2 ^ LENGTH('a) then a * b else - 1)"
proof -
  have "uint a * uint b = int (unat a * unat b)" by simp
  moreover have "int n < 2 ^ k \<longleftrightarrow> n < 2 ^ k" for n k :: nat
    using of_nat_less_iff [of n "2 ^ k", where ?'a = int] by simp
  ultimately have "uint a * uint b < 2 ^ LENGTH('a) \<longleftrightarrow> unat a * unat b < 2 ^ LENGTH('a)"
    by presburger
  then show ?thesis by (simp add: saturating_mul_def)
qed

section \<open>Storage maps\<close>

text \<open>
  A \<^verbatim>\<open>StorageMap\<close> is an association list with \<^const>\<open>map_of\<close> as \<^verbatim>\<open>get\<close>, \<open>AList.update\<close> as
  \<^verbatim>\<open>insert\<close> and \<open>AList.delete\<close> as \<^verbatim>\<open>remove\<close>; a \<^verbatim>\<open>StorageDoubleMap\<close> has pairs as its keys. The
  list is also what \<^verbatim>\<open>iter\<close> walks over. A \<^verbatim>\<open>ValueQuery\<close> map reads a default for a missing key.
\<close>

type_synonym ('k, 'v) storage = "('k \<times> 'v) list"

definition sget :: "('k, 'v) storage \<Rightarrow> 'k \<Rightarrow> 'v option" where
  "sget m k = map_of m k"

definition sinsert :: "'k \<Rightarrow> 'v \<Rightarrow> ('k, 'v) storage \<Rightarrow> ('k, 'v) storage" where
  "sinsert k v m = AList.update k v m"

definition sremove :: "'k \<Rightarrow> ('k, 'v) storage \<Rightarrow> ('k, 'v) storage" where
  "sremove k m = AList.delete k m"

definition skeys :: "('k, 'v) storage \<Rightarrow> 'k set" where
  "skeys m = dom (sget m)"

definition swf :: "('k, 'v) storage \<Rightarrow> bool" where
  "swf m \<longleftrightarrow> distinct (map fst m)"

definition get_or :: "'v \<Rightarrow> ('k, 'v) storage \<Rightarrow> 'k \<Rightarrow> 'v" where
  "get_or d m k = (case sget m k of None \<Rightarrow> d | Some v \<Rightarrow> v)"

text \<open>\<^verbatim>\<open>mutate\<close> with a closure that changes a present value only.\<close>

definition smutate :: "'k \<Rightarrow> ('v \<Rightarrow> 'v) \<Rightarrow> ('k, 'v) storage \<Rightarrow> ('k, 'v) storage" where
  "smutate k f m = (case sget m k of None \<Rightarrow> m | Some v \<Rightarrow> sinsert k (f v) m)"

lemma sget_empty [simp, storage_simps]: "sget [] k = None"
  by (simp add: sget_def)

lemma sget_sinsert [simp, storage_simps]:
  "sget (sinsert k v m) k' = (if k' = k then Some v else sget m k')"
  by (simp add: sget_def sinsert_def update_conv')

lemma sget_sremove [simp, storage_simps]:
  "sget (sremove k m) k' = (if k' = k then None else sget m k')"
  by (simp add: sget_def sremove_def delete_conv')

lemma sget_smutate [simp, storage_simps]:
  "sget (smutate k f m) k' = (if k' = k then map_option f (sget m k) else sget m k')"
  by (cases "sget m k") (auto simp: smutate_def)

lemma get_or_sinsert [simp, storage_simps]:
  "get_or d (sinsert k v m) k' = (if k' = k then v else get_or d m k')"
  by (simp add: get_or_def)

lemma get_or_sremove [simp, storage_simps]:
  "get_or d (sremove k m) k' = (if k' = k then d else get_or d m k')"
  by (simp add: get_or_def)

lemma get_or_Some [simp]: "sget m k = Some v \<Longrightarrow> get_or d m k = v"
  by (simp add: get_or_def)

lemma get_or_None [simp]: "sget m k = None \<Longrightarrow> get_or d m k = d"
  by (simp add: get_or_def)

lemma finite_skeys [simp, intro]: "finite (skeys m)"
  using finite_dom_map_of [of m] by (simp add: skeys_def sget_def [abs_def])

lemma skeys_empty [simp]: "skeys [] = {}"
  by (auto simp: skeys_def)

lemma skeys_sinsert [simp, storage_simps]: "skeys (sinsert k v m) = insert k (skeys m)"
  by (auto simp: skeys_def dom_def)

lemma skeys_sremove [simp, storage_simps]: "skeys (sremove k m) = skeys m - {k}"
  by (auto simp: skeys_def dom_def)

lemma skeys_iff: "k \<in> skeys m \<longleftrightarrow> (\<exists>v. sget m k = Some v)"
  by (auto simp: skeys_def)

lemma swf_empty [simp]: "swf []"
  by (simp add: swf_def)

lemma swf_sinsert [simp, intro]: "swf m \<Longrightarrow> swf (sinsert k v m)"
  by (simp add: swf_def sinsert_def distinct_update)

lemma swf_sremove [simp, intro]: "swf m \<Longrightarrow> swf (sremove k m)"
  by (simp add: swf_def sremove_def distinct_delete)

section \<open>Results of calls\<close>

text \<open>
  What a dispatchable call returns on failure (\<^verbatim>\<open>DispatchError\<close>): a bad origin, an arithmetic
  error, an error of the currency (opaque here: its pallet is not part of the repository), or an
  error of the pallet's own \<^verbatim>\<open>Error\<close> enum.
\<close>

datatype 'e dispatch_error =
  BadOrigin
| ArithmeticOverflow
| CurrencyError nat
| ModuleError 'e

type_synonym ('e, 'a) dispatch = "'e dispatch_error + 'a"

section \<open>Sums and lists\<close>

text \<open>Two sums over one finite set whose terms agree at every index but one.\<close>

lemma sum_change_one:
  fixes f g :: "'a \<Rightarrow> nat"
  assumes "finite S" and "p \<in> S" and "\<And>q. q \<in> S \<Longrightarrow> q \<noteq> p \<Longrightarrow> g q = f q"
  shows "sum g S + f p = sum f S + g p"
proof -
  have "sum g (S - {p}) = sum f (S - {p})"
    using assms(3) by (intro sum.cong) auto
  then show ?thesis
    using sum.remove [OF assms(1,2), of f] sum.remove [OF assms(1,2), of g] by simp
qed

lemma sum_member_le:
  fixes f :: "'a \<Rightarrow> nat"
  assumes "finite S" and "p \<in> S"
  shows "f p \<le> sum f S"
  using assms by (meson member_le_sum zero_le)

lemma sum_list_split_filter:
  fixes f :: "'a \<Rightarrow> nat"
  shows "sum_list (map f xs) = sum_list (map f (filter P xs)) + sum_list (map f (filter (\<lambda>x. \<not> P x) xs))"
  by (induction xs) auto

end
