(* ===== verification/Frame.thy ===== *)
theory Frame
  imports Chain_Prelude
begin

text \<open>
  What the pallets call and the repository does not contain: the balances pallet behind
  \<^verbatim>\<open>T::Currency\<close>, the origin checks of \<^verbatim>\<open>frame_system\<close>, the fixed-point type \<^verbatim>\<open>Perbill\<close> of
  \<^verbatim>\<open>sp_runtime\<close> and the database weights. All of it is one record of functions, an argument of
  every definition that uses it. The predicates \<open>currency_ok\<close> and \<open>perbill_ok\<close> state what the
  documentation of these traits promises; theorems that need a promise name the predicate as a
  hypothesis.

  The last section builds one instance, a plain ledger, and shows that it keeps the promises, so
  that the hypotheses are known to be satisfiable.
\<close>

section \<open>The parameters\<close>

datatype existence_requirement = KeepAlive | AllowDeath

text \<open>
  A \<^verbatim>\<open>Perbill\<close> is its inner \<^verbatim>\<open>u32\<close>, the number of parts per billion. A \<^verbatim>\<open>NegativeImbalance\<close>
  is the amount it carries (\<^verbatim>\<open>peek\<close>). The type variables: \<open>'ac\<close> account ids, \<open>'cs\<close> the storage
  of the currency, \<open>'o\<close> origins.
\<close>

type_synonym perbill = u32

record ('ac, 'cs, 'o) frame =
  ensure_signed :: "'o \<Rightarrow> 'ac option"
  ensure_root :: "'o \<Rightarrow> bool"
  free_balance :: "'cs \<Rightarrow> 'ac \<Rightarrow> u128"
  reserved_balance :: "'cs \<Rightarrow> 'ac \<Rightarrow> u128"
  minimum_balance :: u128
  reserve :: "'ac \<Rightarrow> u128 \<Rightarrow> 'cs \<Rightarrow> nat + 'cs"
  unreserve :: "'ac \<Rightarrow> u128 \<Rightarrow> 'cs \<Rightarrow> u128 \<times> 'cs"
  slash_reserved :: "'ac \<Rightarrow> u128 \<Rightarrow> 'cs \<Rightarrow> (u128 \<times> u128) \<times> 'cs"
  withdraw :: "'ac \<Rightarrow> u128 \<Rightarrow> existence_requirement \<Rightarrow> 'cs \<Rightarrow> nat + (u128 \<times> 'cs)"
  resolve_creating :: "'ac \<Rightarrow> u128 \<Rightarrow> 'cs \<Rightarrow> 'cs"
  transfer :: "'ac \<Rightarrow> 'ac \<Rightarrow> u128 \<Rightarrow> existence_requirement \<Rightarrow> 'cs \<Rightarrow> nat + 'cs"
  issue :: "u128 \<Rightarrow> 'cs \<Rightarrow> u128 \<times> 'cs"
  drop_imbalance :: "u128 \<Rightarrow> 'cs \<Rightarrow> 'cs"
  imbalance_split :: "u128 \<Rightarrow> u128 \<Rightarrow> u128 \<times> u128"
  imbalance_merge :: "u128 \<Rightarrow> u128 \<Rightarrow> u128"
  perbill_zero :: perbill
  perbill_one :: perbill
  perbill_from_percent :: "u32 \<Rightarrow> perbill"
  perbill_from_rational :: "u128 \<Rightarrow> u128 \<Rightarrow> perbill"
  perbill_mul :: "perbill \<Rightarrow> u128 \<Rightarrow> u128"
  perbill_checked_add :: "perbill \<Rightarrow> perbill \<Rightarrow> perbill option"
  db_reads :: "u64 \<Rightarrow> u64"
  db_writes :: "u64 \<Rightarrow> u64"
  db_reads_writes :: "u64 \<Rightarrow> u64 \<Rightarrow> u64"

section \<open>What the documentation promises\<close>

text \<open>\<^verbatim>\<open>ReservableCurrency\<close>: reserving moves exactly the amount from free to reserved or fails;
  unreserving and slashing take as much of the amount as is reserved; no other account's reserve
  moves, and the operations of plain \<^verbatim>\<open>Currency\<close> leave reserves alone.\<close>

definition reserve_ok :: "('ac, 'cs, 'o) frame \<Rightarrow> bool" where
  "reserve_ok F \<longleftrightarrow> (\<forall>a v cs cs'. reserve F a v cs = Inr cs' \<longrightarrow>
     unat v \<le> unat (free_balance F cs a) \<and>
     unat (free_balance F cs' a) = unat (free_balance F cs a) - unat v \<and>
     unat (reserved_balance F cs a) + unat v < 2 ^ 128 \<and>
     unat (reserved_balance F cs' a) = unat (reserved_balance F cs a) + unat v \<and>
     (\<forall>b. b \<noteq> a \<longrightarrow> reserved_balance F cs' b = reserved_balance F cs b \<and>
                     free_balance F cs' b = free_balance F cs b))"

definition unreserve_ok :: "('ac, 'cs, 'o) frame \<Rightarrow> bool" where
  "unreserve_ok F \<longleftrightarrow> (\<forall>a v cs rest cs'. unreserve F a v cs = (rest, cs') \<longrightarrow>
     unat rest = unat v - unat (reserved_balance F cs a) \<and>
     unat (reserved_balance F cs' a) = unat (reserved_balance F cs a) - unat v \<and>
     (unat (free_balance F cs a) + unat (reserved_balance F cs a) < 2 ^ 128 \<longrightarrow>
        unat (free_balance F cs' a) =
        unat (free_balance F cs a) + min (unat v) (unat (reserved_balance F cs a))) \<and>
     (\<forall>b. b \<noteq> a \<longrightarrow> reserved_balance F cs' b = reserved_balance F cs b \<and>
                     free_balance F cs' b = free_balance F cs b))"

definition slash_ok :: "('ac, 'cs, 'o) frame \<Rightarrow> bool" where
  "slash_ok F \<longleftrightarrow> (\<forall>a v cs i rest cs'. slash_reserved F a v cs = ((i, rest), cs') \<longrightarrow>
     unat i = min (unat v) (unat (reserved_balance F cs a)) \<and>
     unat rest = unat v - unat (reserved_balance F cs a) \<and>
     unat (reserved_balance F cs' a) = unat (reserved_balance F cs a) - unat v \<and>
     free_balance F cs' a = free_balance F cs a \<and>
     (\<forall>b. b \<noteq> a \<longrightarrow> reserved_balance F cs' b = reserved_balance F cs b \<and>
                     free_balance F cs' b = free_balance F cs b))"

text \<open>\<^verbatim>\<open>withdraw\<close> takes the whole amount or fails; what is left under the existential deposit may
  be dust, so the balance after it is exact only when enough remains.\<close>

definition withdraw_ok :: "('ac, 'cs, 'o) frame \<Rightarrow> bool" where
  "withdraw_ok F \<longleftrightarrow> (\<forall>a v e cs i cs'. withdraw F a v e cs = Inr (i, cs') \<longrightarrow>
     i = v \<and> unat v \<le> unat (free_balance F cs a) \<and>
     unat (free_balance F cs' a) \<le> unat (free_balance F cs a) - unat v \<and>
     (unat (minimum_balance F) \<le> unat (free_balance F cs a) - unat v \<longrightarrow>
        unat (free_balance F cs' a) = unat (free_balance F cs a) - unat v) \<and>
     (\<forall>b. reserved_balance F cs' b = reserved_balance F cs b) \<and>
     (\<forall>b. b \<noteq> a \<longrightarrow> free_balance F cs' b = free_balance F cs b))"

definition resolve_ok :: "('ac, 'cs, 'o) frame \<Rightarrow> bool" where
  "resolve_ok F \<longleftrightarrow> (\<forall>a v cs.
     (minimum_balance F \<le> free_balance F cs a \<or> minimum_balance F \<le> v \<longrightarrow>
      unat (free_balance F cs a) + unat v < 2 ^ 128 \<longrightarrow>
        unat (free_balance F (resolve_creating F a v cs) a) =
        unat (free_balance F cs a) + unat v) \<and>
     (\<forall>b. reserved_balance F (resolve_creating F a v cs) b = reserved_balance F cs b) \<and>
     (\<forall>b. b \<noteq> a \<longrightarrow>
        free_balance F (resolve_creating F a v cs) b = free_balance F cs b))"

text \<open>\<^verbatim>\<open>transfer\<close> moves the amount or fails; a transfer to oneself always succeeds and moves nothing.\<close>

definition transfer_ok :: "('ac, 'cs, 'o) frame \<Rightarrow> bool" where
  "transfer_ok F \<longleftrightarrow> (\<forall>a b v e cs cs'. transfer F a b v e cs = Inr cs' \<longrightarrow>
     (a \<noteq> b \<longrightarrow> unat v \<le> unat (free_balance F cs a)) \<and>
     (e = KeepAlive \<longrightarrow> a \<noteq> b \<longrightarrow>
        unat (free_balance F cs' a) = unat (free_balance F cs a) - unat v \<and>
        unat (free_balance F cs' b) = unat (free_balance F cs b) + unat v) \<and>
     (\<forall>c. reserved_balance F cs' c = reserved_balance F cs c) \<and>
     (\<forall>c. c \<noteq> a \<longrightarrow> c \<noteq> b \<longrightarrow> free_balance F cs' c = free_balance F cs c))"

definition imbalance_ok :: "('ac, 'cs, 'o) frame \<Rightarrow> bool" where
  "imbalance_ok F \<longleftrightarrow>
     (\<forall>v cs b. reserved_balance F (snd (issue F v cs)) b = reserved_balance F cs b \<and>
               free_balance F (snd (issue F v cs)) b = free_balance F cs b) \<and>
     (\<forall>v cs. fst (issue F v cs) \<le> v) \<and>
     (\<forall>v cs b. reserved_balance F (drop_imbalance F v cs) b = reserved_balance F cs b \<and>
               free_balance F (drop_imbalance F v cs) b = free_balance F cs b) \<and>
     (\<forall>i v. unat (fst (imbalance_split F i v)) = min (unat i) (unat v) \<and>
            unat (snd (imbalance_split F i v)) = unat i - unat v) \<and>
     (\<forall>i v. unat i + unat v < 2 ^ 128 \<longrightarrow> unat (imbalance_merge F i v) = unat i + unat v)"

definition currency_ok :: "('ac, 'cs, 'o) frame \<Rightarrow> bool" where
  "currency_ok F \<longleftrightarrow> reserve_ok F \<and> unreserve_ok F \<and> slash_ok F \<and> withdraw_ok F \<and>
     resolve_ok F \<and> transfer_ok F \<and> imbalance_ok F"

text \<open>\<^verbatim>\<open>Perbill\<close>: a fraction between zero and one; the approximation of a quotient never exceeds
  one, a product with a fraction never exceeds the factor, and \<^verbatim>\<open>checked_add\<close> fails above one.\<close>

definition perbill_ok :: "('ac, 'cs, 'o) frame \<Rightarrow> bool" where
  "perbill_ok F \<longleftrightarrow>
     perbill_zero F = 0 \<and> perbill_one F = 1000000000 \<and>
     (\<forall>n. n \<le> 100 \<longrightarrow> unat (perbill_from_percent F n) = unat n * 10000000) \<and>
     (\<forall>p q. perbill_from_rational F p q \<le> perbill_one F) \<and>
     (\<forall>r b. r \<le> perbill_one F \<longrightarrow> perbill_mul F r b \<le> b) \<and>
     (\<forall>b. perbill_mul F (perbill_one F) b = b \<and> perbill_mul F (perbill_zero F) b = 0) \<and>
     (\<forall>x y. perbill_checked_add F x y =
        (if unat x + unat y \<le> unat (perbill_one F) then Some (x + y) else None))"

subsection \<open>The promises as rules\<close>

lemma reserveD:
  assumes "currency_ok F" and "reserve F a v cs = Inr cs'"
  shows "unat (reserved_balance F cs' b) =
           unat (reserved_balance F cs b) + (if b = a then unat v else 0)"
    and "unat (reserved_balance F cs a) + unat v < 2 ^ 128"
  using assms unfolding currency_ok_def reserve_ok_def by (cases "b = a"; fastforce)+

lemma unreserveD:
  assumes "currency_ok F" and "unreserve F a v cs = (rest, cs')"
  shows "unat (reserved_balance F cs' b) =
           unat (reserved_balance F cs b) - (if b = a then unat v else 0)"
  using assms unfolding currency_ok_def unreserve_ok_def by (cases "b = a"; fastforce)

lemma unreserve_free:
  assumes "currency_ok F" and "unreserve F a v cs = (rest, cs')"
    and "unat (free_balance F cs a) + unat (reserved_balance F cs a) < 2 ^ 128"
  shows "unat (free_balance F cs' a) =
    unat (free_balance F cs a) + min (unat v) (unat (reserved_balance F cs a))"
  using assms unfolding currency_ok_def unreserve_ok_def by blast

lemma unreserve_others:
  assumes "currency_ok F" and "unreserve F a v cs = (rest, cs')"
  shows "\<forall>b. b \<noteq> a \<longrightarrow> free_balance F cs' b = free_balance F cs b \<and>
    reserved_balance F cs' b = reserved_balance F cs b"
  using assms unfolding currency_ok_def unreserve_ok_def by blast

lemma reserve_free:
  assumes "currency_ok F" and "reserve F a v cs = Inr cs'"
  shows "unat v \<le> unat (free_balance F cs a)"
    and "unat (free_balance F cs' b) = unat (free_balance F cs b) - (if b = a then unat v else 0)"
  using assms unfolding currency_ok_def reserve_ok_def by (cases "b = a"; fastforce)+

lemma slash_reservedD:
  assumes "currency_ok F" and "slash_reserved F a v cs = (ir, cs')"
  shows "unat (reserved_balance F cs' b) =
           unat (reserved_balance F cs b) - (if b = a then unat v else 0)"
    and "unat (fst ir) = min (unat v) (unat (reserved_balance F cs a))"
  using assms unfolding currency_ok_def slash_ok_def
  by (cases ir; cases "b = a"; fastforce)+

lemma withdrawD:
  assumes "currency_ok F" and "withdraw F a v e cs = Inr (i, cs')"
  shows "i = v" and "unat v \<le> unat (free_balance F cs a)"
    and "reserved_balance F cs' b = reserved_balance F cs b"
  using assms unfolding currency_ok_def withdraw_ok_def by blast+

lemma resolve_reserved [simp]:
  assumes "currency_ok F"
  shows "reserved_balance F (resolve_creating F a v cs) b = reserved_balance F cs b"
  using assms unfolding currency_ok_def resolve_ok_def by blast

lemma transfer_reserved:
  assumes "currency_ok F" and "transfer F a b v e cs = Inr cs'"
  shows "reserved_balance F cs' c = reserved_balance F cs c"
  using assms unfolding currency_ok_def transfer_ok_def by blast

lemma issue_balances [simp]:
  assumes "currency_ok F"
  shows "reserved_balance F (snd (issue F v cs)) b = reserved_balance F cs b"
    and "free_balance F (snd (issue F v cs)) b = free_balance F cs b"
  using assms unfolding currency_ok_def imbalance_ok_def by blast+

lemma drop_imbalance_balances [simp]:
  assumes "currency_ok F"
  shows "reserved_balance F (drop_imbalance F v cs) b = reserved_balance F cs b"
    and "free_balance F (drop_imbalance F v cs) b = free_balance F cs b"
  using assms unfolding currency_ok_def imbalance_ok_def by blast+

lemma imbalance_splitD:
  assumes "currency_ok F" and "imbalance_split F i v = (x, y)"
  shows "unat x = min (unat i) (unat v)" and "unat y = unat i - unat v"
  using assms unfolding currency_ok_def imbalance_ok_def
  by (metis fst_conv, metis snd_conv)

lemma imbalance_merge_exact:
  assumes "currency_ok F" and "unat i + unat v < 2 ^ 128"
  shows "unat (imbalance_merge F i v) = unat i + unat v"
  using assms unfolding currency_ok_def imbalance_ok_def by blast

lemma perbill_mul_le:
  assumes "perbill_ok F" and "r \<le> perbill_one F"
  shows "perbill_mul F r b \<le> b"
  using assms unfolding perbill_ok_def by blast

lemma perbill_from_rational_le:
  assumes "perbill_ok F"
  shows "perbill_from_rational F p q \<le> perbill_one F"
  using assms unfolding perbill_ok_def by blast

section \<open>Pallets that hold reserves\<close>

text \<open>
  The contract between a pallet that keeps deposits in the reserved balances of accounts and the
  currency that all pallets share. \<open>owes\<close> is what the pallet's storage says it has to give back to
  an account. Every successful call changes an account's reserve by what it adds to or takes from
  that, as long as the reserve covers it. Then whatever other pallets hold in the same reserves
  stays covered too.
\<close>

locale reserving_pallet =
  fixes F :: "('ac, 'cs, 'o) frame"
    and inv :: "'st \<Rightarrow> bool"
    and owes :: "'st \<Rightarrow> 'ac \<Rightarrow> nat"
    and exec :: "'call \<Rightarrow> 'cs \<times> 'st \<Rightarrow> ('e, 'cs \<times> 'st) dispatch"
    and call_ok :: "'call \<Rightarrow> bool"
  assumes exec_inv: "inv st \<Longrightarrow> exec c (cs, st) = Inr (cs', st') \<Longrightarrow> inv st'"
    and exec_balanced: "inv st \<Longrightarrow> exec c (cs, st) = Inr (cs', st') \<Longrightarrow> currency_ok F \<Longrightarrow> call_ok c \<Longrightarrow>
      (\<And>a. owes st a \<le> unat (reserved_balance F cs a)) \<Longrightarrow>
      owes st' a + unat (reserved_balance F cs a) = owes st a + unat (reserved_balance F cs' a)"
begin

text \<open>\<open>others\<close> is what the rest of the chain holds in the same reserve.\<close>

lemma cover_kept:
  assumes "currency_ok F" and "inv st" and "call_ok c" and "exec c (cs, st) = Inr (cs', st')"
    and cover: "\<And>a. owes st a + others a \<le> unat (reserved_balance F cs a)"
  shows "owes st' a + others a \<le> unat (reserved_balance F cs' a)"
proof -
  have "owes st b \<le> unat (reserved_balance F cs b)" for b using cover [of b] by simp
  from exec_balanced [OF assms(2,4,1,3) this, of a] cover [of a] show ?thesis by simp
qed

text \<open>A pallet never touches the reserve of an account to which it owes the same as before.\<close>

lemma reserve_untouched:
  assumes "currency_ok F" and "inv st" and "call_ok c" and "exec c (cs, st) = Inr (cs', st')"
    and "\<And>a. owes st a \<le> unat (reserved_balance F cs a)" and "owes st' a = owes st a"
  shows "reserved_balance F cs' a = reserved_balance F cs a"
  using exec_balanced [OF assms(2,4,1,3,5), of a] assms(6) by (simp add: word_unat_eq_iff)

end

section \<open>A ledger that keeps the promises\<close>

text \<open>
  Accounts are numbers, an origin is \<open>None\<close> for root and \<open>Some a\<close> for an account that signed.
  The ledger only shows that the hypotheses can hold and lets concrete runs be evaluated; no
  definition of a component mentions it.
\<close>

record ledger =
  l_free :: "(nat, u128) storage"
  l_reserved :: "(nat, u128) storage"

definition ledger_free :: "ledger \<Rightarrow> nat \<Rightarrow> u128" where
  "ledger_free l a = get_or 0 (l_free l) a"

definition ledger_reserved :: "ledger \<Rightarrow> nat \<Rightarrow> u128" where
  "ledger_reserved l a = get_or 0 (l_reserved l) a"

definition ledger_set :: "nat \<Rightarrow> u128 \<Rightarrow> u128 \<Rightarrow> ledger \<Rightarrow> ledger" where
  "ledger_set a f r l = l\<lparr>l_free := sinsert a f (l_free l), l_reserved := sinsert a r (l_reserved l)\<rparr>"

lemma ledger_set_simps [simp]:
  "ledger_free (ledger_set a f r l) b = (if b = a then f else ledger_free l b)"
  "ledger_reserved (ledger_set a f r l) b = (if b = a then r else ledger_reserved l b)"
  by (simp_all add: ledger_free_def ledger_reserved_def ledger_set_def)

definition ledger_reserve :: "nat \<Rightarrow> u128 \<Rightarrow> ledger \<Rightarrow> nat + ledger" where
  "ledger_reserve a v l =
     (if v \<le> ledger_free l a \<and> add_fits (ledger_reserved l a) v
      then Inr (ledger_set a (ledger_free l a - v) (ledger_reserved l a + v) l) else Inl 0)"

definition ledger_unreserve :: "nat \<Rightarrow> u128 \<Rightarrow> ledger \<Rightarrow> u128 \<times> ledger" where
  "ledger_unreserve a v l =
     (let m = min v (ledger_reserved l a)
      in (v - m, ledger_set a (saturating_add (ledger_free l a) m) (ledger_reserved l a - m) l))"

definition ledger_slash :: "nat \<Rightarrow> u128 \<Rightarrow> ledger \<Rightarrow> (u128 \<times> u128) \<times> ledger" where
  "ledger_slash a v l =
     (let m = min v (ledger_reserved l a)
      in ((m, v - m), ledger_set a (ledger_free l a) (ledger_reserved l a - m) l))"

definition ledger_withdraw ::
    "nat \<Rightarrow> u128 \<Rightarrow> existence_requirement \<Rightarrow> ledger \<Rightarrow> nat + (u128 \<times> ledger)" where
  "ledger_withdraw a v e l =
     (if v \<le> ledger_free l a \<and> (e = KeepAlive \<longrightarrow> 2 \<le> ledger_free l a - v)
      then Inr (v, ledger_set a (ledger_free l a - v) (ledger_reserved l a) l) else Inl 1)"

definition ledger_resolve :: "nat \<Rightarrow> u128 \<Rightarrow> ledger \<Rightarrow> ledger" where
  "ledger_resolve a v l =
     (if add_fits (ledger_free l a) v
      then ledger_set a (ledger_free l a + v) (ledger_reserved l a) l else l)"

definition ledger_transfer ::
    "nat \<Rightarrow> nat \<Rightarrow> u128 \<Rightarrow> existence_requirement \<Rightarrow> ledger \<Rightarrow> nat + ledger" where
  "ledger_transfer a b v e l =
     (if a = b then Inr l
      else if v \<le> ledger_free l a \<and> add_fits (ledger_free l b) v
        \<and> (e = KeepAlive \<longrightarrow> 2 \<le> ledger_free l a - v)
      then Inr (ledger_set b (ledger_free l b + v) (ledger_reserved l b)
                 (ledger_set a (ledger_free l a - v) (ledger_reserved l a) l))
      else Inl 2)"

definition ledger_from_rational :: "u128 \<Rightarrow> u128 \<Rightarrow> perbill" where
  "ledger_from_rational p q =
     (if q \<le> p then 1000000000 else word_of_nat (unat p * 1000000000 div unat q))"

lemma ledger_from_rational_code [code]:
  "ledger_from_rational p q =
     (if q \<le> p then 1000000000 else word_of_int (uint p * 1000000000 div uint q))"
proof -
  have "uint p * 1000000000 div uint q = int (unat p * 1000000000 div unat q)"
    by (simp add: zdiv_int)
  then show ?thesis by (simp add: ledger_from_rational_def)
qed

definition ledger_perbill_mul :: "perbill \<Rightarrow> u128 \<Rightarrow> u128" where
  "ledger_perbill_mul r b = word_of_nat ((unat r * unat b + 500000000) div 1000000000)"

lemma ledger_perbill_mul_code [code]:
  "ledger_perbill_mul r b = word_of_int ((uint r * uint b + 500000000) div 1000000000)"
proof -
  have "(uint r * uint b + 500000000) div 1000000000 =
      int ((unat r * unat b + 500000000) div 1000000000)"
    by (simp add: zdiv_int)
  then show ?thesis by (simp add: ledger_perbill_mul_def)
qed

definition ledger_frame :: "(nat, ledger, nat option) frame" where
  "ledger_frame = \<lparr>
     ensure_signed = (\<lambda>o'. o'),
     ensure_root = (\<lambda>o'. o' = None),
     free_balance = ledger_free,
     reserved_balance = ledger_reserved,
     minimum_balance = 2,
     reserve = ledger_reserve,
     unreserve = ledger_unreserve,
     slash_reserved = ledger_slash,
     withdraw = ledger_withdraw,
     resolve_creating = ledger_resolve,
     transfer = ledger_transfer,
     issue = (\<lambda>v l. (v, l)),
     drop_imbalance = (\<lambda>_ l. l),
     imbalance_split = (\<lambda>i v. (min i v, i - min i v)),
     imbalance_merge = saturating_add,
     perbill_zero = 0,
     perbill_one = 1000000000,
     perbill_from_percent = (\<lambda>n. min n 100 * 10000000),
     perbill_from_rational = ledger_from_rational,
     perbill_mul = ledger_perbill_mul,
     perbill_checked_add =
       (\<lambda>x y. if add_fits x y \<and> x + y \<le> 1000000000 then Some (x + y) else None),
     db_reads = saturating_mul 25000000,
     db_writes = saturating_mul 100000000,
     db_reads_writes = (\<lambda>r w. saturating_add (saturating_mul 25000000 r) (saturating_mul 100000000 w))
   \<rparr>"

lemma unat_min: "unat (min a b) = min (unat a) (unat b)"
  by (auto simp: min_def word_le_nat_alt)

lemma ledger_reserve_ok: "reserve_ok ledger_frame"
  by (auto simp: reserve_ok_def ledger_frame_def ledger_reserve_def word_le_nat_alt
      nat_of_word add_fits_def split: if_splits)

lemma ledger_unreserve_ok: "unreserve_ok ledger_frame"
  by (auto simp: unreserve_ok_def ledger_frame_def ledger_unreserve_def Let_def word_le_nat_alt
      nat_of_word unat_min min_def)

lemma ledger_slash_ok: "slash_ok ledger_frame"
  by (auto simp: slash_ok_def ledger_frame_def ledger_slash_def Let_def word_le_nat_alt
      nat_of_word unat_min)

lemma ledger_withdraw_ok: "withdraw_ok ledger_frame"
  by (auto simp: withdraw_ok_def ledger_frame_def ledger_withdraw_def word_le_nat_alt
      nat_of_word add_fits_def split: if_splits)

lemma ledger_resolve_ok: "resolve_ok ledger_frame"
  by (auto simp: resolve_ok_def ledger_frame_def ledger_resolve_def word_le_nat_alt nat_of_word add_fits_def)

lemma ledger_transfer_ok: "transfer_ok ledger_frame"
  by (auto simp: transfer_ok_def ledger_frame_def ledger_transfer_def word_le_nat_alt
      nat_of_word add_fits_def split: if_splits)

lemma ledger_imbalance_ok: "imbalance_ok ledger_frame"
  by (auto simp: imbalance_ok_def ledger_frame_def unat_min nat_of_word)

theorem ledger_currency_ok: "currency_ok ledger_frame"
  by (simp add: currency_ok_def ledger_reserve_ok ledger_unreserve_ok ledger_slash_ok
      ledger_withdraw_ok ledger_resolve_ok ledger_transfer_ok ledger_imbalance_ok)

lemma ledger_perbill_mul_le:
  assumes "r \<le> 1000000000"
  shows "ledger_perbill_mul r b \<le> b"
proof -
  have "unat r \<le> unat (1000000000 :: u32)"
    using assms by (simp add: word_le_nat_alt)
  then have "unat r * unat b \<le> 1000000000 * unat b" by simp
  then have "(unat r * unat b + 500000000) div 1000000000 \<le> unat b" by linarith
  moreover from this have "(unat r * unat b + 500000000) div 1000000000 < 2 ^ 128"
    using unat_less_u128 [of b] by linarith
  ultimately show ?thesis
    by (simp add: ledger_perbill_mul_def word_le_nat_alt unat_of_nat)
qed

lemma ledger_from_rational_le: "ledger_from_rational p q \<le> 1000000000"
proof (cases "q \<le> p")
  case True
  then show ?thesis by (simp add: ledger_from_rational_def)
next
  case False
  then have "unat p < unat q" by (simp add: word_le_nat_alt)
  then have "0 < unat q" and "unat p * 1000000000 \<le> unat q * 1000000000" by simp_all
  then have "unat p * 1000000000 div unat q \<le> 1000000000"
    using div_le_mono [of "unat p * 1000000000" "unat q * 1000000000" "unat q"] by simp
  with False show ?thesis
    by (simp add: ledger_from_rational_def word_le_nat_alt unat_of_nat)
qed

theorem ledger_perbill_ok: "perbill_ok ledger_frame"
proof -
  have "ledger_perbill_mul 1000000000 b = b" for b
  proof -
    have "(1000000000 * unat b + 500000000) div 1000000000 = unat b" by simp
    then show ?thesis by (simp add: ledger_perbill_mul_def)
  qed
  moreover have "unat (min n 100 * 10000000 :: u32) = unat n * 10000000" if "n \<le> 100" for n
  proof -
    from that have "unat n \<le> 100" by (simp add: word_le_nat_alt)
    with that show ?thesis by (simp add: min_absorb1 unat_word_ariths)
  qed
  moreover have "(if add_fits x y \<and> x + y \<le> 1000000000 then Some (x + y) else None) =
      (if unat x + unat y \<le> 1000000000 then Some (x + y) else None)" for x y :: u32
  proof -
    have "unat (x + y) = unat x + unat y" if "add_fits x y"
      using that by (simp add: add_fits_def unat_plus_fits)
    then show ?thesis by (auto simp: word_le_nat_alt add_fits_def)
  qed
  ultimately show ?thesis
    by (simp add: perbill_ok_def ledger_frame_def ledger_from_rational_le ledger_perbill_mul_le)
      (simp add: ledger_perbill_mul_def)
qed

end
