(* ===== verification/Era_Info.thy ===== *)
theory Era_Info
  imports Chain_Prelude
begin

text \<open>
  \<^verbatim>\<open>pallets/dapi-staking/src/types.rs\<close>, \<^verbatim>\<open>EraInfo\<close>: the index of the running era, its first
  block and its length in blocks, when it ends and how the next one starts.
\<close>

type_synonym era_index = u32
type_synonym block_number = u32

record era_info =
  current :: era_index
  first_block :: block_number
  era_length :: u32

definition EraInfo_new :: "era_index \<Rightarrow> block_number \<Rightarrow> u32 \<Rightarrow> era_info" where
  "EraInfo_new c b l = \<lparr>current = c, first_block = b, era_length = l\<rparr>"

definition EraInfo_default :: era_info where
  "EraInfo_default = EraInfo_new 0 0 0"

definition should_update :: "era_info \<Rightarrow> block_number \<Rightarrow> bool" where
  "should_update e current_block \<longleftrightarrow>
     current_block - first_block e \<ge> era_length e \<or> current e = 0"

definition EraInfo_update :: "era_info \<Rightarrow> block_number \<Rightarrow> era_info" where
  "EraInfo_update e current_block =
     e\<lparr>current := saturating_add (current e) 1, first_block := current_block\<rparr>"

lemma unat_Suc_word:
  fixes h :: "'a::len word"
  assumes "h \<noteq> - 1"
  shows "unat (h + 1) = unat h + 1"
  using unat_Suc_bound [OF assms] unat_plus_fits [of h 1] by simp

lemma word_less_Suc_iff:
  fixes h x :: "'a::len word"
  assumes "h \<noteq> - 1"
  shows "x < h + 1 \<longleftrightarrow> x \<le> h"
  using unat_Suc_word [OF assms] by (auto simp: word_less_nat_alt word_le_nat_alt)

lemma word_Suc_le_iff:
  fixes h x :: "'a::len word"
  assumes "h \<noteq> - 1"
  shows "h + 1 \<le> x \<longleftrightarrow> h < x"
  using word_less_Suc_iff [OF assms, of x] by (metis linorder_not_less)

lemma saturating_Suc:
  fixes h :: "'a::len word"
  assumes "h \<noteq> - 1"
  shows "saturating_add h 1 = h + 1"
  using unat_Suc_bound [OF assms] by (simp add: saturating_add_def)

lemma saturating_Suc_max [simp]: "saturating_add (- 1) 1 = (- 1 :: 'a::len word)"
  by (simp add: saturating_add_code)

lemma saturating_Suc_ge: "h \<le> saturating_add h (1 :: 'a::len word)"
proof -
  have "unat h \<le> 2 ^ LENGTH('a) - 1" using unat_bound [of h] by linarith
  then show ?thesis by (simp add: word_le_nat_alt unat_saturating_add)
qed

lemma should_update_iff:
  assumes "first_block e \<le> n"
  shows "should_update e n \<longleftrightarrow>
    unat (first_block e) + unat (era_length e) \<le> unat n \<or> current e = 0"
  using assms by (auto simp: should_update_def word_le_nat_alt unat_minus_le)

lemma EraInfo_update_simps [simp]:
  "current (EraInfo_update e n) = saturating_add (current e) 1"
  "first_block (EraInfo_update e n) = n"
  "era_length (EraInfo_update e n) = era_length e"
  by (simp_all add: EraInfo_update_def)

end
