(* ===== verification/Delegation.thy ===== *)
theory Delegation
  imports Era_Info
begin

text \<open>
  \<^verbatim>\<open>pallets/dapi-staking/src/types.rs\<close>, \<^verbatim>\<open>EraStake\<close> and \<^verbatim>\<open>Delegation\<close>: the compressed history
  of how much a delegator had staked on a provider in each era whose reward is not claimed yet.
  An entry holds from its era until the next entry's era; eras before the first entry are claimed
  (or were never staked).

  The history is read as a function from eras to amounts (\<open>staked_at\<close>); \<open>stake\<close>, \<open>unstake\<close> and
  \<open>claim\<close> are shown to be the expected updates of that function, and the interface the pallet uses
  is the locale \<open>stake_history\<close>, in which the absence of double claims is proved once.
\<close>

section \<open>The data structure and its operations\<close>

record era_stake =
  es_amount :: u128
  es_era :: era_index

definition EraStake_new :: "u128 \<Rightarrow> era_index \<Rightarrow> era_stake" where
  "EraStake_new amount e = \<lparr>es_amount = amount, es_era = e\<rparr>"

record delegation =
  stakes :: "era_stake list"

definition Delegation_default :: delegation where
  "Delegation_default = \<lparr>stakes = []\<rparr>"

definition delegation_is_empty :: "delegation \<Rightarrow> bool" where
  "delegation_is_empty d \<longleftrightarrow> stakes d = []"

text \<open>The length is cast to \<^verbatim>\<open>u32\<close>.\<close>

definition delegation_len :: "delegation \<Rightarrow> u32" where
  "delegation_len d = word_of_nat (length (stakes d))"

definition stake :: "delegation \<Rightarrow> era_index \<Rightarrow> u128 \<Rightarrow> string + delegation" where
  "stake d current_era amount =
     (if stakes d \<noteq> [] then
        (let s = last (stakes d) in
         if es_era s > current_era then Inl ''Unexpected era''
         else
           (let new_stake_amount = saturating_add (es_amount s) amount in
            if current_era = es_era s
            then Inr (d\<lparr>stakes := butlast (stakes d) @ [EraStake_new new_stake_amount current_era]\<rparr>)
            else Inr (d\<lparr>stakes := stakes d @ [EraStake_new new_stake_amount current_era]\<rparr>)))
      else Inr (d\<lparr>stakes := stakes d @ [EraStake_new amount current_era]\<rparr>))"

text \<open>The clean-up at the end of \<open>unstake\<close> and \<open>claim\<close>: drop the first entry if it is zero.\<close>

definition drop_zero_head :: "era_stake list \<Rightarrow> era_stake list" where
  "drop_zero_head xs = (if xs \<noteq> [] \<and> es_amount (hd xs) = 0 then tl xs else xs)"

definition unstake :: "delegation \<Rightarrow> era_index \<Rightarrow> u128 \<Rightarrow> string + delegation" where
  "unstake d current_era amount =
     (if stakes d \<noteq> [] then
        (let s = last (stakes d) in
         if es_era s > current_era then Inl ''Unexpected era''
         else
           (let new_stake_amount = saturating_sub (es_amount s) amount;
                stakes' = (if current_era = es_era s
                  then butlast (stakes d) @ [EraStake_new new_stake_amount current_era]
                  else stakes d @ [EraStake_new new_stake_amount current_era])
            in Inr (d\<lparr>stakes := drop_zero_head stakes'\<rparr>)))
      else Inr d)"

definition claim :: "delegation \<Rightarrow> (era_index \<times> u128) \<times> delegation" where
  "claim d =
     (case stakes d of
        [] \<Rightarrow> ((0, 0), d)
      | s # rest \<Rightarrow>
          (let stakes' = (if rest = [] \<or> es_era (hd rest) > es_era s + 1
                 then \<lparr>es_amount = es_amount s, es_era = saturating_add (es_era s) 1\<rparr> # rest
                 else rest)
           in ((es_era s, es_amount s), d\<lparr>stakes := drop_zero_head stakes'\<rparr>)))"

definition latest_staked_value :: "delegation \<Rightarrow> u128" where
  "latest_staked_value d = (if stakes d = [] then 0 else es_amount (last (stakes d)))"

section \<open>The invariant and the abstraction\<close>

text \<open>Eras strictly increase.\<close>

definition delegation_inv :: "delegation \<Rightarrow> bool" where
  "delegation_inv d \<longleftrightarrow> sorted_wrt (\<lambda>s t. es_era s < es_era t) (stakes d)"

text \<open>No entry lies after era \<open>e\<close>.\<close>

definition upto_era :: "delegation \<Rightarrow> era_index \<Rightarrow> bool" where
  "upto_era d e \<longleftrightarrow> (\<forall>s \<in> set (stakes d). es_era s \<le> e)"

text \<open>The amount that counts in era \<open>x\<close>: that of the last entry not after \<open>x\<close>.\<close>

definition amount_at :: "era_stake list \<Rightarrow> era_index \<Rightarrow> u128" where
  "amount_at xs x =
     (let ys = filter (\<lambda>s. es_era s \<le> x) xs in if ys = [] then 0 else es_amount (last ys))"

definition staked_at :: "delegation \<Rightarrow> era_index \<Rightarrow> u128" where
  "staked_at d x = amount_at (stakes d) x"

text \<open>The history never has two neighbouring zero entries and does not start with one.\<close>

fun no_zero_pair :: "era_stake list \<Rightarrow> bool" where
  "no_zero_pair (s # t # r) \<longleftrightarrow> (es_amount s \<noteq> 0 \<or> es_amount t \<noteq> 0) \<and> no_zero_pair (t # r)"
| "no_zero_pair _ \<longleftrightarrow> True"

definition clean_history :: "delegation \<Rightarrow> bool" where
  "clean_history d \<longleftrightarrow>
     no_zero_pair (stakes d) \<and> (stakes d \<noteq> [] \<longrightarrow> es_amount (hd (stakes d)) \<noteq> 0)"

lemma EraStake_new_simps [simp]:
  "es_amount (EraStake_new a e) = a" "es_era (EraStake_new a e) = e"
  by (simp_all add: EraStake_new_def)

lemma amount_at_Nil [simp]: "amount_at [] x = 0"
  by (simp add: amount_at_def)

lemma amount_at_snoc:
  "amount_at (xs @ [s]) x = (if es_era s \<le> x then es_amount s else amount_at xs x)"
  by (simp add: amount_at_def Let_def)

lemma amount_at_Cons:
  "amount_at (s # xs) x =
     (if \<exists>t \<in> set xs. es_era t \<le> x then amount_at xs x
      else if es_era s \<le> x then es_amount s else 0)"
  by (auto simp: amount_at_def Let_def filter_empty_conv)

lemma amount_at_none: "\<forall>t \<in> set xs. x < es_era t \<Longrightarrow> amount_at xs x = 0"
  by (auto simp: amount_at_def filter_empty_conv not_le)

lemma amount_at_drop_zero_head: "amount_at (drop_zero_head xs) x = amount_at xs x"
  by (cases xs) (auto simp: drop_zero_head_def amount_at_Cons amount_at_def filter_empty_conv)

definition last_amount :: "era_stake list \<Rightarrow> u128" where
  "last_amount xs = (if xs = [] then 0 else es_amount (last xs))"

lemma latest_last_amount: "latest_staked_value d = last_amount (stakes d)"
  by (simp add: latest_staked_value_def last_amount_def)

lemma last_amount_drop_zero_head [simp]: "last_amount (drop_zero_head xs) = last_amount xs"
  by (cases xs) (auto simp: drop_zero_head_def last_amount_def)

lemma set_drop_zero_head: "set (drop_zero_head xs) \<subseteq> set xs"
  by (cases xs) (auto simp: drop_zero_head_def)

lemma sorted_drop_zero_head: "sorted_wrt P xs \<Longrightarrow> sorted_wrt P (drop_zero_head xs)"
  by (cases xs) (auto simp: drop_zero_head_def)

lemma upto_era_last:
  "upto_era d e \<Longrightarrow> stakes d \<noteq> [] \<Longrightarrow> \<not> e < es_era (last (stakes d))"
  by (simp add: upto_era_def not_less)

lemma upto_era_mono: "upto_era d e \<Longrightarrow> e \<le> e' \<Longrightarrow> upto_era d e'"
  by (force simp: upto_era_def)

lemma delegation_default [simp]:
  "stakes Delegation_default = []" "delegation_inv Delegation_default"
  "upto_era Delegation_default e" "latest_staked_value Delegation_default = 0"
  "staked_at Delegation_default x = 0" "delegation_is_empty Delegation_default"
  by (simp_all add: Delegation_default_def delegation_inv_def upto_era_def
      latest_staked_value_def staked_at_def delegation_is_empty_def)

text \<open>With no entry after \<open>e\<close>, every era from \<open>e\<close> on reads the latest value.\<close>

lemma staked_at_latest:
  assumes "upto_era d e" and "e \<le> x"
  shows "staked_at d x = latest_staked_value d"
proof -
  have "filter (\<lambda>s. es_era s \<le> x) (stakes d) = stakes d"
    using assms by (auto simp: upto_era_def filter_id_conv)
  then show ?thesis by (simp add: staked_at_def amount_at_def latest_staked_value_def)
qed

section \<open>The operations as updates of the history\<close>

text \<open>
  \<open>set_last\<close> is what \<open>stake\<close> and \<open>unstake\<close> do to the list: the entry of the running era is
  replaced or added.
\<close>

definition set_last :: "era_stake list \<Rightarrow> era_index \<Rightarrow> u128 \<Rightarrow> era_stake list" where
  "set_last xs e v =
     (if xs \<noteq> [] \<and> e = es_era (last xs) then butlast xs @ [EraStake_new v e]
      else xs @ [EraStake_new v e])"

lemma amount_at_set_last:
  assumes "\<forall>s \<in> set xs. es_era s \<le> e"
  shows "amount_at (set_last xs e v) x = (if e \<le> x then v else amount_at xs x)"
proof (cases "xs \<noteq> [] \<and> e = es_era (last xs)")
  case True
  then have "xs = butlast xs @ [last xs]" by simp
  then have "amount_at xs x = (if e \<le> x then es_amount (last xs) else amount_at (butlast xs) x)"
    using True amount_at_snoc by metis
  with True show ?thesis by (simp add: set_last_def amount_at_snoc)
qed (auto simp: set_last_def amount_at_snoc)

lemma sorted_set_last:
  assumes "sorted_wrt (\<lambda>s t. es_era s < es_era t) xs" and "\<forall>s \<in> set xs. es_era s \<le> e"
  shows "sorted_wrt (\<lambda>s t. es_era s < es_era t) (set_last xs e v)"
proof (cases xs rule: rev_cases)
  case Nil
  then show ?thesis by (simp add: set_last_def)
next
  case (snoc ys y)
  then show ?thesis
    using assms by (force simp: set_last_def sorted_wrt_append)
qed

lemma set_last_upto:
  assumes "\<forall>s \<in> set xs. es_era s \<le> e" and "s \<in> set (set_last xs e v)"
  shows "es_era s \<le> e"
  using assms by (auto simp: set_last_def split: if_splits dest: in_set_butlastD)

lemma set_last_nonempty [simp]: "set_last xs e v \<noteq> []" "last (set_last xs e v) = EraStake_new v e"
  by (simp_all add: set_last_def)

lemma stake_eq:
  assumes "upto_era d e"
  shows "stake d e amount =
    Inr (d\<lparr>stakes := set_last (stakes d) e (saturating_add (latest_staked_value d) amount)\<rparr>)"
proof -
  have "saturating_add 0 amount = amount"
    using unat_bound [of amount] by (simp add: saturating_add_def)
  moreover note upto_era_last [OF assms]
  ultimately show ?thesis
    by (auto simp: stake_def set_last_def latest_staked_value_def Let_def)
qed

lemma unstake_eq:
  assumes "upto_era d e"
  shows "unstake d e amount =
    Inr (if stakes d = [] then d else d\<lparr>stakes :=
      drop_zero_head (set_last (stakes d) e (saturating_sub (latest_staked_value d) amount))\<rparr>)"
  using upto_era_last [OF assms]
  by (auto simp: unstake_def set_last_def latest_staked_value_def Let_def)

lemma stake_era_error:
  "stake d e amount = Inl msg \<longleftrightarrow>
     stakes d \<noteq> [] \<and> e < es_era (last (stakes d)) \<and> msg = ''Unexpected era''"
  by (auto simp: stake_def Let_def)

lemma unstake_era_error:
  "unstake d e amount = Inl msg \<longleftrightarrow>
     stakes d \<noteq> [] \<and> e < es_era (last (stakes d)) \<and> msg = ''Unexpected era''"
  by (auto simp: unstake_def Let_def)

text \<open>What \<open>claim\<close> leaves, before the clean-up of a zero entry at the front.\<close>

definition claim_rest :: "era_stake \<Rightarrow> era_stake list \<Rightarrow> era_stake list" where
  "claim_rest s rest = (if rest = [] \<or> es_era (hd rest) > es_era s + 1
     then \<lparr>es_amount = es_amount s, es_era = saturating_add (es_era s) 1\<rparr> # rest else rest)"

lemma claim_Cons:
  "stakes d = s # rest \<Longrightarrow>
   claim d = ((es_era s, es_amount s), d\<lparr>stakes := drop_zero_head (claim_rest s rest)\<rparr>)"
  by (simp add: claim_def claim_rest_def Let_def)

lemma claim_latest: "latest_staked_value (snd (claim d)) = latest_staked_value d"
proof (cases "stakes d")
  case (Cons s rest)
  have "last_amount (claim_rest s rest) = last_amount (s # rest)"
    by (auto simp: claim_rest_def last_amount_def)
  with Cons show ?thesis by (simp add: claim_Cons latest_last_amount)
qed (simp add: claim_def)

lemma amount_at_claim_rest:
  assumes sorted: "sorted_wrt (\<lambda>s t. es_era s < es_era t) (s # rest)" and "es_era s \<noteq> - 1"
  shows "amount_at (claim_rest s rest) x = (if x \<le> es_era s then 0 else amount_at (s # rest) x)"
proof -
  note succ = saturating_Suc [OF assms(2)] word_less_Suc_iff [OF assms(2)]
  have later: "\<And>t. t \<in> set rest \<Longrightarrow> es_era s < es_era t" using sorted by auto
  show ?thesis
  proof (cases "x \<le> es_era s")
    case True
    with later have "\<forall>t \<in> set rest. x < es_era t" by (meson order_le_less_trans)
    moreover have "x < es_era s + 1" using True succ by simp
    ultimately show ?thesis using True by (simp add: claim_rest_def succ amount_at_none)
  next
    case False
    then have "es_era s + 1 \<le> x" using word_Suc_le_iff [OF assms(2)] by (simp add: not_le)
    with False show ?thesis
      by (cases rest) (auto simp: claim_rest_def succ amount_at_Cons not_less)
  qed
qed

lemma claim_rest_sorted:
  assumes "sorted_wrt (\<lambda>s t. es_era s < es_era t) (s # rest)" and "es_era s \<noteq> - 1"
  shows "sorted_wrt (\<lambda>s t. es_era s < es_era t) (claim_rest s rest)"
proof -
  note succ = saturating_Suc [OF assms(2)]
  show ?thesis using assms(1)
    by (cases rest) (force simp: claim_rest_def succ)+
qed

lemma claim_upto:
  assumes "upto_era d e" and "stakes d = s # rest" and "es_era s < e"
  shows "upto_era (snd (claim d)) e"
proof -
  have "es_era s \<noteq> - 1" using assms(3) by (metis linorder_not_less word_order.extremum)
  then have "es_era s + 1 \<le> e"
    using assms(3) by (simp add: word_Suc_le_iff)
  with \<open>es_era s \<noteq> - 1\<close> have "\<forall>t \<in> set (claim_rest s rest). es_era t \<le> e"
    using assms(1,2) by (auto simp: claim_rest_def saturating_Suc upto_era_def)
  then show ?thesis
    using assms(2) set_drop_zero_head [of "claim_rest s rest"]
    by (auto simp: claim_Cons upto_era_def)
qed

lemma claim_spec:
  assumes inv: "delegation_inv d" and claim: "claim d = ((h, v), d')"
    and "v \<noteq> 0" and h: "h \<noteq> - 1"
  shows "delegation_inv d'" and "v = staked_at d h"
    and "staked_at d' x = (if x \<le> h then 0 else staked_at d x)"
    and "upto_era d e \<Longrightarrow> h < e \<Longrightarrow> upto_era d' e"
proof -
  obtain s rest where d: "stakes d = s # rest"
    using claim \<open>v \<noteq> 0\<close> by (cases "stakes d") (auto simp: claim_def)
  with claim have eqs: "h = es_era s" "v = es_amount s"
      "d' = d\<lparr>stakes := drop_zero_head (claim_rest s rest)\<rparr>"
    by (auto simp: claim_Cons)
  have sorted: "sorted_wrt (\<lambda>s t. es_era s < es_era t) (s # rest)"
    using inv d by (simp add: delegation_inv_def)
  show "delegation_inv d'"
    using claim_rest_sorted [OF sorted] h eqs sorted_drop_zero_head
    by (simp add: delegation_inv_def)
  show "v = staked_at d h"
    using sorted d eqs by (auto simp: staked_at_def amount_at_Cons)
  show "staked_at d' x = (if x \<le> h then 0 else staked_at d x)"
    using amount_at_claim_rest [OF sorted] h d eqs
    by (simp add: staked_at_def amount_at_drop_zero_head)
  show "upto_era d e \<Longrightarrow> h < e \<Longrightarrow> upto_era d' e"
    using claim_upto [of d e s rest] d eqs by (simp add: claim_Cons)
qed

section \<open>The interface the pallet relies on\<close>

text \<open>
  \<open>at\<close> reads the history, \<open>upto\<close> bounds the eras it mentions. An era whose reward was paid reads
  zero from then on (\<open>settled\<close>), and no later operation of the pallet, which works on the running
  era or later, brings it back: a claim after that is for a later era.
\<close>

locale stake_history =
  fixes inv :: "'d \<Rightarrow> bool"
    and upto :: "'d \<Rightarrow> era_index \<Rightarrow> bool"
    and hist :: "'d \<Rightarrow> era_index \<Rightarrow> u128"
    and latest :: "'d \<Rightarrow> u128"
    and stake_op :: "'d \<Rightarrow> era_index \<Rightarrow> u128 \<Rightarrow> string + 'd"
    and unstake_op :: "'d \<Rightarrow> era_index \<Rightarrow> u128 \<Rightarrow> string + 'd"
    and claim_op :: "'d \<Rightarrow> (era_index \<times> u128) \<times> 'd"
  assumes stake_law: "inv d \<Longrightarrow> upto d e \<Longrightarrow>
      \<exists>d'. stake_op d e v = Inr d' \<and> inv d' \<and> upto d' e \<and>
        latest d' = saturating_add (latest d) v \<and>
        (\<forall>x. hist d' x = (if e \<le> x then saturating_add (latest d) v else hist d x))"
    and unstake_law: "inv d \<Longrightarrow> upto d e \<Longrightarrow>
      \<exists>d'. unstake_op d e v = Inr d' \<and> inv d' \<and> upto d' e \<and>
        latest d' = saturating_sub (latest d) v \<and>
        (\<forall>x. hist d' x = (if e \<le> x then saturating_sub (latest d) v else hist d x))"
    and claim_law: "inv d \<Longrightarrow> claim_op d = ((h, v), d') \<Longrightarrow> v \<noteq> 0 \<Longrightarrow> h \<noteq> - 1 \<Longrightarrow>
      inv d' \<and> v = hist d h \<and> latest d' = latest d \<and>
      (\<forall>e. upto d e \<longrightarrow> h < e \<longrightarrow> upto d' e) \<and>
      (\<forall>x. hist d' x = (if x \<le> h then 0 else hist d x))"
begin

lemma claim_settles:
  assumes "inv d" and "claim_op d = ((h, v), d')" and "v \<noteq> 0" and "h \<noteq> - 1" and "x \<le> h"
  shows "hist d' x = 0"
  using claim_law [OF assms(1-4)] assms(5) by simp

lemma stake_keeps_settled:
  assumes "inv d" and "upto d e" and "stake_op d e v = Inr d'" and "x < e"
  shows "hist d' x = hist d x"
  using stake_law [OF assms(1,2), of v] assms(3,4) by auto

lemma unstake_keeps_settled:
  assumes "inv d" and "upto d e" and "unstake_op d e v = Inr d'" and "x < e"
  shows "hist d' x = hist d x"
  using unstake_law [OF assms(1,2), of v] assms(3,4) by auto

lemma claim_keeps_settled:
  assumes "inv d" and "claim_op d = ((h, v), d')" and "v \<noteq> 0" and "h \<noteq> - 1" and "hist d x = 0"
  shows "hist d' x = 0"
  using claim_law [OF assms(1-4)] assms(5) by simp

lemma claim_after_settled:
  assumes "inv d" and "claim_op d = ((h, v), d')" and "v \<noteq> 0" and "h \<noteq> - 1"
    and "\<And>x. x \<le> g \<Longrightarrow> hist d x = 0"
  shows "g < h"
proof (rule ccontr)
  assume "\<not> g < h"
  then have "hist d h = 0" using assms(5) [of h] by (simp add: not_less)
  with claim_law [OF assms(1-4)] assms(3) show False by simp
qed

end

interpretation dh: stake_history delegation_inv upto_era staked_at latest_staked_value
    stake unstake claim
proof unfold_locales
  fix d e v
  assume inv: "delegation_inv d" and upto: "upto_era d e"
  then have le: "\<forall>s \<in> set (stakes d). es_era s \<le> e" by (simp add: upto_era_def)
  show "\<exists>d'. stake d e v = Inr d' \<and> delegation_inv d' \<and> upto_era d' e \<and>
      latest_staked_value d' = saturating_add (latest_staked_value d) v \<and>
      (\<forall>x. staked_at d' x =
        (if e \<le> x then saturating_add (latest_staked_value d) v else staked_at d x))"
    using inv set_last_upto [OF le]
    by (auto simp: stake_eq [OF upto] delegation_inv_def sorted_set_last le upto_era_def
        latest_staked_value_def staked_at_def amount_at_set_last)
  show "\<exists>d'. unstake d e v = Inr d' \<and> delegation_inv d' \<and> upto_era d' e \<and>
      latest_staked_value d' = saturating_sub (latest_staked_value d) v \<and>
      (\<forall>x. staked_at d' x =
        (if e \<le> x then saturating_sub (latest_staked_value d) v else staked_at d x))"
  proof (cases "stakes d = []")
    case True
    then have "saturating_sub (latest_staked_value d) v = 0"
      by (simp add: latest_staked_value_def word_unat_eq_iff unat_saturating_sub)
    with True inv upto show ?thesis
      by (simp add: unstake_eq [OF upto] latest_staked_value_def staked_at_def)
  next
    case False
    let ?xs = "set_last (stakes d) e (saturating_sub (latest_staked_value d) v)"
    have "upto_era (d\<lparr>stakes := drop_zero_head ?xs\<rparr>) e"
      using set_last_upto [OF le] set_drop_zero_head [of ?xs] by (auto simp: upto_era_def)
    moreover have "latest_staked_value (d\<lparr>stakes := drop_zero_head ?xs\<rparr>) =
        saturating_sub (latest_staked_value d) v"
      by (simp add: latest_last_amount) (simp add: last_amount_def)
    ultimately show ?thesis
      using False inv
      by (simp add: unstake_eq [OF upto] delegation_inv_def sorted_drop_zero_head sorted_set_last le
          staked_at_def amount_at_drop_zero_head amount_at_set_last)
  qed
next
  fix d h v d'
  assume "delegation_inv d" and c: "claim d = ((h, v), d')" and "v \<noteq> 0" and "h \<noteq> - 1"
  note spec = claim_spec [OF this]
  have "latest_staked_value d' = latest_staked_value d"
    using claim_latest [of d] c by simp
  with spec show "delegation_inv d' \<and> v = staked_at d h \<and>
      latest_staked_value d' = latest_staked_value d \<and>
      (\<forall>e. upto_era d e \<longrightarrow> h < e \<longrightarrow> upto_era d' e) \<and>
      (\<forall>x. staked_at d' x = (if x \<le> h then 0 else staked_at d x))"
    by blast
qed

end
