(* ===== verification/Unbonding.thy ===== *)
theory Unbonding
  imports Era_Info
begin

text \<open>
  \<^verbatim>\<open>pallets/dapi-staking/src/types.rs\<close>, \<^verbatim>\<open>UnlockingChunk\<close> and \<^verbatim>\<open>UnbondingMetadata\<close>: the funds of
  an account that were unstaked and wait for their unlock era, a vector sorted by unlock era into
  which a chunk is merged at the position a binary search finds.

  The binary search is shown to terminate and to find the right position, \<open>unbonding_add\<close> to keep
  the order and to add exactly the amount to the unlock era's entry, and \<open>partition\<close> to split the
  total. The interface for the pallet is the locale \<open>unlocking_queue\<close>.
\<close>

section \<open>The data structure and its operations\<close>

record unlocking_chunk =
  uc_amount :: u128
  unlock_era :: era_index

definition add_amount :: "unlocking_chunk \<Rightarrow> u128 \<Rightarrow> unlocking_chunk" where
  "add_amount c amount = c\<lparr>uc_amount := uc_amount c + amount\<rparr>"

record unbonding_metadata =
  unlocking_chunks :: "unlocking_chunk list"

definition Unbonding_default :: unbonding_metadata where
  "Unbonding_default = \<lparr>unlocking_chunks = []\<rparr>"

definition unbonding_len :: "unbonding_metadata \<Rightarrow> u32" where
  "unbonding_len u = word_of_nat (length (unlocking_chunks u))"

definition unbonding_is_empty :: "unbonding_metadata \<Rightarrow> bool" where
  "unbonding_is_empty u \<longleftrightarrow> unlocking_chunks u = []"

definition unbonding_sum :: "unbonding_metadata \<Rightarrow> u128" where
  "unbonding_sum u =
     (case map uc_amount (unlocking_chunks u) of [] \<Rightarrow> 0 | x # xs \<Rightarrow> foldl (+) x xs)"

text \<open>
  \<^verbatim>\<open>slice::binary_search_by\<close> of the standard library, on the keys of the slice: \<open>Inr\<close> is
  \<^verbatim>\<open>Ok\<close> (the key is there), \<open>Inl\<close> is \<^verbatim>\<open>Err\<close> (where it would go).
\<close>

function binary_search :: "'k::linorder \<Rightarrow> 'k list \<Rightarrow> nat \<Rightarrow> nat \<Rightarrow> nat + nat" where
  "binary_search k xs left right =
     (if left < right then
        (let mid = left + (right - left) div 2 in
         if xs ! mid < k then binary_search k xs (mid + 1) right
         else if k < xs ! mid then binary_search k xs left mid
         else Inr mid)
      else Inl left)"
  by pat_completeness auto
termination
  by (relation "measure (\<lambda>(k, xs, left, right). right - left)") auto

declare binary_search.simps [simp del]

definition unbonding_add :: "unbonding_metadata \<Rightarrow> unlocking_chunk \<Rightarrow> unbonding_metadata" where
  "unbonding_add u chunk =
     (let cs = unlocking_chunks u in
      case binary_search (unlock_era chunk) (map unlock_era cs) 0 (length cs) of
        Inr pos \<Rightarrow> u\<lparr>unlocking_chunks := cs[pos := add_amount (cs ! pos) (uc_amount chunk)]\<rparr>
      | Inl pos \<Rightarrow> u\<lparr>unlocking_chunks := take pos cs @ chunk # drop pos cs\<rparr>)"

definition unbonding_partition ::
    "unbonding_metadata \<Rightarrow> era_index \<Rightarrow> unbonding_metadata \<times> unbonding_metadata" where
  "unbonding_partition u e =
     (let (matching, other) = List.partition (\<lambda>c. unlock_era c \<le> e) (unlocking_chunks u)
      in (\<lparr>unlocking_chunks = matching\<rparr>, \<lparr>unlocking_chunks = other\<rparr>))"

section \<open>The binary search\<close>

lemma binary_search_found:
  assumes "binary_search k xs l r = Inr i" and "r \<le> length xs"
  shows "l \<le> i \<and> i < r \<and> xs ! i = k"
  using assms
proof (induction k xs l r rule: binary_search.induct)
  case (1 k xs l r)
  then show ?case
    by (subst (asm) (3) binary_search.simps) (force simp: Let_def split: if_splits)
qed

lemma sorted_halves:
  fixes xs :: "'a::linorder list"
  assumes "sorted_wrt (<) xs" and "m < length xs"
  shows "xs ! m < k \<Longrightarrow> \<forall>j < m + 1. xs ! j < k"
    and "k < xs ! m \<Longrightarrow> \<forall>j. m \<le> j \<and> j < length xs \<longrightarrow> k < xs ! j"
proof -
  have mono: "i \<le> j \<Longrightarrow> j < length xs \<Longrightarrow> xs ! i \<le> xs ! j" for i j
    using assms(1) by (cases "i = j") (auto simp: sorted_wrt_iff_nth_less less_imp_le)
  show "\<forall>j < m + 1. xs ! j < k" if "xs ! m < k" using mono [of _ m] that assms(2) by (auto simp: less_Suc_eq_le intro: le_less_trans)
  show "\<forall>j. m \<le> j \<and> j < length xs \<longrightarrow> k < xs ! j" if "k < xs ! m" using mono [of m] that by (auto intro: less_le_trans)
qed

lemma binary_search_missing:
  assumes "binary_search k xs l r = Inl i" and "sorted_wrt (<) xs" and "r \<le> length xs" and "l \<le> r"
    and "\<forall>j < l. xs ! j < k" and "\<forall>j. r \<le> j \<and> j < length xs \<longrightarrow> k < xs ! j"
  shows "i \<le> length xs \<and> (\<forall>j < i. xs ! j < k) \<and> (\<forall>j. i \<le> j \<and> j < length xs \<longrightarrow> k < xs ! j)"
  using assms
proof (induction k xs l r rule: binary_search.induct)
  case (1 k xs l r)
  show ?case
  proof (cases "l < r")
    case False
    with "1.prems" show ?thesis by (subst (asm) binary_search.simps) auto
  next
    case True
    define mid where "mid = l + (r - l) div 2"
    have mid: "l \<le> mid" "mid < r" using True by (auto simp: mid_def)
    then have len: "mid < length xs" "mid \<le> length xs" using "1.prems"(3) by simp_all
    note step = "1.prems"(1) [unfolded binary_search.simps [of k xs l r] Let_def mid_def [symmetric]]
    consider (right) "xs ! mid < k" | (left) "k < xs ! mid" | (found) "xs ! mid = k" by (meson linorder_neqE)
    then show ?thesis
    proof cases
      case right
      then have "binary_search k xs (mid + 1) r = Inl i" using step True by simp
      then show ?thesis
        using "1.IH"(1) [OF True mid_def right] sorted_halves(1) [OF "1.prems"(2) len(1) right] "1.prems"(2,3,6) mid by simp
    next
      case left
      then have "binary_search k xs l mid = Inl i" using step True less_not_sym [OF left] by simp
      then show ?thesis
        by (rule "1.IH"(2) [OF True mid_def less_not_sym [OF left] left _ "1.prems"(2) len(2) mid(1)
              "1.prems"(5) sorted_halves(2) [OF "1.prems"(2) len(1) left]])
    next
      case found
      with step True show ?thesis by simp
    qed
  qed
qed

section \<open>The invariant and the abstraction\<close>

definition unbonding_inv :: "unbonding_metadata \<Rightarrow> bool" where
  "unbonding_inv u \<longleftrightarrow> sorted_wrt (<) (map unlock_era (unlocking_chunks u))"

text \<open>The total of the chunks, and the amount that unlocks in era \<open>e\<close>, without wrap-around.\<close>

definition chunk_total :: "unbonding_metadata \<Rightarrow> nat" where
  "chunk_total u = sum_list (map (\<lambda>c. unat (uc_amount c)) (unlocking_chunks u))"

definition unlocks_at :: "unbonding_metadata \<Rightarrow> era_index \<Rightarrow> nat" where
  "unlocks_at u e =
     sum_list (map (\<lambda>c. unat (uc_amount c)) (filter (\<lambda>c. unlock_era c = e) (unlocking_chunks u)))"

lemma unbonding_default [simp]:
  "unbonding_inv Unbonding_default" "chunk_total Unbonding_default = 0"
  "unlocking_chunks Unbonding_default = []" "unbonding_is_empty Unbonding_default"
  by (simp_all add: unbonding_inv_def chunk_total_def Unbonding_default_def unbonding_is_empty_def)

lemma unat_foldl_plus:
  fixes xs :: "'a::len word list"
  assumes "unat x + sum_list (map unat xs) < 2 ^ LENGTH('a)"
  shows "unat (foldl (+) x xs) = unat x + sum_list (map unat xs)"
  using assms
proof (induction xs arbitrary: x)
  case (Cons y ys)
  have fits: "unat x + unat y < 2 ^ LENGTH('a)" using Cons.prems by simp
  then have "unat (foldl (+) (x + y) ys) = unat (x + y) + sum_list (map unat ys)"
    using Cons by (intro Cons.IH) (simp add: unat_plus_fits)
  with fits show ?case by (simp add: unat_plus_fits)
qed simp

lemma unbonding_sum_total:
  assumes "chunk_total u < 2 ^ 128"
  shows "unat (unbonding_sum u) = chunk_total u"
proof (cases "unlocking_chunks u")
  case (Cons c cs)
  then have "unat (uc_amount c) + sum_list (map unat (map uc_amount cs)) < 2 ^ LENGTH(128)"
    using assms by (simp add: chunk_total_def comp_def)
  from unat_foldl_plus [OF this] Cons show ?thesis
    by (simp add: unbonding_sum_def chunk_total_def comp_def)
qed (simp add: unbonding_sum_def chunk_total_def)

section \<open>Adding a chunk\<close>

text \<open>The two outcomes of \<open>unbonding_add\<close> on a sorted vector.\<close>

lemma unbonding_add_cases:
  assumes "unbonding_inv u"
  obtains (merge) xs c ys where "unlocking_chunks u = xs @ c # ys"
      and "unlock_era c = unlock_era chunk"
      and "unlocking_chunks (unbonding_add u chunk) = xs @ add_amount c (uc_amount chunk) # ys"
  | (insert) xs ys where "unlocking_chunks u = xs @ ys"
      and "\<forall>c \<in> set xs. unlock_era c < unlock_era chunk"
      and "\<forall>c \<in> set ys. unlock_era chunk < unlock_era c"
      and "unlocking_chunks (unbonding_add u chunk) = xs @ chunk # ys"
proof -
  let ?cs = "unlocking_chunks u"
  let ?keys = "map unlock_era ?cs"
  show ?thesis
  proof (cases "binary_search (unlock_era chunk) ?keys 0 (length ?cs)")
    case (Inr pos)
    then have pos: "pos < length ?cs" "unlock_era (?cs ! pos) = unlock_era chunk"
      using binary_search_found [OF Inr] by auto
    then have "?cs = take pos ?cs @ ?cs ! pos # drop (Suc pos) ?cs"
      by (simp add: id_take_nth_drop [symmetric])
    with pos Inr show ?thesis
      by (intro merge [of "take pos ?cs" "?cs ! pos" "drop (Suc pos) ?cs"])
        (auto simp: unbonding_add_def upd_conv_take_nth_drop Let_def)
  next
    case (Inl pos)
    have none: "\<forall>j. length ?cs \<le> j \<and> j < length ?keys \<longrightarrow> unlock_era chunk < ?keys ! j"
      by auto
    have found: "pos \<le> length ?keys" "\<forall>j < pos. ?keys ! j < unlock_era chunk"
        "\<forall>j. pos \<le> j \<and> j < length ?keys \<longrightarrow> unlock_era chunk < ?keys ! j"
      using binary_search_missing [OF Inl assms [unfolded unbonding_inv_def] _ _ _ none] by auto
    show ?thesis
    proof (intro insert [of "take pos ?cs" "drop pos ?cs"])
      show "\<forall>c \<in> set (take pos ?cs). unlock_era c < unlock_era chunk"
        using found(1,2) by (auto simp: in_set_conv_nth)
      show "\<forall>c \<in> set (drop pos ?cs). unlock_era chunk < unlock_era c"
        using found(1,3) by (auto simp: in_set_conv_nth)
    qed (simp_all add: unbonding_add_def Inl Let_def)
  qed
qed

lemma unbonding_add_inv:
  assumes "unbonding_inv u"
  shows "unbonding_inv (unbonding_add u chunk)"
  using assms
  by (cases rule: unbonding_add_cases [OF assms, of chunk])
    (auto simp: unbonding_inv_def sorted_wrt_append add_amount_def)

lemma unbonding_add_total:
  assumes "unbonding_inv u" and fits: "chunk_total u + unat (uc_amount chunk) < 2 ^ 128"
  shows "chunk_total (unbonding_add u chunk) = chunk_total u + unat (uc_amount chunk)"
  using assms(1)
proof (cases rule: unbonding_add_cases [where chunk = chunk])
  case (merge xs c ys)
  then have "unat (uc_amount c) + unat (uc_amount chunk) < 2 ^ LENGTH(128)"
    using fits by (simp add: chunk_total_def)
  with merge show ?thesis by (simp add: chunk_total_def add_amount_def unat_plus_fits)
next
  case (insert xs ys)
  then show ?thesis by (simp add: chunk_total_def)
qed

lemma unbonding_add_unlocks:
  assumes "unbonding_inv u" and fits: "chunk_total u + unat (uc_amount chunk) < 2 ^ 128"
  shows "unlocks_at (unbonding_add u chunk) e =
    unlocks_at u e + (if e = unlock_era chunk then unat (uc_amount chunk) else 0)"
  using assms(1)
proof (cases rule: unbonding_add_cases [where chunk = chunk])
  case (merge xs c ys)
  then have "unat (uc_amount c) + unat (uc_amount chunk) < 2 ^ LENGTH(128)"
    using fits by (simp add: chunk_total_def)
  with merge show ?thesis by (simp add: unlocks_at_def add_amount_def unat_plus_fits)
next
  case (insert xs ys)
  then show ?thesis by (simp add: unlocks_at_def)
qed

lemma unbonding_add_nonempty: "\<not> unbonding_is_empty (unbonding_add u chunk)"
  if "unbonding_inv u"
  by (cases rule: unbonding_add_cases [OF that, of chunk]) (simp_all add: unbonding_is_empty_def)

text \<open>A chunk for an era that is already waiting takes no new slot.\<close>

lemma unbonding_add_length:
  assumes "unbonding_inv u"
  shows "length (unlocking_chunks (unbonding_add u chunk)) =
    length (unlocking_chunks u) +
    (if unlock_era chunk \<in> unlock_era ` set (unlocking_chunks u) then 0 else 1)"
  using assms
proof (cases rule: unbonding_add_cases [where chunk = chunk])
  case (merge xs c ys)
  then have "unlock_era chunk \<in> unlock_era ` set (unlocking_chunks u)" by force
  with merge show ?thesis by simp
next
  case (insert xs ys)
  then have "unlock_era chunk \<notin> unlock_era ` set (unlocking_chunks u)" by auto
  with insert show ?thesis by simp
qed

section \<open>Splitting off the matured chunks\<close>

lemma unbonding_partition_simps:
  assumes "unbonding_partition u e = (valid, future)"
  shows "unlocking_chunks valid = filter (\<lambda>c. unlock_era c \<le> e) (unlocking_chunks u)"
    and "unlocking_chunks future = filter (\<lambda>c. \<not> unlock_era c \<le> e) (unlocking_chunks u)"
  using assms by (auto simp: unbonding_partition_def comp_def)

lemma unbonding_partition_total:
  assumes "unbonding_partition u e = (valid, future)"
  shows "chunk_total valid + chunk_total future = chunk_total u"
  unfolding chunk_total_def unbonding_partition_simps [OF assms]
  by (rule sum_list_split_filter [symmetric])

lemma unbonding_partition_inv:
  assumes "unbonding_partition u e = (valid, future)" and "unbonding_inv u"
  shows "unbonding_inv valid" and "unbonding_inv future"
  using assms(2) unbonding_partition_simps [OF assms(1)]
  by (simp_all add: unbonding_inv_def sorted_wrt_map sorted_wrt_filter)

lemma unbonding_partition_unlocks:
  assumes "unbonding_partition u e = (valid, future)"
  shows "unlocks_at valid x = (if x \<le> e then unlocks_at u x else 0)"
    and "unlocks_at future x = (if x \<le> e then 0 else unlocks_at u x)"
proof -
  have valid_part: "filter (\<lambda>c. unlock_era c = x) (filter (\<lambda>c. unlock_era c \<le> e) cs) =
      (if x \<le> e then filter (\<lambda>c. unlock_era c = x) cs else [])" for cs
    by (induction cs) auto
  have future_part: "filter (\<lambda>c. unlock_era c = x) (filter (\<lambda>c. \<not> unlock_era c \<le> e) cs) =
      (if x \<le> e then [] else filter (\<lambda>c. unlock_era c = x) cs)" for cs
    by (induction cs) auto
  show "unlocks_at valid x = (if x \<le> e then unlocks_at u x else 0)"
    unfolding unlocks_at_def unbonding_partition_simps [OF assms] valid_part by simp
  show "unlocks_at future x = (if x \<le> e then 0 else unlocks_at u x)"
    unfolding unlocks_at_def unbonding_partition_simps [OF assms] future_part by simp
qed

section \<open>The interface the pallet relies on\<close>

text \<open>
  The pallet adds a chunk when funds are unstaked and, in a later era, takes out what has matured.
  What goes in comes out: nothing is lost or released early.
\<close>

locale unlocking_queue =
  fixes inv :: "'u \<Rightarrow> bool"
    and total :: "'u \<Rightarrow> nat"
    and at :: "'u \<Rightarrow> era_index \<Rightarrow> nat"
    and add_op :: "'u \<Rightarrow> unlocking_chunk \<Rightarrow> 'u"
    and split_op :: "'u \<Rightarrow> era_index \<Rightarrow> 'u \<times> 'u"
  assumes add_inv: "inv u \<Longrightarrow> inv (add_op u c)"
    and add_total: "inv u \<Longrightarrow> total u + unat (uc_amount c) < 2 ^ 128 \<Longrightarrow>
      total (add_op u c) = total u + unat (uc_amount c)"
    and add_at: "inv u \<Longrightarrow> total u + unat (uc_amount c) < 2 ^ 128 \<Longrightarrow>
      at (add_op u c) e = at u e + (if e = unlock_era c then unat (uc_amount c) else 0)"
    and split_inv: "inv u \<Longrightarrow> split_op u e = (v, f) \<Longrightarrow> inv v \<and> inv f"
    and split_total: "split_op u e = (v, f) \<Longrightarrow> total v + total f = total u"
    and split_at: "split_op u e = (v, f) \<Longrightarrow>
      at v x = (if x \<le> e then at u x else 0) \<and> at f x = (if x \<le> e then 0 else at u x)"
begin

lemma matured_le: "split_op u e = (v, f) \<Longrightarrow> total v \<le> total u"
  using split_total [of u e v f] by simp

text \<open>Until its unlock era a chunk stays in the part that is not released.\<close>

lemma not_released_early:
  assumes "inv u" and "total u + unat (uc_amount c) < 2 ^ 128"
    and "split_op (add_op u c) e = (v, f)" and "e < unlock_era c"
  shows "at f (unlock_era c) = at u (unlock_era c) + unat (uc_amount c)"
    and "at v (unlock_era c) = 0"
proof -
  have "\<not> unlock_era c \<le> e" using assms(4) by simp
  then show "at f (unlock_era c) = at u (unlock_era c) + unat (uc_amount c)"
      and "at v (unlock_era c) = 0"
    using split_at [OF assms(3), of "unlock_era c"] add_at [OF assms(1,2), of "unlock_era c"]
    by simp_all
qed

text \<open>From its unlock era on it is in the released part.\<close>

lemma released_in_time:
  assumes "inv u" and "total u + unat (uc_amount c) < 2 ^ 128"
    and "split_op (add_op u c) e = (v, f)" and "unlock_era c \<le> e"
  shows "at v (unlock_era c) = at u (unlock_era c) + unat (uc_amount c)"
  using split_at [OF assms(3), of "unlock_era c"] add_at [OF assms(1,2), of "unlock_era c"] assms(4)
  by simp

end

interpretation uq: unlocking_queue unbonding_inv chunk_total unlocks_at unbonding_add
    unbonding_partition
proof unfold_locales
  fix u e v f
  assume "unbonding_partition u e = (v, f)"
  note part = this
  show "chunk_total v + chunk_total f = chunk_total u"
    by (rule unbonding_partition_total [OF part])
  show "unlocks_at v x = (if x \<le> e then unlocks_at u x else 0) \<and>
      unlocks_at f x = (if x \<le> e then 0 else unlocks_at u x)" for x
    using unbonding_partition_unlocks [OF part] by blast
  show "unbonding_inv v \<and> unbonding_inv f" if "unbonding_inv u"
    using unbonding_partition_inv [OF part that] by blast
qed (rule unbonding_add_inv unbonding_add_total unbonding_add_unlocks; assumption)+

end
