(* ===== verification/Staking.thy ===== *)
theory Staking
  imports Frame Delegation Unbonding
begin

text \<open>
  \<^verbatim>\<open>pallets/dapi-staking/src/lib.rs\<close> and the remaining types of \<^verbatim>\<open>types.rs\<close>: the storage of the
  staking pallet, every dispatchable call, the block hook, the two calls of the
  \<^verbatim>\<open>DapiStakingRegistration\<close> trait, and the helpers they use. A call takes the storage of the
  currency and of the pallet and returns both, or the error it stops with. Every call makes all its
  checks and its fallible currency operation before it writes, so an error leaves both unchanged.
\<close>

section \<open>Types\<close>

datatype provider_status = Active | Inactive era_index

record 'ac provider_metadata =
  pm_owner :: 'ac
  pm_status :: provider_status
  pm_bond_withdrawn :: bool

definition ProviderMetadata_new :: "'ac \<Rightarrow> 'ac provider_metadata" where
  "ProviderMetadata_new owner =
     \<lparr>pm_owner = owner, pm_status = Active, pm_bond_withdrawn = False\<rparr>"

record era_metadata =
  em_rewards :: u128
  em_staked :: u128

definition EraMetadata_default :: era_metadata where
  "EraMetadata_default = \<lparr>em_rewards = 0, em_staked = 0\<rparr>"

record provider_era_metadata =
  pe_bond :: u128
  pe_total :: u128
  pe_delegator_count :: u32
  pe_reward_claimed :: bool

definition ProviderEraMetadata_default :: provider_era_metadata where
  "ProviderEraMetadata_default =
     \<lparr>pe_bond = 0, pe_total = 0, pe_delegator_count = 0, pe_reward_claimed = False\<rparr>"

section \<open>Configuration, storage, events, errors\<close>

text \<open>The constants of the \<^verbatim>\<open>Config\<close> trait; \<open>pot\<close> is the account the pallet id converts to.\<close>

record 'ac staking_config =
  DefaultBlocksPerEra :: u32
  ProviderRewardsPercentage :: perbill
  MinProviderStake :: u128
  MaxDelegatorsPerProvider :: u32
  MinDelegatorStake :: u128
  MaxEraStakeValues :: u32
  UnbondingPeriod :: u32
  MaxUnlockingChunks :: u32
  pot :: 'ac

datatype ('ac, 'pid) staking_event =
  ProviderBondedMore 'pid u128
| ProviderBondedLess 'pid u128
| Delegated 'ac 'pid u128
| DelegatorUnstaked 'ac 'pid u128
| Withdrawn 'ac u128
| NewEra era_index block_number
| Payout 'ac 'pid era_index u128
| BlocksPerEraSet era_index block_number u32 u32

datatype staking_error =
  ProviderDNE | InsufficientBond | StakingWithNoValue | MaxNumberOfStakersExceeded
| NotOperatedProvider | NotStakedProvider | UnknownEra | UnexpectedDelegationInfoEra
| TooManyEraStakeValues | UnclaimedRewardsRemaining | UnstakingWithNoValue
| TooManyUnlockingChunks | NothingToWithdraw | EraOutOfBounds | NotOwnedProvider
| AlreadyClaimedInThisEra | NotUnregisteredProvider | ProviderExists | NoWritingSameValue
| CannotSetBelowMin

record ('ac, 'pid) staking_state =
  era :: era_info
  era_state :: "(era_index, era_metadata) storage"
  reward_accumulator :: u128
  provider_info :: "('pid, 'ac provider_metadata) storage"
  provider_era_info :: "('pid \<times> era_index, provider_era_metadata) storage"
  delegation_info :: "('ac \<times> 'pid, delegation) storage"
  unbonding_info :: "('ac, unbonding_metadata) storage"
  staking_events :: "('ac, 'pid) staking_event list"

definition staking_genesis :: "('ac, 'pid) staking_state" where
  "staking_genesis = \<lparr>era = EraInfo_default, era_state = [], reward_accumulator = 0,
     provider_info = [], provider_era_info = [], delegation_info = [], unbonding_info = [],
     staking_events = []\<rparr>"

type_synonym ('ac, 'pid, 'cs) staking_result =
  "(staking_error, 'cs \<times> ('ac, 'pid) staking_state) dispatch"

section \<open>Helpers\<close>

definition staking_deposit_event ::
    "('ac, 'pid) staking_event \<Rightarrow> ('ac, 'pid) staking_state \<Rightarrow> ('ac, 'pid) staking_state" where
  "staking_deposit_event ev st = st\<lparr>staking_events := staking_events st @ [ev]\<rparr>"

definition staking_account_id :: "'ac staking_config \<Rightarrow> 'ac" where
  "staking_account_id cfg = pot cfg"

definition current_era :: "('ac, 'pid) staking_state \<Rightarrow> era_index" where
  "current_era st = current (era st)"

text \<open>\<^verbatim>\<open>ProviderEraInfo::get(..).unwrap_or_default()\<close> and the \<^verbatim>\<open>ValueQuery\<close> maps.\<close>

definition provider_era_or_default ::
    "('ac, 'pid) staking_state \<Rightarrow> 'pid \<Rightarrow> era_index \<Rightarrow> provider_era_metadata" where
  "provider_era_or_default st p e = get_or ProviderEraMetadata_default (provider_era_info st) (p, e)"

definition delegation_of :: "('ac, 'pid) staking_state \<Rightarrow> 'ac \<Rightarrow> 'pid \<Rightarrow> delegation" where
  "delegation_of st a p = get_or Delegation_default (delegation_info st) (a, p)"

definition unbonding_of :: "('ac, 'pid) staking_state \<Rightarrow> 'ac \<Rightarrow> unbonding_metadata" where
  "unbonding_of st a = get_or Unbonding_default (unbonding_info st) a"

definition update_unbonding_info ::
    "'ac \<Rightarrow> unbonding_metadata \<Rightarrow> ('ac, 'pid) staking_state \<Rightarrow> ('ac, 'pid) staking_state" where
  "update_unbonding_info account info st =
     (if unbonding_is_empty info
      then st\<lparr>unbonding_info := sremove account (unbonding_info st)\<rparr>
      else st\<lparr>unbonding_info := sinsert account info (unbonding_info st)\<rparr>)"

definition update_delegation_info ::
    "'ac \<Rightarrow> 'pid \<Rightarrow> delegation \<Rightarrow> ('ac, 'pid) staking_state \<Rightarrow> ('ac, 'pid) staking_state" where
  "update_delegation_info delegator provider_id info st =
     (if delegation_is_empty info
      then st\<lparr>delegation_info := sremove (delegator, provider_id) (delegation_info st)\<rparr>
      else st\<lparr>delegation_info := sinsert (delegator, provider_id) info (delegation_info st)\<rparr>)"

definition snapshot_era_rewards ::
    "era_index \<Rightarrow> ('ac, 'pid) staking_state \<Rightarrow> ('ac, 'pid) staking_state" where
  "snapshot_era_rewards e st =
     (let state = get_or EraMetadata_default (era_state st) e;
          st1 = st\<lparr>era_state := sinsert (e + 1) \<lparr>em_rewards = 0, em_staked = em_staked state\<rparr>
                    (era_state st)\<rparr>;
          state' = state\<lparr>em_rewards := reward_accumulator st1\<rparr>;
          st2 = st1\<lparr>reward_accumulator := 0\<rparr>
      in st2\<lparr>era_state := sinsert e state' (era_state st2)\<rparr>)"

fun rotate_loop ::
    "('ac, 'cs, 'o) frame \<Rightarrow> era_index \<Rightarrow> ('pid \<times> 'ac provider_metadata) list \<Rightarrow> u64 \<Rightarrow>
     ('pid \<times> era_index, provider_era_metadata) storage \<Rightarrow>
     u64 \<times> ('pid \<times> era_index, provider_era_metadata) storage" where
  "rotate_loop F e [] consumed m = (consumed, m)"
| "rotate_loop F e ((provider_id, provider) # rest) consumed m =
     (let consumed1 = saturating_add consumed (db_reads F 1) in
      case pm_status provider of
        Inactive _ \<Rightarrow> rotate_loop F e rest consumed1 m
      | Active \<Rightarrow>
          (case sget m (provider_id, e) of
             Some info \<Rightarrow>
               rotate_loop F e rest (saturating_add consumed1 (db_reads_writes F 1 1))
                 (sinsert (provider_id, e + 1) (info\<lparr>pe_reward_claimed := False\<rparr>) m)
           | None \<Rightarrow> rotate_loop F e rest (saturating_add consumed1 (db_reads F 1)) m))"

definition rotate_provider_era_info ::
    "('ac, 'cs, 'o) frame \<Rightarrow> era_index \<Rightarrow> ('ac, 'pid) staking_state \<Rightarrow>
     u64 \<times> ('ac, 'pid) staking_state" where
  "rotate_provider_era_info F e st =
     (let (consumed, m) = rotate_loop F e (provider_info st) 0 (provider_era_info st)
      in (consumed, st\<lparr>provider_era_info := m\<rparr>))"

definition is_active_provider :: "('ac, 'pid) staking_state \<Rightarrow> 'pid \<Rightarrow> bool" where
  "is_active_provider st provider_id =
     (case sget (provider_info st) provider_id of
        None \<Rightarrow> False
      | Some info \<Rightarrow> pm_status info = Active)"

definition split_provider_delegators_rewards ::
    "('ac, 'cs, 'o) frame \<Rightarrow> 'ac staking_config \<Rightarrow> provider_era_metadata \<Rightarrow> era_metadata \<Rightarrow>
     u128 \<times> u128" where
  "split_provider_delegators_rewards F cfg info em =
     (let provider_rewards =
            perbill_mul F (perbill_from_rational F (pe_total info) (em_staked em)) (em_rewards em);
          provider_reward_part = perbill_mul F (ProviderRewardsPercentage cfg) provider_rewards;
          delegators_reward_part = saturating_sub provider_rewards provider_reward_part
      in (provider_reward_part, delegators_reward_part))"

definition handle_imbalance ::
    "('ac, 'cs, 'o) frame \<Rightarrow> 'ac staking_config \<Rightarrow> u128 \<Rightarrow>
     'cs \<times> ('ac, 'pid) staking_state \<Rightarrow> 'cs \<times> ('ac, 'pid) staking_state" where
  "handle_imbalance F cfg imbalance = (\<lambda>(cs, st).
     (resolve_creating F (staking_account_id cfg) imbalance cs,
      st\<lparr>reward_accumulator := saturating_add (reward_accumulator st) imbalance\<rparr>))"

text \<open>The two closures given to \<^verbatim>\<open>EraState::mutate\<close>.\<close>

definition era_staked_add ::
    "era_index \<Rightarrow> u128 \<Rightarrow> ('ac, 'pid) staking_state \<Rightarrow> ('ac, 'pid) staking_state" where
  "era_staked_add e amount st = st\<lparr>era_state :=
     smutate e (\<lambda>x. x\<lparr>em_staked := saturating_add (em_staked x) amount\<rparr>) (era_state st)\<rparr>"

definition era_staked_sub ::
    "era_index \<Rightarrow> u128 \<Rightarrow> ('ac, 'pid) staking_state \<Rightarrow> ('ac, 'pid) staking_state" where
  "era_staked_sub e amount st = st\<lparr>era_state :=
     smutate e (\<lambda>x. x\<lparr>em_staked := saturating_sub (em_staked x) amount\<rparr>) (era_state st)\<rparr>"

definition put_provider_era ::
    "'pid \<Rightarrow> era_index \<Rightarrow> provider_era_metadata \<Rightarrow> ('ac, 'pid) staking_state \<Rightarrow>
     ('ac, 'pid) staking_state" where
  "put_provider_era p e info st =
     st\<lparr>provider_era_info := sinsert (p, e) info (provider_era_info st)\<rparr>"

section \<open>The block hook\<close>

definition staking_on_initialize ::
    "('ac, 'cs, 'o) frame \<Rightarrow> 'ac staking_config \<Rightarrow> block_number \<Rightarrow> ('ac, 'pid) staking_state \<Rightarrow>
     u64 \<times> ('ac, 'pid) staking_state" where
  "staking_on_initialize F cfg n st =
     (if should_update (era st) n then
        (let previous_era = current (era st);
             e1 = (if previous_era = 0 then (era st)\<lparr>era_length := DefaultBlocksPerEra cfg\<rparr>
                   else era st);
             e2 = EraInfo_update e1 n;
             st1 = snapshot_era_rewards previous_era (st\<lparr>era := e2\<rparr>);
             (consumed_weight, st2) = rotate_provider_era_info F previous_era st1
         in (consumed_weight + db_reads_writes F 2 3,
             staking_deposit_event (NewEra (current e2) (first_block e2)) st2))
      else (db_reads F 1, st))"

section \<open>The calls\<close>

definition set_blocks_per_era ::
    "('ac, 'cs, 'o) frame \<Rightarrow> 'o \<Rightarrow> u32 \<Rightarrow> 'cs \<times> ('ac, 'pid) staking_state \<Rightarrow>
     ('ac, 'pid, 'cs) staking_result" where
  "set_blocks_per_era F origin new = (\<lambda>(cs, st).
     if \<not> ensure_root F origin then Inl BadOrigin
     else
       (let now = current (era st); first = first_block (era st); old = era_length (era st) in
        if old = new then Inl (ModuleError NoWritingSameValue)
        else Inr (cs, staking_deposit_event (BlocksPerEraSet now first old new)
                        (st\<lparr>era := (era st)\<lparr>era_length := new\<rparr>\<rparr>))))"

definition provider_bond_more ::
    "('ac, 'cs, 'o) frame \<Rightarrow> 'o \<Rightarrow> 'pid \<Rightarrow> u128 \<Rightarrow> 'cs \<times> ('ac, 'pid) staking_state \<Rightarrow>
     ('ac, 'pid, 'cs) staking_result" where
  "provider_bond_more F origin provider_id amount = (\<lambda>(cs, st).
     case ensure_signed F origin of None \<Rightarrow> Inl BadOrigin | Some who \<Rightarrow>
     if \<not> amount > 0 then Inl (ModuleError StakingWithNoValue)
     else case sget (provider_info st) provider_id of None \<Rightarrow> Inl (ModuleError ProviderDNE) | Some info \<Rightarrow>
     if pm_status info \<noteq> Active then Inl (ModuleError NotOperatedProvider)
     else if pm_owner info \<noteq> who then Inl (ModuleError NotOwnedProvider)
     else
       (let e = current_era st; pe = provider_era_or_default st provider_id e in
        case checked_add (pe_bond pe) amount of None \<Rightarrow> Inl ArithmeticOverflow | Some new_bond \<Rightarrow>
        case checked_add (pe_total pe) amount of None \<Rightarrow> Inl ArithmeticOverflow | Some new_total \<Rightarrow>
        case reserve F who amount cs of Inl err \<Rightarrow> Inl (CurrencyError err) | Inr cs' \<Rightarrow>
        Inr (cs', staking_deposit_event (ProviderBondedMore provider_id amount)
               (put_provider_era provider_id e (pe\<lparr>pe_bond := new_bond, pe_total := new_total\<rparr>)
                 (era_staked_add e amount st)))))"

definition provider_bond_less ::
    "('ac, 'cs, 'o) frame \<Rightarrow> 'ac staking_config \<Rightarrow> 'o \<Rightarrow> 'pid \<Rightarrow> u128 \<Rightarrow>
     'cs \<times> ('ac, 'pid) staking_state \<Rightarrow> ('ac, 'pid, 'cs) staking_result" where
  "provider_bond_less F cfg origin provider_id amount = (\<lambda>(cs, st).
     case ensure_signed F origin of None \<Rightarrow> Inl BadOrigin | Some who \<Rightarrow>
     if \<not> amount > 0 then Inl (ModuleError UnstakingWithNoValue)
     else case sget (provider_info st) provider_id of None \<Rightarrow> Inl (ModuleError ProviderDNE) | Some info \<Rightarrow>
     if pm_status info \<noteq> Active then Inl (ModuleError NotOperatedProvider)
     else if pm_owner info \<noteq> who then Inl (ModuleError NotOwnedProvider)
     else
       (let e = current_era st; pe = provider_era_or_default st provider_id e in
        if \<not> pe_bond pe \<ge> amount + MinProviderStake cfg then Inl (ModuleError InsufficientBond)
        else
          (let pe' = pe\<lparr>pe_bond := saturating_sub (pe_bond pe) amount,
                        pe_total := saturating_sub (pe_total pe) amount\<rparr>;
               unbonding = unbonding_add (unbonding_of st who)
                 \<lparr>uc_amount = amount, unlock_era = e + UnbondingPeriod cfg\<rparr>
           in if \<not> unbonding_len unbonding \<le> MaxUnlockingChunks cfg
              then Inl (ModuleError TooManyUnlockingChunks)
              else Inr (cs, staking_deposit_event (ProviderBondedLess provider_id amount)
                     (put_provider_era provider_id e pe'
                       (era_staked_sub e amount
                         (update_unbonding_info who unbonding st)))))))"

definition delegate ::
    "('ac, 'cs, 'o) frame \<Rightarrow> 'ac staking_config \<Rightarrow> 'o \<Rightarrow> 'pid \<Rightarrow> u128 \<Rightarrow>
     'cs \<times> ('ac, 'pid) staking_state \<Rightarrow> ('ac, 'pid, 'cs) staking_result" where
  "delegate F cfg origin provider_id amount = (\<lambda>(cs, st).
     case ensure_signed F origin of None \<Rightarrow> Inl BadOrigin | Some delegator \<Rightarrow>
     if \<not> amount > 0 then Inl (ModuleError StakingWithNoValue)
     else if \<not> is_active_provider st provider_id then Inl (ModuleError NotOperatedProvider)
     else
       (let e = current_era st;
            pe = provider_era_or_default st provider_id e;
            d = delegation_of st delegator provider_id in
        if \<not> (latest_staked_value d \<noteq> 0 \<or> pe_delegator_count pe \<le> MaxDelegatorsPerProvider cfg)
        then Inl (ModuleError MaxNumberOfStakersExceeded)
        else
          (let pe1 = (if latest_staked_value d = 0
                 then pe\<lparr>pe_delegator_count := saturating_add (pe_delegator_count pe) 1\<rparr> else pe) in
           case stake d e amount of Inl _ \<Rightarrow> Inl (ModuleError UnexpectedDelegationInfoEra) | Inr d' \<Rightarrow>
           if \<not> delegation_len d' < MaxEraStakeValues cfg then Inl (ModuleError TooManyEraStakeValues)
           else if \<not> latest_staked_value d' \<ge> MinDelegatorStake cfg
           then Inl (ModuleError InsufficientBond)
           else case checked_add (pe_total pe1) amount of None \<Rightarrow> Inl ArithmeticOverflow | Some new_total \<Rightarrow>
           case reserve F delegator amount cs of Inl err \<Rightarrow> Inl (CurrencyError err) | Inr cs' \<Rightarrow>
           Inr (cs', staking_deposit_event (Delegated delegator provider_id amount)
                  (put_provider_era provider_id e (pe1\<lparr>pe_total := new_total\<rparr>)
                    (update_delegation_info delegator provider_id d'
                      (era_staked_add e amount st)))))))"

definition delegator_unstake ::
    "('ac, 'cs, 'o) frame \<Rightarrow> 'ac staking_config \<Rightarrow> 'o \<Rightarrow> 'pid \<Rightarrow> u128 \<Rightarrow>
     'cs \<times> ('ac, 'pid) staking_state \<Rightarrow> ('ac, 'pid, 'cs) staking_result" where
  "delegator_unstake F cfg origin provider_id amount = (\<lambda>(cs, st).
     case ensure_signed F origin of None \<Rightarrow> Inl BadOrigin | Some delegator \<Rightarrow>
     if \<not> amount > 0 then Inl (ModuleError UnstakingWithNoValue)
     else if \<not> is_active_provider st provider_id then Inl (ModuleError NotOperatedProvider)
     else
       (let d = delegation_of st delegator provider_id; staked_amount = latest_staked_value d in
        if \<not> staked_amount > 0 then Inl (ModuleError NotStakedProvider)
        else
          (let e = current_era st;
               pe = provider_era_or_default st provider_id e;
               remaining = saturating_sub staked_amount amount;
               (pe1, unstake_amount) =
                 (if remaining < MinDelegatorStake cfg
                  then (pe\<lparr>pe_delegator_count := saturating_sub (pe_delegator_count pe) 1\<rparr>, staked_amount)
                  else (pe, amount));
               pe2 = pe1\<lparr>pe_total := saturating_sub (pe_total pe1) unstake_amount\<rparr> in
           if \<not> unstake_amount > 0 then Inl (ModuleError UnstakingWithNoValue)
           else case unstake d e unstake_amount of
             Inl _ \<Rightarrow> Inl (ModuleError UnexpectedDelegationInfoEra)
           | Inr d' \<Rightarrow>
             if \<not> delegation_len d' < MaxEraStakeValues cfg
             then Inl (ModuleError TooManyEraStakeValues)
             else
               (let unbonding = unbonding_add (unbonding_of st delegator)
                      \<lparr>uc_amount = unstake_amount, unlock_era = e + UnbondingPeriod cfg\<rparr>
                in if \<not> unbonding_len unbonding \<le> MaxUnlockingChunks cfg
                   then Inl (ModuleError TooManyUnlockingChunks)
                   else Inr (cs,
                     staking_deposit_event (DelegatorUnstaked delegator provider_id unstake_amount)
                       (put_provider_era provider_id e pe2
                         (update_delegation_info delegator provider_id d'
                           (era_staked_sub e unstake_amount
                             (update_unbonding_info delegator unbonding st)))))))))"

definition withdraw_unbonded ::
    "('ac, 'cs, 'o) frame \<Rightarrow> 'o \<Rightarrow> 'cs \<times> ('ac, 'pid) staking_state \<Rightarrow>
     ('ac, 'pid, 'cs) staking_result" where
  "withdraw_unbonded F origin = (\<lambda>(cs, st).
     case ensure_signed F origin of None \<Rightarrow> Inl BadOrigin | Some who \<Rightarrow>
     (let (valid_chunks, future_chunks) = unbonding_partition (unbonding_of st who) (current_era st);
          amount = unbonding_sum valid_chunks
      in if amount = 0 then Inl (ModuleError NothingToWithdraw)
         else
           (let (_, cs') = unreserve F who amount cs
            in Inr (cs', staking_deposit_event (Withdrawn who amount)
                           (update_unbonding_info who future_chunks st)))))"

definition claim_provider ::
    "('ac, 'cs, 'o) frame \<Rightarrow> 'ac staking_config \<Rightarrow> 'o \<Rightarrow> 'pid \<Rightarrow> era_index \<Rightarrow>
     'cs \<times> ('ac, 'pid) staking_state \<Rightarrow> ('ac, 'pid, 'cs) staking_result" where
  "claim_provider F cfg origin provider_id e = (\<lambda>(cs, st).
     case ensure_signed F origin of None \<Rightarrow> Inl BadOrigin | Some _ \<Rightarrow>
     case sget (provider_info st) provider_id of None \<Rightarrow> Inl (ModuleError NotOperatedProvider) | Some info \<Rightarrow>
     if (case pm_status info of Inactive unregistered_era \<Rightarrow> \<not> e < unregistered_era | Active \<Rightarrow> False)
     then Inl (ModuleError NotOperatedProvider)
     else if \<not> e < current_era st then Inl (ModuleError EraOutOfBounds)
     else
       (let pe = provider_era_or_default st provider_id e in
        if pe_reward_claimed pe then Inl (ModuleError AlreadyClaimedInThisEra)
        else if \<not> pe_total pe > 0 then Inl (ModuleError NotStakedProvider)
        else case sget (era_state st) e of None \<Rightarrow> Inl (ModuleError UnknownEra) | Some em \<Rightarrow>
        (let (provider_reward, _) = split_provider_delegators_rewards F cfg pe em in
         case withdraw F (staking_account_id cfg) provider_reward AllowDeath cs of
           Inl err \<Rightarrow> Inl (CurrencyError err)
         | Inr (imbalance, cs1) \<Rightarrow>
             Inr (resolve_creating F (pm_owner info) imbalance cs1,
                  staking_deposit_event (Payout (pm_owner info) provider_id e provider_reward)
                    (put_provider_era provider_id e (pe\<lparr>pe_reward_claimed := True\<rparr>) st)))))"

definition claim_delegator ::
    "('ac, 'cs, 'o) frame \<Rightarrow> 'ac staking_config \<Rightarrow> 'o \<Rightarrow> 'pid \<Rightarrow>
     'cs \<times> ('ac, 'pid) staking_state \<Rightarrow> ('ac, 'pid, 'cs) staking_result" where
  "claim_delegator F cfg origin provider_id = (\<lambda>(cs, st).
     case ensure_signed F origin of None \<Rightarrow> Inl BadOrigin | Some delegator \<Rightarrow>
     (let ((e, staked), d') = claim (delegation_of st delegator provider_id) in
      if \<not> staked > 0 then Inl (ModuleError NotStakedProvider)
      else case sget (provider_info st) provider_id of None \<Rightarrow> Inl (ModuleError NotOperatedProvider) | Some info \<Rightarrow>
      if (case pm_status info of Inactive unregistered_era \<Rightarrow> \<not> e < unregistered_era | Active \<Rightarrow> False)
      then Inl (ModuleError NotOperatedProvider)
      else if \<not> e < current_era st then Inl (ModuleError EraOutOfBounds)
      else
        (let pe = provider_era_or_default st provider_id e in
         case sget (era_state st) e of None \<Rightarrow> Inl (ModuleError UnknownEra) | Some em \<Rightarrow>
         (let (_, delegators_reward) = split_provider_delegators_rewards F cfg pe em;
              reward = perbill_mul F
                (perbill_from_rational F staked (saturating_sub (pe_total pe) (pe_bond pe)))
                delegators_reward in
          case withdraw F (staking_account_id cfg) reward AllowDeath cs of
            Inl err \<Rightarrow> Inl (CurrencyError err)
          | Inr (imbalance, cs1) \<Rightarrow>
              Inr (resolve_creating F delegator imbalance cs1,
                   staking_deposit_event (Payout delegator provider_id e reward)
                     (update_delegation_info delegator provider_id d' st))))))"

definition provider_withdraw_unregistered ::
    "('ac, 'cs, 'o) frame \<Rightarrow> 'ac staking_config \<Rightarrow> 'o \<Rightarrow> 'pid \<Rightarrow>
     'cs \<times> ('ac, 'pid) staking_state \<Rightarrow> ('ac, 'pid, 'cs) staking_result" where
  "provider_withdraw_unregistered F cfg origin provider_id = (\<lambda>(cs, st).
     case ensure_signed F origin of None \<Rightarrow> Inl BadOrigin | Some _ \<Rightarrow>
     case sget (provider_info st) provider_id of None \<Rightarrow> Inl (ModuleError NotOperatedProvider) | Some info \<Rightarrow>
     if pm_bond_withdrawn info then Inl (ModuleError NothingToWithdraw)
     else case pm_status info of Active \<Rightarrow> Inl (ModuleError NotUnregisteredProvider)
     | Inactive unregistered_era \<Rightarrow>
     if \<not> current_era st \<ge> unregistered_era + UnbondingPeriod cfg
     then Inl (ModuleError NothingToWithdraw)
     else
       (let pe = provider_era_or_default st provider_id unregistered_era;
            withdraw_amount = pe_bond pe;
            (_, cs') = unreserve F (pm_owner info) withdraw_amount cs
        in Inr (cs', staking_deposit_event (Withdrawn (pm_owner info) withdraw_amount)
             (st\<lparr>provider_info :=
                sinsert provider_id (info\<lparr>pm_bond_withdrawn := True\<rparr>) (provider_info st)\<rparr>))))"

definition delegator_withdraw_unregistered ::
    "('ac, 'cs, 'o) frame \<Rightarrow> 'ac staking_config \<Rightarrow> 'o \<Rightarrow> 'pid \<Rightarrow>
     'cs \<times> ('ac, 'pid) staking_state \<Rightarrow> ('ac, 'pid, 'cs) staking_result" where
  "delegator_withdraw_unregistered F cfg origin provider_id = (\<lambda>(cs, st).
     case ensure_signed F origin of None \<Rightarrow> Inl BadOrigin | Some delegator \<Rightarrow>
     case sget (provider_info st) provider_id of None \<Rightarrow> Inl (ModuleError NotOperatedProvider) | Some info \<Rightarrow>
     case pm_status info of Active \<Rightarrow> Inl (ModuleError NotUnregisteredProvider)
     | Inactive unregistered_era \<Rightarrow>
     if \<not> current_era st \<ge> unregistered_era + UnbondingPeriod cfg
     then Inl (ModuleError NothingToWithdraw)
     else
       (let d = delegation_of st delegator provider_id; staked_value = latest_staked_value d in
        if \<not> staked_value > 0 then Inl (ModuleError NotStakedProvider)
        else
          (let ((claimable_era, _), _) = claim d in
           if \<not> (claimable_era \<ge> unregistered_era \<or> claimable_era = 0)
           then Inl (ModuleError UnclaimedRewardsRemaining)
           else
             (let (_, cs') = unreserve F delegator staked_value cs
              in Inr (cs', staking_deposit_event (Withdrawn delegator staked_value)
                   (update_delegation_info delegator provider_id Delegation_default st))))))"

section \<open>The registration trait\<close>

definition register_provider ::
    "('ac, 'cs, 'o) frame \<Rightarrow> 'ac staking_config \<Rightarrow> 'ac \<Rightarrow> 'pid \<Rightarrow> u128 \<Rightarrow>
     'cs \<times> ('ac, 'pid) staking_state \<Rightarrow> ('ac, 'pid, 'cs) staking_result" where
  "register_provider F cfg account provider_id bond = (\<lambda>(cs, st).
     if sget (provider_info st) provider_id \<noteq> None then Inl (ModuleError ProviderExists)
     else if \<not> bond \<ge> MinProviderStake cfg then Inl (ModuleError InsufficientBond)
     else case reserve F account bond cs of Inl err \<Rightarrow> Inl (CurrencyError err) | Inr cs' \<Rightarrow>
       (let st1 = st\<lparr>provider_info :=
              sinsert provider_id (ProviderMetadata_new account) (provider_info st)\<rparr>;
            e = current_era st1;
            st2 = put_provider_era provider_id e
              \<lparr>pe_bond = bond, pe_total = bond, pe_delegator_count = 0, pe_reward_claimed = False\<rparr> st1;
            em = get_or EraMetadata_default (era_state st2) e;
            em' = em\<lparr>em_staked := saturating_add (em_staked em) bond\<rparr>
        in Inr (cs', st2\<lparr>era_state := sinsert e em' (era_state st2)\<rparr>)))"

definition unregister_provider ::
    "'pid \<Rightarrow> 'cs \<times> ('ac, 'pid) staking_state \<Rightarrow> ('ac, 'pid, 'cs) staking_result" where
  "unregister_provider provider_id = (\<lambda>(cs, st).
     case sget (provider_info st) provider_id of None \<Rightarrow> Inl (ModuleError ProviderDNE) | Some provider \<Rightarrow>
     if pm_status provider \<noteq> Active then Inl (ModuleError NotOperatedProvider)
     else
       (let e = current_era st;
            st1 = st\<lparr>provider_info :=
              sinsert provider_id (provider\<lparr>pm_status := Inactive e\<rparr>) (provider_info st)\<rparr>;
            pe = provider_era_or_default st1 provider_id e
        in Inr (cs, era_staked_sub e (pe_total pe) st1)))"

end
