(* ===== verification/Staking_Inv.thy ===== *)
theory Staking_Inv
  imports Staking
begin

text \<open>
  The structural invariant of the staking storage and what the pallet owes each account: the bonds
  of the providers it owns, the stakes it delegated, and the chunks it waits for. Every call keeps
  the invariant and moves exactly as much into or out of the account's reserved balance as it adds
  to or takes from what is owed.
\<close>

named_theorems staking_access \<open>reading the storage after a helper wrote to it\<close>

section \<open>Reading the storage after a helper\<close>

lemma empty_delegation: "delegation_is_empty d \<Longrightarrow> d = Delegation_default"
  by (cases d) (simp add: delegation_is_empty_def Delegation_default_def)

lemma empty_unbonding: "unbonding_is_empty u \<Longrightarrow> u = Unbonding_default"
  by (cases u) (simp add: unbonding_is_empty_def Unbonding_default_def)

lemma deposit_event_access [simp, staking_access]:
  "era (staking_deposit_event ev st) = era st"
  "current_era (staking_deposit_event ev st) = current_era st"
  "era_state (staking_deposit_event ev st) = era_state st"
  "reward_accumulator (staking_deposit_event ev st) = reward_accumulator st"
  "provider_info (staking_deposit_event ev st) = provider_info st"
  "provider_era_info (staking_deposit_event ev st) = provider_era_info st"
  "delegation_info (staking_deposit_event ev st) = delegation_info st"
  "unbonding_info (staking_deposit_event ev st) = unbonding_info st"
  "provider_era_or_default (staking_deposit_event ev st) = provider_era_or_default st"
  "delegation_of (staking_deposit_event ev st) = delegation_of st"
  "unbonding_of (staking_deposit_event ev st) = unbonding_of st"
  by (simp_all add: staking_deposit_event_def current_era_def provider_era_or_default_def
      delegation_of_def unbonding_of_def fun_eq_iff)

lemma put_provider_era_access [simp, staking_access]:
  "era (put_provider_era p e i st) = era st"
  "current_era (put_provider_era p e i st) = current_era st"
  "era_state (put_provider_era p e i st) = era_state st"
  "reward_accumulator (put_provider_era p e i st) = reward_accumulator st"
  "provider_info (put_provider_era p e i st) = provider_info st"
  "provider_era_info (put_provider_era p e i st) = sinsert (p, e) i (provider_era_info st)"
  "delegation_info (put_provider_era p e i st) = delegation_info st"
  "unbonding_info (put_provider_era p e i st) = unbonding_info st"
  "provider_era_or_default (put_provider_era p e i st) p' e' =
     (if p' = p \<and> e' = e then i else provider_era_or_default st p' e')"
  "delegation_of (put_provider_era p e i st) = delegation_of st"
  "unbonding_of (put_provider_era p e i st) = unbonding_of st"
  by (simp_all add: put_provider_era_def current_era_def provider_era_or_default_def
      delegation_of_def unbonding_of_def fun_eq_iff)

lemma era_staked_access [simp, staking_access]:
  "era (era_staked_add e v st) = era st" "era (era_staked_sub e v st) = era st"
  "current_era (era_staked_add e v st) = current_era st"
  "current_era (era_staked_sub e v st) = current_era st"
  "provider_info (era_staked_add e v st) = provider_info st"
  "provider_info (era_staked_sub e v st) = provider_info st"
  "provider_era_info (era_staked_add e v st) = provider_era_info st"
  "provider_era_info (era_staked_sub e v st) = provider_era_info st"
  "delegation_info (era_staked_add e v st) = delegation_info st"
  "delegation_info (era_staked_sub e v st) = delegation_info st"
  "provider_era_or_default (era_staked_add e v st) = provider_era_or_default st"
  "provider_era_or_default (era_staked_sub e v st) = provider_era_or_default st"
  "delegation_of (era_staked_add e v st) = delegation_of st"
  "delegation_of (era_staked_sub e v st) = delegation_of st"
  "unbonding_of (era_staked_add e v st) = unbonding_of st"
  "unbonding_of (era_staked_sub e v st) = unbonding_of st"
  by (simp_all add: era_staked_add_def era_staked_sub_def current_era_def
      provider_era_or_default_def delegation_of_def unbonding_of_def fun_eq_iff)

lemma update_delegation_access [simp, staking_access]:
  "era (update_delegation_info a p d st) = era st"
  "current_era (update_delegation_info a p d st) = current_era st"
  "era_state (update_delegation_info a p d st) = era_state st"
  "provider_info (update_delegation_info a p d st) = provider_info st"
  "provider_era_info (update_delegation_info a p d st) = provider_era_info st"
  "provider_era_or_default (update_delegation_info a p d st) = provider_era_or_default st"
  "delegation_of (update_delegation_info a p d st) a' p' =
     (if a' = a \<and> p' = p then d else delegation_of st a' p')"
  "unbonding_of (update_delegation_info a p d st) = unbonding_of st"
  by (auto simp: update_delegation_info_def current_era_def provider_era_or_default_def
      delegation_of_def unbonding_of_def fun_eq_iff dest: empty_delegation)

lemma update_delegation_keys:
  "skeys (delegation_info (update_delegation_info a p d st)) \<subseteq> insert (a, p) (skeys (delegation_info st))"
  by (auto simp: update_delegation_info_def)

lemma update_unbonding_access [simp, staking_access]:
  "era (update_unbonding_info a u st) = era st"
  "current_era (update_unbonding_info a u st) = current_era st"
  "era_state (update_unbonding_info a u st) = era_state st"
  "provider_info (update_unbonding_info a u st) = provider_info st"
  "provider_era_info (update_unbonding_info a u st) = provider_era_info st"
  "delegation_info (update_unbonding_info a u st) = delegation_info st"
  "provider_era_or_default (update_unbonding_info a u st) = provider_era_or_default st"
  "delegation_of (update_unbonding_info a u st) = delegation_of st"
  "unbonding_of (update_unbonding_info a u st) b = (if b = a then u else unbonding_of st b)"
  by (auto simp: update_unbonding_info_def current_era_def provider_era_or_default_def
      delegation_of_def unbonding_of_def fun_eq_iff dest: empty_unbonding)

section \<open>The invariant\<close>

definition staking_inv :: "('ac, 'pid) staking_state \<Rightarrow> bool" where
  "staking_inv st \<longleftrightarrow>
     swf (provider_info st) \<and>
     (\<forall>a p. delegation_inv (delegation_of st a p) \<and> upto_era (delegation_of st a p) (current_era st)) \<and>
     (\<forall>a p. (a, p) \<in> skeys (delegation_info st) \<longrightarrow> p \<in> skeys (provider_info st)) \<and>
     (\<forall>a. unbonding_inv (unbonding_of st a)) \<and>
     (\<forall>p info. sget (provider_info st) p = Some info \<longrightarrow> pm_status info = Active \<longrightarrow>
        (p, current_era st) \<in> skeys (provider_era_info st) \<and> \<not> pm_bond_withdrawn info)"

section \<open>What the pallet owes\<close>

text \<open>A provider's bond lives in the entry of the running era while it is active and in that of the
  era in which it was unregistered afterwards, until the owner has taken it back.\<close>

definition bond_era :: "('ac, 'pid) staking_state \<Rightarrow> 'ac provider_metadata \<Rightarrow> era_index" where
  "bond_era st info = (case pm_status info of Active \<Rightarrow> current_era st | Inactive e \<Rightarrow> e)"

definition bond_for :: "('ac, 'pid) staking_state \<Rightarrow> 'ac \<Rightarrow> 'pid \<Rightarrow> nat" where
  "bond_for st a p =
     (case sget (provider_info st) p of
        None \<Rightarrow> 0
      | Some info \<Rightarrow>
          if pm_owner info = a \<and> \<not> pm_bond_withdrawn info
          then unat (pe_bond (provider_era_or_default st p (bond_era st info))) else 0)"

definition stake_for :: "('ac, 'pid) staking_state \<Rightarrow> 'ac \<Rightarrow> 'pid \<Rightarrow> nat" where
  "stake_for st a p = unat (latest_staked_value (delegation_of st a p))"

definition owed :: "('ac, 'pid) staking_state \<Rightarrow> 'ac \<Rightarrow> nat" where
  "owed st a =
     (\<Sum>p \<in> skeys (provider_info st). bond_for st a p) +
     (\<Sum>p \<in> skeys (provider_info st). stake_for st a p) +
     chunk_total (unbonding_of st a)"

definition solvent ::
    "('ac, 'cs, 'o) frame \<Rightarrow> 'cs \<times> ('ac, 'pid) staking_state \<Rightarrow> bool" where
  "solvent F = (\<lambda>(cs, st). \<forall>a. owed st a \<le> unat (reserved_balance F cs a))"

text \<open>A step is balanced when every account's reserve changes by what is owed to it.\<close>

definition balanced_step ::
    "('ac, 'cs, 'o) frame \<Rightarrow> 'cs \<times> ('ac, 'pid) staking_state \<Rightarrow>
     'cs \<times> ('ac, 'pid) staking_state \<Rightarrow> bool" where
  "balanced_step F = (\<lambda>(cs, st) (cs', st'). \<forall>a.
     owed st' a + unat (reserved_balance F cs a) = owed st a + unat (reserved_balance F cs' a))"

lemma balanced_step_solvent:
  assumes "solvent F s" and "balanced_step F s s'"
  shows "solvent F s'"
proof -
  obtain cs st cs' st' where s: "s = (cs, st)" "s' = (cs', st')" by (cases s, cases s')
  have "owed st' a \<le> unat (reserved_balance F cs' a)" for a
  proof -
    have "owed st a \<le> unat (reserved_balance F cs a)"
        and "owed st' a + unat (reserved_balance F cs a) = owed st a + unat (reserved_balance F cs' a)"
      using assms s by (simp_all add: solvent_def balanced_step_def)
    then show ?thesis by linarith
  qed
  then show ?thesis using s by (simp add: solvent_def)
qed

lemma owed_ge_chunks: "chunk_total (unbonding_of st a) \<le> owed st a"
  by (simp add: owed_def)

lemma owed_ge_stake:
  assumes "p \<in> skeys (provider_info st)"
  shows "stake_for st a p + chunk_total (unbonding_of st a) \<le> owed st a"
  using sum_member_le [OF finite_skeys assms, of "stake_for st a"] by (simp add: owed_def)

lemma owed_ge_bond:
  assumes "p \<in> skeys (provider_info st)"
  shows "bond_for st a p + chunk_total (unbonding_of st a) \<le> owed st a"
  using sum_member_le [OF finite_skeys assms, of "bond_for st a"] by (simp add: owed_def)

lemma owed_unchanged:
  assumes "skeys (provider_info st') = skeys (provider_info st)"
    and "\<And>p. p \<in> skeys (provider_info st) \<Longrightarrow> bond_for st' a p = bond_for st a p"
    and "\<And>p. p \<in> skeys (provider_info st) \<Longrightarrow> stake_for st' a p = stake_for st a p"
    and "chunk_total (unbonding_of st' a) = chunk_total (unbonding_of st a)"
  shows "owed st' a = owed st a"
  using assms by (simp add: owed_def)

text \<open>What is owed to \<open>a\<close> when one provider's bond, one stake or the chunks change.\<close>

lemma owed_change:
  assumes "skeys (provider_info st') = skeys (provider_info st)" and "q \<in> skeys (provider_info st)"
    and "\<And>p. p \<in> skeys (provider_info st) \<Longrightarrow> p \<noteq> q \<Longrightarrow> bond_for st' a p = bond_for st a p"
    and "\<And>p. p \<in> skeys (provider_info st) \<Longrightarrow> p \<noteq> q \<Longrightarrow> stake_for st' a p = stake_for st a p"
  shows "owed st' a + bond_for st a q + stake_for st a q + chunk_total (unbonding_of st a) =
    owed st a + bond_for st' a q + stake_for st' a q + chunk_total (unbonding_of st' a)"
  using sum_change_one [of _ q "bond_for st' a" "bond_for st a", OF finite_skeys assms(2,3)]
    sum_change_one [of _ q "stake_for st' a" "stake_for st a", OF finite_skeys assms(2,4)]
  by (simp add: owed_def assms(1))

section \<open>What a successful call did\<close>

lemma provider_bond_more_elim:
  assumes "provider_bond_more F origin p amount (cs, st) = Inr (cs', st')"
  obtains who info bond tot where "ensure_signed F origin = Some who" and "amount \<noteq> 0"
    and "sget (provider_info st) p = Some info" and "pm_status info = Active" and "pm_owner info = who"
    and "checked_add (pe_bond (provider_era_or_default st p (current_era st))) amount = Some bond"
    and "checked_add (pe_total (provider_era_or_default st p (current_era st))) amount = Some tot"
    and "reserve F who amount cs = Inr cs'"
    and "st' = staking_deposit_event (ProviderBondedMore p amount)
      (put_provider_era p (current_era st)
        ((provider_era_or_default st p (current_era st))\<lparr>pe_bond := bond, pe_total := tot\<rparr>)
        (era_staked_add (current_era st) amount st))"
  using assms that
  by (auto simp: provider_bond_more_def Let_def word_gt_0 split: option.splits if_splits sum.splits)

lemma provider_bond_less_elim:
  assumes "provider_bond_less F cfg origin p amount (cs, st) = Inr (cs', st')"
  obtains who info pe u where "ensure_signed F origin = Some who" and "amount \<noteq> 0"
    and "sget (provider_info st) p = Some info" and "pm_status info = Active" and "pm_owner info = who"
    and "pe = provider_era_or_default st p (current_era st)"
    and "amount + MinProviderStake cfg \<le> pe_bond pe"
    and "u = unbonding_add (unbonding_of st who)
      \<lparr>uc_amount = amount, unlock_era = current_era st + UnbondingPeriod cfg\<rparr>"
    and "unbonding_len u \<le> MaxUnlockingChunks cfg"
    and "cs' = cs"
    and "st' = staking_deposit_event (ProviderBondedLess p amount)
      (put_provider_era p (current_era st)
        (pe\<lparr>pe_bond := saturating_sub (pe_bond pe) amount,
            pe_total := saturating_sub (pe_total pe) amount\<rparr>)
        (era_staked_sub (current_era st) amount (update_unbonding_info who u st)))"
  using assms that
  by (auto simp: provider_bond_less_def Let_def word_gt_0 split: option.splits if_splits)

lemma delegate_elim:
  assumes "delegate F cfg origin p amount (cs, st) = Inr (cs', st')"
  obtains who d d' pe pe1 tot where "ensure_signed F origin = Some who" and "amount \<noteq> 0"
    and "is_active_provider st p" and "d = delegation_of st who p"
    and "pe = provider_era_or_default st p (current_era st)"
    and "latest_staked_value d \<noteq> 0 \<or> pe_delegator_count pe \<le> MaxDelegatorsPerProvider cfg"
    and "pe1 = (if latest_staked_value d = 0
      then pe\<lparr>pe_delegator_count := saturating_add (pe_delegator_count pe) 1\<rparr> else pe)"
    and "stake d (current_era st) amount = Inr d'"
    and "delegation_len d' < MaxEraStakeValues cfg"
    and "MinDelegatorStake cfg \<le> latest_staked_value d'"
    and "checked_add (pe_total pe) amount = Some tot"
    and "reserve F who amount cs = Inr cs'"
    and "st' = staking_deposit_event (Delegated who p amount)
      (put_provider_era p (current_era st) (pe1\<lparr>pe_total := tot\<rparr>)
        (update_delegation_info who p d' (era_staked_add (current_era st) amount st)))"
proof -
  from assms obtain who d' tot where *: "ensure_signed F origin = Some who" "amount \<noteq> 0"
    "is_active_provider st p"
    "latest_staked_value (delegation_of st who p) \<noteq> 0 \<or>
      pe_delegator_count (provider_era_or_default st p (current_era st)) \<le> MaxDelegatorsPerProvider cfg"
    "stake (delegation_of st who p) (current_era st) amount = Inr d'"
    "delegation_len d' < MaxEraStakeValues cfg"
    "MinDelegatorStake cfg \<le> latest_staked_value d'"
    "checked_add (pe_total (provider_era_or_default st p (current_era st))) amount = Some tot"
    "reserve F who amount cs = Inr cs'"
    "st' = staking_deposit_event (Delegated who p amount)
      (put_provider_era p (current_era st)
        ((if latest_staked_value (delegation_of st who p) = 0
          then (provider_era_or_default st p (current_era st))\<lparr>pe_delegator_count := saturating_add
             (pe_delegator_count (provider_era_or_default st p (current_era st))) 1\<rparr>
          else provider_era_or_default st p (current_era st))\<lparr>pe_total := tot\<rparr>)
        (update_delegation_info who p d' (era_staked_add (current_era st) amount st)))"
    by (auto simp: delegate_def Let_def word_gt_0 not_less not_le
        split: option.splits if_splits sum.splits)
  show ?thesis by (rule that [OF *(1-3) refl refl *(4) refl *(5-10)])
qed

lemma withdraw_unbonded_elim:
  assumes "withdraw_unbonded F origin (cs, st) = Inr (cs', st')"
  obtains who valid future rest where "ensure_signed F origin = Some who"
    and "unbonding_partition (unbonding_of st who) (current_era st) = (valid, future)"
    and "unbonding_sum valid \<noteq> 0"
    and "unreserve F who (unbonding_sum valid) cs = (rest, cs')"
    and "st' = staking_deposit_event (Withdrawn who (unbonding_sum valid))
      (update_unbonding_info who future st)"
  using assms that
  by (auto simp: withdraw_unbonded_def Let_def split: option.splits if_splits prod.splits)

lemma delegator_unstake_elim:
  assumes "delegator_unstake F cfg origin p amount (cs, st) = Inr (cs', st')"
  obtains who d d' pe staked v full u where "ensure_signed F origin = Some who" and "amount \<noteq> 0"
    and "is_active_provider st p" and "d = delegation_of st who p"
    and "staked = latest_staked_value d" and "staked \<noteq> 0"
    and "pe = provider_era_or_default st p (current_era st)"
    and "full = (saturating_sub staked amount < MinDelegatorStake cfg)"
    and "v = (if full then staked else amount)" and "v \<noteq> 0"
    and "unstake d (current_era st) v = Inr d'"
    and "delegation_len d' < MaxEraStakeValues cfg"
    and "u = unbonding_add (unbonding_of st who)
      \<lparr>uc_amount = v, unlock_era = current_era st + UnbondingPeriod cfg\<rparr>"
    and "unbonding_len u \<le> MaxUnlockingChunks cfg"
    and "cs' = cs"
    and "st' = staking_deposit_event (DelegatorUnstaked who p v)
      (put_provider_era p (current_era st)
        (pe\<lparr>pe_delegator_count := (if full then saturating_sub (pe_delegator_count pe) 1
              else pe_delegator_count pe),
            pe_total := saturating_sub (pe_total pe) v\<rparr>)
        (update_delegation_info who p d' (era_staked_sub (current_era st) v
          (update_unbonding_info who u st))))"
proof -
  from assms obtain who where who: "ensure_signed F origin = Some who" "amount \<noteq> 0"
    "is_active_provider st p" "latest_staked_value (delegation_of st who p) \<noteq> 0"
    by (auto simp: delegator_unstake_def Let_def word_gt_0 split: option.splits if_splits)
  define d where "d = delegation_of st who p"
  define full where "full = (saturating_sub (latest_staked_value d) amount < MinDelegatorStake cfg)"
  define v where "v = (if full then latest_staked_value d else amount)"
  define pe where "pe = provider_era_or_default st p (current_era st)"
  have pe': "pe\<lparr>pe_total := x\<rparr> =
      pe\<lparr>pe_delegator_count := pe_delegator_count pe, pe_total := x\<rparr>" for x by simp
  have "v \<noteq> 0" using who d_def by (simp add: v_def)
  with assms who obtain d' where d': "unstake d (current_era st) v = Inr d'"
    "delegation_len d' < MaxEraStakeValues cfg"
    "unbonding_len (unbonding_add (unbonding_of st who)
      \<lparr>uc_amount = v, unlock_era = current_era st + UnbondingPeriod cfg\<rparr>) \<le> MaxUnlockingChunks cfg"
    "cs' = cs"
    "st' = staking_deposit_event (DelegatorUnstaked who p v)
      (put_provider_era p (current_era st)
        (pe\<lparr>pe_delegator_count := (if full then saturating_sub (pe_delegator_count pe) 1
              else pe_delegator_count pe),
            pe_total := saturating_sub (pe_total pe) v\<rparr>)
        (update_delegation_info who p d' (era_staked_sub (current_era st) v
          (update_unbonding_info who (unbonding_add (unbonding_of st who)
            \<lparr>uc_amount = v, unlock_era = current_era st + UnbondingPeriod cfg\<rparr>) st))))"
    unfolding delegator_unstake_def
    by (cases full) (auto simp: Let_def word_gt_0 d_def [symmetric] pe_def [symmetric] full_def
        v_def split: if_splits sum.splits)
  from who \<open>v \<noteq> 0\<close> d' show ?thesis
    by (intro that [of who d "latest_staked_value d" pe full v d'
          "unbonding_add (unbonding_of st who)
            \<lparr>uc_amount = v, unlock_era = current_era st + UnbondingPeriod cfg\<rparr>"])
      (simp_all add: d_def pe_def full_def v_def)
qed

text \<open>The test of the two claims on an unregistered provider.\<close>

definition claimable_status :: "provider_status \<Rightarrow> era_index \<Rightarrow> bool" where
  "claimable_status status e = (case status of Active \<Rightarrow> True | Inactive u \<Rightarrow> e < u)"

lemma claim_provider_elim:
  assumes "claim_provider F cfg origin p e (cs, st) = Inr (cs', st')"
  obtains info em reward i cs1 where "ensure_signed F origin \<noteq> None"
    and "sget (provider_info st) p = Some info" and "claimable_status (pm_status info) e"
    and "e < current_era st" and "\<not> pe_reward_claimed (provider_era_or_default st p e)"
    and "pe_total (provider_era_or_default st p e) \<noteq> 0"
    and "sget (era_state st) e = Some em"
    and "reward = fst (split_provider_delegators_rewards F cfg (provider_era_or_default st p e) em)"
    and "withdraw F (staking_account_id cfg) reward AllowDeath cs = Inr (i, cs1)"
    and "cs' = resolve_creating F (pm_owner info) i cs1"
    and "st' = staking_deposit_event (Payout (pm_owner info) p e reward)
      (put_provider_era p e ((provider_era_or_default st p e)\<lparr>pe_reward_claimed := True\<rparr>) st)"
  using assms that
  by (auto simp: claim_provider_def Let_def word_gt_0 claimable_status_def
      split: option.splits if_splits sum.splits prod.splits provider_status.splits)

lemma claim_delegator_elim:
  assumes "claim_delegator F cfg origin p (cs, st) = Inr (cs', st')"
  obtains who e staked d' info em reward i cs1 where "ensure_signed F origin = Some who"
    and "claim (delegation_of st who p) = ((e, staked), d')" and "staked \<noteq> 0"
    and "sget (provider_info st) p = Some info" and "claimable_status (pm_status info) e"
    and "e < current_era st"
    and "sget (era_state st) e = Some em"
    and "reward = perbill_mul F (perbill_from_rational F staked
        (saturating_sub (pe_total (provider_era_or_default st p e))
          (pe_bond (provider_era_or_default st p e))))
      (snd (split_provider_delegators_rewards F cfg (provider_era_or_default st p e) em))"
    and "withdraw F (staking_account_id cfg) reward AllowDeath cs = Inr (i, cs1)"
    and "cs' = resolve_creating F who i cs1"
    and "st' = staking_deposit_event (Payout who p e reward) (update_delegation_info who p d' st)"
  using assms that
  by (auto simp: claim_delegator_def Let_def word_gt_0 claimable_status_def
      split: option.splits if_splits sum.splits prod.splits provider_status.splits)

lemma provider_withdraw_unregistered_elim:
  assumes "provider_withdraw_unregistered F cfg origin p (cs, st) = Inr (cs', st')"
  obtains info u rest where "ensure_signed F origin \<noteq> None"
    and "sget (provider_info st) p = Some info" and "\<not> pm_bond_withdrawn info"
    and "pm_status info = Inactive u" and "u + UnbondingPeriod cfg \<le> current_era st"
    and "unreserve F (pm_owner info) (pe_bond (provider_era_or_default st p u)) cs = (rest, cs')"
    and "st' = staking_deposit_event
      (Withdrawn (pm_owner info) (pe_bond (provider_era_or_default st p u)))
      (st\<lparr>provider_info := sinsert p (info\<lparr>pm_bond_withdrawn := True\<rparr>) (provider_info st)\<rparr>)"
  using assms that
  by (auto simp: provider_withdraw_unregistered_def Let_def
      split: option.splits if_splits prod.splits provider_status.splits)

lemma delegator_withdraw_unregistered_elim:
  assumes "delegator_withdraw_unregistered F cfg origin p (cs, st) = Inr (cs', st')"
  obtains who info u rest where "ensure_signed F origin = Some who"
    and "sget (provider_info st) p = Some info"
    and "pm_status info = Inactive u" and "u + UnbondingPeriod cfg \<le> current_era st"
    and "latest_staked_value (delegation_of st who p) \<noteq> 0"
    and "u \<le> fst (fst (claim (delegation_of st who p))) \<or>
      fst (fst (claim (delegation_of st who p))) = 0"
    and "unreserve F who (latest_staked_value (delegation_of st who p)) cs = (rest, cs')"
    and "st' = staking_deposit_event (Withdrawn who (latest_staked_value (delegation_of st who p)))
      (update_delegation_info who p Delegation_default st)"
  using assms that
  by (auto simp: delegator_withdraw_unregistered_def Let_def word_gt_0
      split: option.splits if_splits prod.splits provider_status.splits)

lemma register_provider_elim:
  assumes "register_provider F cfg a p bond (cs, st) = Inr (cs', st')"
  obtains em where "sget (provider_info st) p = None" and "MinProviderStake cfg \<le> bond"
    and "reserve F a bond cs = Inr cs'"
    and "em = get_or EraMetadata_default (era_state st) (current_era st)"
    and "st' = st\<lparr>
      provider_info := sinsert p (ProviderMetadata_new a) (provider_info st),
      provider_era_info := sinsert (p, current_era st)
        \<lparr>pe_bond = bond, pe_total = bond, pe_delegator_count = 0, pe_reward_claimed = False\<rparr>
        (provider_era_info st),
      era_state := sinsert (current_era st)
        (em\<lparr>em_staked := saturating_add (em_staked em) bond\<rparr>) (era_state st)\<rparr>"
  using assms that
  by (auto simp: register_provider_def Let_def put_provider_era_def current_era_def
      split: if_splits sum.splits)

lemma unregister_provider_elim:
  assumes "unregister_provider p (cs, st) = Inr (cs', st')"
  obtains info where "sget (provider_info st) p = Some info" and "pm_status info = Active"
    and "cs' = cs"
    and "st' = era_staked_sub (current_era st)
      (pe_total (provider_era_or_default st p (current_era st)))
      (st\<lparr>provider_info := sinsert p (info\<lparr>pm_status := Inactive (current_era st)\<rparr>) (provider_info st)\<rparr>)"
  using assms that
  by (auto simp: unregister_provider_def Let_def provider_era_or_default_def
      split: option.splits if_splits)

lemma set_blocks_per_era_elim:
  assumes "set_blocks_per_era F origin new (cs, st) = Inr (cs', st')"
  obtains "ensure_root F origin" and "era_length (era st) \<noteq> new" and "cs' = cs"
    and "st' = staking_deposit_event
      (BlocksPerEraSet (current (era st)) (first_block (era st)) (era_length (era st)) new)
      (st\<lparr>era := (era st)\<lparr>era_length := new\<rparr>\<rparr>)"
  using assms that by (auto simp: set_blocks_per_era_def Let_def split: if_splits)

section \<open>The block hook\<close>

text \<open>The loop copies the running era's entry of every active provider to the next era and leaves
  everything else alone.\<close>

lemma rotate_loop_access:
  assumes "distinct (map fst ps)"
  shows "sget (snd (rotate_loop F e ps w m)) (p, x) =
    (if x = e + 1 \<and> map_option pm_status (map_of ps p) = Some Active \<and> sget m (p, e) \<noteq> None
     then map_option (\<lambda>info. info\<lparr>pe_reward_claimed := False\<rparr>) (sget m (p, e))
     else sget m (p, x))"
  using assms
proof (induction ps arbitrary: w m)
  case Nil
  then show ?case by simp
next
  case (Cons q ps)
  obtain k info where q: "q = (k, info)" by (cases q)
  with Cons.prems have k: "k \<notin> fst ` set ps" and dist: "distinct (map fst ps)" by auto
  from k have none: "map_of ps k = None" by (simp add: map_of_eq_None_iff)
  show ?case
  proof (cases "pm_status info")
    case (Inactive u)
    with q Cons.IH [OF dist] none show ?thesis by auto
  next
    case Active
    show ?thesis
    proof (cases "sget m (k, e)")
      case None
      with q Active Cons.IH [OF dist] none show ?thesis by auto
    next
      case (Some i)
      with q Active Cons.IH [OF dist] none show ?thesis by auto
    qed
  qed
qed

lemma on_initialize_idle:
  "\<not> should_update (era st) n \<Longrightarrow> snd (staking_on_initialize F cfg n st) = st"
  by (simp add: staking_on_initialize_def)

lemma on_initialize_access:
  assumes "should_update (era st) n" and "swf (provider_info st)"
    and step: "snd (staking_on_initialize F cfg n st) = st'"
  shows "current_era st' = saturating_add (current_era st) 1"
    and "first_block (era st') = n"
    and "provider_info st' = provider_info st"
    and "delegation_info st' = delegation_info st"
    and "unbonding_info st' = unbonding_info st"
    and "delegation_of st' = delegation_of st"
    and "unbonding_of st' = unbonding_of st"
    and "reward_accumulator st' = 0"
    and "sget (provider_era_info st') (p, x) =
      (if x = current_era st + 1 \<and> is_active_provider st p \<and>
          sget (provider_era_info st) (p, current_era st) \<noteq> None
       then map_option (\<lambda>info. info\<lparr>pe_reward_claimed := False\<rparr>)
         (sget (provider_era_info st) (p, current_era st))
       else sget (provider_era_info st) (p, x))"
    and "sget (era_state st') x =
      (if x = current_era st
       then Some ((get_or EraMetadata_default (era_state st) x)\<lparr>em_rewards := reward_accumulator st\<rparr>)
       else if x = current_era st + 1
       then Some \<lparr>em_rewards = 0,
         em_staked = em_staked (get_or EraMetadata_default (era_state st) (current_era st))\<rparr>
       else sget (era_state st) x)"
proof -
  have active: "map_option pm_status (map_of (provider_info st) p) = Some Active \<longleftrightarrow>
      is_active_provider st p"
    by (auto simp: is_active_provider_def sget_def split: option.splits)
  have rotated: "provider_era_info st' =
      snd (rotate_loop F (current_era st) (provider_info st) 0 (provider_era_info st))"
    using assms(1) by (simp add: step [symmetric] staking_on_initialize_def Let_def
        rotate_provider_era_info_def snapshot_era_rewards_def current_era_def case_prod_beta)
  show "sget (provider_era_info st') (p, x) =
      (if x = current_era st + 1 \<and> is_active_provider st p \<and>
          sget (provider_era_info st) (p, current_era st) \<noteq> None
       then map_option (\<lambda>info. info\<lparr>pe_reward_claimed := False\<rparr>)
         (sget (provider_era_info st) (p, current_era st))
       else sget (provider_era_info st) (p, x))"
    using rotate_loop_access [OF assms(2) [unfolded swf_def], of F "current_era st" 0
        "provider_era_info st" p x] active rotated by simp
qed (use assms(1) in \<open>auto simp: step [symmetric] staking_on_initialize_def Let_def
      rotate_provider_era_info_def snapshot_era_rewards_def current_era_def delegation_of_def
      unbonding_of_def fun_eq_iff staking_deposit_event_def split: prod.splits\<close>)

section \<open>The invariant is kept\<close>

lemma staking_invI:
  assumes "swf (provider_info st)"
    and "\<And>a p. delegation_inv (delegation_of st a p)"
    and "\<And>a p. upto_era (delegation_of st a p) (current_era st)"
    and "\<And>a p. (a, p) \<in> skeys (delegation_info st) \<Longrightarrow> p \<in> skeys (provider_info st)"
    and "\<And>a. unbonding_inv (unbonding_of st a)"
    and "\<And>p info. sget (provider_info st) p = Some info \<Longrightarrow> pm_status info = Active \<Longrightarrow>
        (p, current_era st) \<in> skeys (provider_era_info st) \<and> \<not> pm_bond_withdrawn info"
  shows "staking_inv st"
  using assms by (simp add: staking_inv_def)

lemma staking_invD:
  assumes "staking_inv st"
  shows "swf (provider_info st)"
    and "delegation_inv (delegation_of st a p)"
    and "upto_era (delegation_of st a p) (current_era st)"
    and "(a, p) \<in> skeys (delegation_info st) \<Longrightarrow> p \<in> skeys (provider_info st)"
    and "unbonding_inv (unbonding_of st a)"
    and "sget (provider_info st) p = Some info \<Longrightarrow> pm_status info = Active \<Longrightarrow>
        (p, current_era st) \<in> skeys (provider_era_info st)"
    and "sget (provider_info st) p = Some info \<Longrightarrow> pm_status info = Active \<Longrightarrow>
        \<not> pm_bond_withdrawn info"
  using assms unfolding staking_inv_def by blast+

lemma staking_inv_genesis: "staking_inv staking_genesis"
  by (rule staking_invI)
    (simp_all add: staking_genesis_def delegation_of_def unbonding_of_def get_or_def)

lemma is_active_providerD:
  assumes "is_active_provider st p"
  obtains info where "sget (provider_info st) p = Some info" and "pm_status info = Active"
  using assms by (auto simp: is_active_provider_def split: option.splits)

lemma active_key: "is_active_provider st p \<Longrightarrow> p \<in> skeys (provider_info st)"
  by (auto elim!: is_active_providerD simp: skeys_iff)

text \<open>The invariant depends on few parts of the storage; a change that leaves them alone keeps it.\<close>

lemma staking_inv_same:
  assumes "staking_inv st" and "provider_info st' = provider_info st"
    and "current_era st' = current_era st"
    and "skeys (provider_era_info st) \<subseteq> skeys (provider_era_info st')"
    and "\<And>a p. delegation_inv (delegation_of st' a p) \<and> upto_era (delegation_of st' a p) (current_era st)"
    and "\<And>a p. (a, p) \<in> skeys (delegation_info st') \<Longrightarrow> p \<in> skeys (provider_info st)"
    and "\<And>a. unbonding_inv (unbonding_of st' a)"
  shows "staking_inv st'"
  using assms(2-7) staking_invD(1,6,7) [OF assms(1)]
  by (intro staking_invI) auto

lemma provider_bond_more_inv:
  assumes "staking_inv st" and "provider_bond_more F origin p amount (cs, st) = Inr (cs', st')"
  shows "staking_inv st'"
  using assms(2)
  by (elim provider_bond_more_elim)
    (rule staking_inv_same [OF assms(1)]; auto intro: staking_invD [OF assms(1)])

lemma provider_bond_less_inv:
  assumes "staking_inv st" and "provider_bond_less F cfg origin p amount (cs, st) = Inr (cs', st')"
  shows "staking_inv st'"
  using assms(2)
  by (elim provider_bond_less_elim)
    (rule staking_inv_same [OF assms(1)];
     auto intro: staking_invD [OF assms(1)] unbonding_add_inv)

lemma delegate_inv:
  assumes "staking_inv st" and "delegate F cfg origin p amount (cs, st) = Inr (cs', st')"
  shows "staking_inv st'"
  using assms(2)
proof (cases rule: delegate_elim)
  case (1 who d d' pe pe1 tot)
  have d': "delegation_inv d'" "upto_era d' (current_era st)"
    using dh.stake_law [OF staking_invD(2,3) [OF assms(1)], of who p amount] 1 by auto
  show ?thesis
  proof (rule staking_inv_same [OF assms(1)])
    show "q \<in> skeys (provider_info st)" if "(a, q) \<in> skeys (delegation_info st')" for a q
      using that update_delegation_keys [of who p d' "era_staked_add (current_era st) amount st"]
        1 active_key [of st p] staking_invD(4) [OF assms(1)] by auto
  qed (use 1 d' in \<open>auto intro: staking_invD [OF assms(1)]\<close>)
qed

lemma delegator_unstake_inv:
  assumes "staking_inv st" and "delegator_unstake F cfg origin p amount (cs, st) = Inr (cs', st')"
  shows "staking_inv st'"
  using assms(2)
proof (cases rule: delegator_unstake_elim)
  case (1 who d d' pe staked v full u)
  have d': "delegation_inv d'" "upto_era d' (current_era st)"
    using dh.unstake_law [OF staking_invD(2,3) [OF assms(1)], of who p v] 1 by auto
  show ?thesis
  proof (rule staking_inv_same [OF assms(1)])
    show "q \<in> skeys (provider_info st)" if "(a, q) \<in> skeys (delegation_info st')" for a q
      using that update_delegation_keys [of who p d' "era_staked_sub (current_era st) v
          (update_unbonding_info who u st)"]
        1 active_key [of st p] staking_invD(4) [OF assms(1)] by auto
  qed (use 1 d' in \<open>auto intro: staking_invD [OF assms(1)] unbonding_add_inv\<close>)
qed

lemma withdraw_unbonded_inv:
  assumes "staking_inv st" and "withdraw_unbonded F origin (cs, st) = Inr (cs', st')"
  shows "staking_inv st'"
  using assms(2)
  by (elim withdraw_unbonded_elim)
    (rule staking_inv_same [OF assms(1)];
     auto intro: staking_invD [OF assms(1)] unbonding_partition_inv)

lemma claim_provider_inv:
  assumes "staking_inv st" and "claim_provider F cfg origin p e (cs, st) = Inr (cs', st')"
  shows "staking_inv st'"
  using assms(2)
  by (elim claim_provider_elim)
    (rule staking_inv_same [OF assms(1)]; auto intro: staking_invD [OF assms(1)])

text \<open>The claimed era lies before the running one, so it is not the last era there is.\<close>

lemma less_not_max: "(h :: 'a::len word) < e \<Longrightarrow> h \<noteq> - 1"
  by (metis linorder_not_less word_order.extremum)

lemma claim_delegator_claim:
  assumes "staking_inv st" and "claim (delegation_of st a p) = ((e, staked), d')" and "staked \<noteq> 0"
    and "e < current_era st"
  shows "delegation_inv d'" and "upto_era d' (current_era st)"
    and "latest_staked_value d' = latest_staked_value (delegation_of st a p)"
    and "staked = staked_at (delegation_of st a p) e"
    and "staked_at d' x = (if x \<le> e then 0 else staked_at (delegation_of st a p) x)"
  using dh.claim_law [OF staking_invD(2) [OF assms(1)] assms(2,3) less_not_max [OF assms(4)]]
    staking_invD(3) [OF assms(1)] assms(4) by auto

lemma claim_delegator_inv:
  assumes "staking_inv st" and "claim_delegator F cfg origin p (cs, st) = Inr (cs', st')"
  shows "staking_inv st'"
  using assms(2)
proof (cases rule: claim_delegator_elim)
  case (1 who e staked d' info em reward i cs1)
  note d' = claim_delegator_claim(1,2) [OF assms(1) 1(2,3,6)]
  show ?thesis
  proof (rule staking_inv_same [OF assms(1)])
    show "q \<in> skeys (provider_info st)" if "(a, q) \<in> skeys (delegation_info st')" for a q
      using that update_delegation_keys [of who p d' st] 1(4,11) staking_invD(4) [OF assms(1)]
      by (auto simp: skeys_iff [of p])
  qed (use 1 d' in \<open>auto intro: staking_invD [OF assms(1)]\<close>)
qed

lemma delegator_withdraw_unregistered_inv:
  assumes "staking_inv st" and "delegator_withdraw_unregistered F cfg origin p (cs, st) = Inr (cs', st')"
  shows "staking_inv st'"
  using assms(2)
proof (cases rule: delegator_withdraw_unregistered_elim)
  case (1 who info u rest)
  show ?thesis
  proof (rule staking_inv_same [OF assms(1)])
    show "q \<in> skeys (provider_info st)" if "(a, q) \<in> skeys (delegation_info st')" for a q
      using that update_delegation_keys [of who p Delegation_default st] 1(2,8)
        staking_invD(4) [OF assms(1)] by (auto simp: skeys_iff [of p])
  qed (use 1 in \<open>auto intro: staking_invD [OF assms(1)]\<close>)
qed

lemma provider_withdraw_unregistered_inv:
  assumes "staking_inv st" and "provider_withdraw_unregistered F cfg origin p (cs, st) = Inr (cs', st')"
  shows "staking_inv st'"
  using assms(2)
proof (cases rule: provider_withdraw_unregistered_elim)
  case (1 info u rest)
  have "p \<in> skeys (provider_info st)" using 1(2) by (simp add: skeys_iff)
  with 1 staking_invD [OF assms(1)] show ?thesis
    by (intro staking_invI) (auto simp: delegation_of_def unbonding_of_def current_era_def split: if_splits)
qed

lemma unregister_provider_inv:
  assumes "staking_inv st" and "unregister_provider p (cs, st) = Inr (cs', st')"
  shows "staking_inv st'"
  using assms(2)
proof (cases rule: unregister_provider_elim)
  case (1 info)
  have "p \<in> skeys (provider_info st)" using 1(1) by (simp add: skeys_iff)
  with 1 staking_invD [OF assms(1)] show ?thesis
    by (intro staking_invI) (auto simp: delegation_of_def unbonding_of_def current_era_def split: if_splits)
qed

lemma register_provider_inv:
  assumes "staking_inv st" and "register_provider F cfg a p bond (cs, st) = Inr (cs', st')"
  shows "staking_inv st'"
  using assms(2)
proof (cases rule: register_provider_elim)
  case (1 em)
  with staking_invD [OF assms(1)] show ?thesis
    by (intro staking_invI) (auto simp: delegation_of_def unbonding_of_def current_era_def
        ProviderMetadata_new_def split: if_splits)
qed

lemma set_blocks_per_era_inv:
  assumes "staking_inv st" and "set_blocks_per_era F origin new (cs, st) = Inr (cs', st')"
  shows "staking_inv st'"
  using assms(2)
proof (cases rule: set_blocks_per_era_elim)
  case 1
  with staking_invD [OF assms(1)] show ?thesis
    by (intro staking_invI) (auto simp: delegation_of_def unbonding_of_def current_era_def)
qed

lemma handle_imbalance_inv:
  assumes "staking_inv st"
  shows "staking_inv (snd (handle_imbalance F cfg i (cs, st)))"
  using staking_invD [OF assms]
  by (intro staking_invI) (auto simp: handle_imbalance_def delegation_of_def unbonding_of_def current_era_def)

lemma on_initialize_inv:
  assumes "staking_inv st"
  shows "staking_inv (snd (staking_on_initialize F cfg n st))"
proof (cases "should_update (era st) n")
  case False
  with assms show ?thesis by (simp add: on_initialize_idle)
next
  case True
  define st' where "st' = snd (staking_on_initialize F cfg n st)"
  note acc = on_initialize_access [OF True staking_invD(1) [OF assms] st'_def [symmetric]]
  have "(p, current_era st') \<in> skeys (provider_era_info st')"
    if "sget (provider_info st) p = Some info" and "pm_status info = Active" for p info
  proof -
    have key: "sget (provider_era_info st) (p, current_era st) \<noteq> None"
      using staking_invD(6) [OF assms that] by (auto simp: skeys_iff)
    moreover have "is_active_provider st p" using that by (simp add: is_active_provider_def)
    ultimately show ?thesis
      by (cases "current_era st = - 1")
        (auto simp: skeys_iff acc(1,9) saturating_Suc)
  qed
  moreover have "upto_era (delegation_of st a p) (current_era st')" for a p
    by (rule upto_era_mono [OF staking_invD(3) [OF assms]]) (simp add: acc(1) saturating_Suc_ge)
  ultimately have "staking_inv st'"
    using staking_invD [OF assms]
    by (intro staking_invI) (auto simp: acc(3,4,6,7))
  then show ?thesis by (simp add: st'_def)
qed

section \<open>Collections\<close>

lemmas staking_elims = set_blocks_per_era_elim provider_bond_more_elim provider_bond_less_elim
  delegate_elim delegator_unstake_elim withdraw_unbonded_elim claim_provider_elim claim_delegator_elim
  provider_withdraw_unregistered_elim delegator_withdraw_unregistered_elim register_provider_elim
  unregister_provider_elim

end
