(* ===== verification/Staking_Balance.thy ===== *)
theory Staking_Balance
  imports Staking_Inv
begin

text \<open>
  Every successful step of the staking pallet changes what the pallet owes an account by exactly as
  much as it changes the account's reserved balance, so the reserve always covers the debt.
\<close>

section \<open>Every step is balanced\<close>

text \<open>A bond, a stake or a chunk read after a step that did not write it.\<close>

lemma bond_for_active:
  assumes "staking_inv st" and "sget (provider_info st) p = Some info" and "pm_status info = Active"
  shows "bond_for st a p = (if a = pm_owner info
    then unat (pe_bond (provider_era_or_default st p (current_era st))) else 0)"
  using assms staking_invD(7) [OF assms] by (auto simp: bond_for_def bond_era_def)

lemma bond_for_cong:
  assumes "sget (provider_info st') p = sget (provider_info st) p"
    and "current_era st' = current_era st"
    and "\<And>e. pe_bond (provider_era_or_default st' p e) = pe_bond (provider_era_or_default st p e)"
  shows "bond_for st' a p = bond_for st a p"
proof -
  have "bond_era st' = bond_era st"
    by (rule ext) (simp only: bond_era_def assms(2))
  with assms show ?thesis by (simp add: bond_for_def split: option.splits)
qed

lemma stake_for_cong:
  "delegation_of st' a p = delegation_of st a p \<Longrightarrow> stake_for st' a p = stake_for st a p"
  by (simp add: stake_for_def)

lemma provider_bond_more_balanced:
  assumes cur: "currency_ok F" and inv: "staking_inv st"
    and call: "provider_bond_more F origin p amount (cs, st) = Inr (cs', st')"
  shows "balanced_step F (cs, st) (cs', st')"
  using call
proof (cases rule: provider_bond_more_elim)
  case (1 who info bond tot)
  have key: "p \<in> skeys (provider_info st)" using 1(3) by (simp add: skeys_iff)
  have inv': "staking_inv st'" by (rule provider_bond_more_inv [OF inv call])
  have "owed st' a + unat (reserved_balance F cs a) = owed st a + unat (reserved_balance F cs' a)" for a
  proof -
    have "owed st' a + bond_for st a p + stake_for st a p + chunk_total (unbonding_of st a) =
        owed st a + bond_for st' a p + stake_for st' a p + chunk_total (unbonding_of st' a)"
      by (rule owed_change) (auto simp: 1(9) key intro!: bond_for_cong stake_for_cong)
    moreover have "bond_for st' a p = (if a = who then unat bond else 0)"
      using bond_for_active [OF inv', of p info a] 1 by simp
    moreover have "bond_for st a p =
        (if a = who then unat (pe_bond (provider_era_or_default st p (current_era st))) else 0)"
      using bond_for_active [OF inv 1(3,4), of a] 1(5) by simp
    moreover note checked_add_Some(1) [OF 1(6)] reserveD(1) [OF cur 1(8), of a]
    ultimately show ?thesis by (auto simp: 1(9) stake_for_def split: if_splits)
  qed
  then show ?thesis by (simp add: balanced_step_def)
qed

text \<open>What is unbonded or unstaked fits into the queue of chunks, since the reserve covers all of it.\<close>

lemma bond_less_fits:
  assumes inv: "staking_inv st" and solv: "solvent F (cs, st)"
    and "sget (provider_info st) p = Some info" "pm_status info = Active" "pm_owner info = who"
    and "amount + MinProviderStake cfg \<le> pe_bond (provider_era_or_default st p (current_era st))"
    and "unat amount + unat (MinProviderStake cfg) < 2 ^ 128"
  shows "chunk_total (unbonding_of st who) + unat amount < 2 ^ 128"
proof -
  let ?bond = "pe_bond (provider_era_or_default st p (current_era st))"
  have key: "p \<in> skeys (provider_info st)" using assms(3) by (simp add: skeys_iff)
  have "unat (amount + MinProviderStake cfg) = unat amount + unat (MinProviderStake cfg)"
    using assms(7) by (simp add: unat_plus_fits)
  then have "unat amount \<le> unat ?bond" using assms(6) by (simp add: word_le_nat_alt)
  moreover have "unat ?bond + chunk_total (unbonding_of st who) \<le> unat (reserved_balance F cs who)"
    using owed_ge_bond [OF key, of who] solv bond_for_active [OF inv assms(3,4), of who] assms(5)
    by (auto simp: solvent_def intro: order_trans)
  ultimately show ?thesis using unat_less_u128 [of "reserved_balance F cs who"] by linarith
qed

lemma unstake_fits:
  assumes solv: "solvent F (cs, st)" and "is_active_provider st p"
    and "unat v \<le> unat (latest_staked_value (delegation_of st who p))"
  shows "chunk_total (unbonding_of st who) + unat v < 2 ^ 128"
  using owed_ge_stake [OF active_key [OF assms(2)], of who] solv assms(3)
    unat_less_u128 [of "reserved_balance F cs who"]
  by (fastforce simp: solvent_def stake_for_def dest: spec [of _ who])

text \<open>The check \<^verbatim>\<open>bond >= amount + MinProviderStake\<close> only means what it says when the sum does
  not wrap around.\<close>

lemma provider_bond_less_balanced:
  assumes inv: "staking_inv st" and solv: "solvent F (cs, st)"
    and call: "provider_bond_less F cfg origin p amount (cs, st) = Inr (cs', st')"
    and no_wrap: "unat amount + unat (MinProviderStake cfg) < 2 ^ 128"
  shows "balanced_step F (cs, st) (cs', st')"
  using call
proof (cases rule: provider_bond_less_elim)
  case (1 who info pe u)
  have key: "p \<in> skeys (provider_info st)" using 1(3) by (simp add: skeys_iff)
  have inv': "staking_inv st'" by (rule provider_bond_less_inv [OF inv call])
  have bond: "bond_for st a p = (if a = who then unat (pe_bond pe) else 0)" for a
    using bond_for_active [OF inv 1(3,4), of a] 1(5,6) by simp
  have "unat (amount + MinProviderStake cfg) = unat amount + unat (MinProviderStake cfg)"
    using no_wrap by (simp add: unat_plus_fits)
  with 1(7) have le: "unat amount \<le> unat (pe_bond pe)" by (simp add: word_le_nat_alt)
  have chunks: "chunk_total u = chunk_total (unbonding_of st who) + unat amount"
    using unbonding_add_total [OF staking_invD(5) [OF inv],
        of who "\<lparr>uc_amount = amount, unlock_era = current_era st + UnbondingPeriod cfg\<rparr>"] 1(8)
      bond_less_fits [OF inv solv 1(3-5) 1(7) [unfolded 1(6)] no_wrap] by simp
  have "owed st' a = owed st a" for a
  proof -
    have "owed st' a + bond_for st a p + stake_for st a p + chunk_total (unbonding_of st a) =
        owed st a + bond_for st' a p + stake_for st' a p + chunk_total (unbonding_of st' a)"
      by (rule owed_change) (auto simp: 1(11) key intro!: bond_for_cong stake_for_cong)
    moreover have "bond_for st' a p = (if a = who then unat (pe_bond pe) - unat amount else 0)"
      using bond_for_active [OF inv', of p info a] 1 by (simp add: unat_saturating_sub)
    ultimately show ?thesis
      using bond [of a] chunks le by (auto simp: 1(11) stake_for_def split: if_splits)
  qed
  with 1(10) show ?thesis by (simp add: balanced_step_def)
qed

lemma delegate_balanced:
  assumes cur: "currency_ok F" and inv: "staking_inv st" and solv: "solvent F (cs, st)"
    and call: "delegate F cfg origin p amount (cs, st) = Inr (cs', st')"
  shows "balanced_step F (cs, st) (cs', st')"
  using call
proof (cases rule: delegate_elim)
  case (1 who d d' pe pe1 tot)
  have key: "p \<in> skeys (provider_info st)" by (rule active_key [OF 1(3)])
  obtain info where info: "sget (provider_info st) p = Some info" "pm_status info = Active"
    using is_active_providerD [OF 1(3)] .
  have inv': "staking_inv st'" by (rule delegate_inv [OF inv call])
  have latest: "latest_staked_value d' = saturating_add (latest_staked_value d) amount"
    using dh.stake_law [OF staking_invD(2,3) [OF inv], of who p amount] 1(4,8) by auto
  have "unat (latest_staked_value d) + unat amount < 2 ^ 128"
  proof -
    have "stake_for st who p \<le> unat (reserved_balance F cs who)"
      using owed_ge_stake [OF key, of who] solv by (auto simp: solvent_def intro: order_trans add_leD1)
    then show ?thesis using reserveD(2) [OF cur 1(12)] 1(4) by (simp add: stake_for_def)
  qed
  then have grow: "unat (latest_staked_value d') = unat (latest_staked_value d) + unat amount"
    by (simp add: latest unat_saturating_add)
  have "owed st' a + unat (reserved_balance F cs a) = owed st a + unat (reserved_balance F cs' a)" for a
  proof -
    have "owed st' a + bond_for st a p + stake_for st a p + chunk_total (unbonding_of st a) =
        owed st a + bond_for st' a p + stake_for st' a p + chunk_total (unbonding_of st' a)"
      by (rule owed_change) (auto simp: 1(13) key intro!: bond_for_cong stake_for_cong)
    moreover have "bond_for st' a p = bond_for st a p"
      using bond_for_active [OF inv', of p info a] bond_for_active [OF inv info, of a] info
      by (simp add: 1(5,7,13))
    moreover have "stake_for st' a p =
        (if a = who then unat (latest_staked_value d) + unat amount else stake_for st a p)"
      using grow by (simp add: stake_for_def 1(13))
    ultimately show ?thesis
      using reserveD(1) [OF cur 1(12), of a] 1(4) by (auto simp: 1(13) stake_for_def split: if_splits)
  qed
  then show ?thesis by (simp add: balanced_step_def)
qed

lemma balanced_unchanged:
  assumes "\<And>a. owed st' a = owed st a" and "\<And>a. reserved_balance F cs' a = reserved_balance F cs a"
  shows "balanced_step F (cs, st) (cs', st')"
  using assms by (simp add: balanced_step_def)

text \<open>A positive minimum stake makes \<^verbatim>\<open>delegator_unstake\<close> take at most what is staked: asking for
  more leaves less than the minimum, which turns the call into a full unstake.\<close>

lemma unstake_amount_le:
  fixes staked amount :: u128
  assumes "m \<noteq> 0" and "v = (if saturating_sub staked amount < m then staked else amount)"
  shows "unat v \<le> unat staked"
proof (cases "saturating_sub staked amount < m")
  case False
  then have "unat m \<le> unat staked - unat amount"
    by (simp add: not_less word_le_nat_alt unat_saturating_sub)
  moreover have "0 < unat m" using assms(1) by (simp add: unat_pos_iff)
  ultimately show ?thesis using assms(2) False by simp
qed (use assms(2) in simp)

lemma delegator_unstake_balanced:
  assumes inv: "staking_inv st" and solv: "solvent F (cs, st)"
    and call: "delegator_unstake F cfg origin p amount (cs, st) = Inr (cs', st')"
    and min_stake: "MinDelegatorStake cfg \<noteq> 0"
  shows "balanced_step F (cs, st) (cs', st')"
  using call
proof (cases rule: delegator_unstake_elim)
  case (1 who d d' pe staked v full u)
  have key: "p \<in> skeys (provider_info st)" by (rule active_key [OF 1(3)])
  obtain info where info: "sget (provider_info st) p = Some info" "pm_status info = Active"
    using is_active_providerD [OF 1(3)] .
  have inv': "staking_inv st'" by (rule delegator_unstake_inv [OF inv call])
  have le: "unat v \<le> unat staked"
    by (rule unstake_amount_le [OF min_stake]) (use 1(8,9) in simp)
  have latest: "unat (latest_staked_value d') = unat staked - unat v"
    using dh.unstake_law [OF staking_invD(2,3) [OF inv], of who p v] 1(4,5,11)
    by (auto simp: unat_saturating_sub)
  have old: "stake_for st who p = unat staked" using 1(4,5) by (simp add: stake_for_def)
  have chunks: "chunk_total u = chunk_total (unbonding_of st who) + unat v"
    using unbonding_add_total [OF staking_invD(5) [OF inv],
        of who "\<lparr>uc_amount = v, unlock_era = current_era st + UnbondingPeriod cfg\<rparr>"] 1(13)
      unstake_fits [OF solv 1(3) le [unfolded 1(4,5)]] by simp
  have "owed st' a = owed st a" for a
  proof -
    have "owed st' a + bond_for st a p + stake_for st a p + chunk_total (unbonding_of st a) =
        owed st a + bond_for st' a p + stake_for st' a p + chunk_total (unbonding_of st' a)"
      by (rule owed_change) (auto simp: 1(16) key intro!: bond_for_cong stake_for_cong)
    moreover have "bond_for st' a p = bond_for st a p"
      by (rule bond_for_cong) (auto simp: 1(7,16))
    moreover have "stake_for st' a p = (if a = who then unat staked - unat v else stake_for st a p)"
      using latest by (simp add: stake_for_def 1(16))
    ultimately show ?thesis
      using chunks le old by (auto simp: 1(16) split: if_splits)
  qed
  with 1(15) show ?thesis by (simp add: balanced_step_def)
qed

lemma withdraw_unbonded_balanced:
  assumes cur: "currency_ok F" and solv: "solvent F (cs, st)"
    and call: "withdraw_unbonded F origin (cs, st) = Inr (cs', st')"
  shows "balanced_step F (cs, st) (cs', st')"
  using call
proof (cases rule: withdraw_unbonded_elim)
  case (1 who valid future rest)
  note total = unbonding_partition_total [OF 1(2)]
  have covered: "chunk_total (unbonding_of st who) \<le> unat (reserved_balance F cs who)"
    using solv owed_ge_chunks [of st who] by (auto simp: solvent_def intro: order_trans)
  then have "chunk_total valid < 2 ^ 128"
    using total unat_less_u128 [of "reserved_balance F cs who"] by linarith
  then have amount: "unat (unbonding_sum valid) = chunk_total valid" by (rule unbonding_sum_total)
  have "owed st' a + unat (reserved_balance F cs a) = owed st a + unat (reserved_balance F cs' a)" for a
  proof -
    have "bond_for st' a p = bond_for st a p" "stake_for st' a p = stake_for st a p" for p
      by (auto simp: 1(5) intro!: bond_for_cong stake_for_cong)
    then have "owed st' a + chunk_total (unbonding_of st a) =
        owed st a + chunk_total (unbonding_of st' a)"
      by (simp add: owed_def 1(5))
    then show ?thesis
      using unreserveD [OF cur 1(4), of a] total amount covered by (auto simp: 1(5) split: if_splits)
  qed
  then show ?thesis by (simp add: balanced_step_def)
qed

lemma claim_provider_balanced:
  assumes cur: "currency_ok F"
    and call: "claim_provider F cfg origin p e (cs, st) = Inr (cs', st')"
  shows "balanced_step F (cs, st) (cs', st')"
  using call
proof (cases rule: claim_provider_elim)
  case (1 info em reward i cs1)
  have "reserved_balance F cs' a = reserved_balance F cs a" for a
    using cur 1(10) withdrawD(3) [OF cur 1(9)] by simp
  moreover have "owed st' a = owed st a" for a
    by (rule owed_unchanged) (auto simp: 1(11) intro!: bond_for_cong stake_for_cong)
  ultimately show ?thesis by (intro balanced_unchanged)
qed

lemma claim_delegator_balanced:
  assumes cur: "currency_ok F" and inv: "staking_inv st"
    and call: "claim_delegator F cfg origin p (cs, st) = Inr (cs', st')"
  shows "balanced_step F (cs, st) (cs', st')"
  using call
proof (cases rule: claim_delegator_elim)
  case (1 who e staked d' info em reward i cs1)
  have "reserved_balance F cs' a = reserved_balance F cs a" for a
    using cur 1(10) withdrawD(3) [OF cur 1(9)] by simp
  moreover have "owed st' a = owed st a" for a
    using claim_delegator_claim(3) [OF inv 1(2,3,6)]
    by (intro owed_unchanged) (auto simp: 1(11) stake_for_def intro!: bond_for_cong)
  ultimately show ?thesis by (intro balanced_unchanged)
qed

lemma provider_withdraw_unregistered_balanced:
  assumes cur: "currency_ok F" and solv: "solvent F (cs, st)"
    and call: "provider_withdraw_unregistered F cfg origin p (cs, st) = Inr (cs', st')"
  shows "balanced_step F (cs, st) (cs', st')"
  using call
proof (cases rule: provider_withdraw_unregistered_elim)
  case (1 info u rest)
  have key: "p \<in> skeys (provider_info st)" using 1(2) by (simp add: skeys_iff)
  have same: "provider_info st' = sinsert p (info\<lparr>pm_bond_withdrawn := True\<rparr>) (provider_info st)"
      "current_era st' = current_era st" "provider_era_or_default st' = provider_era_or_default st"
      "delegation_of st' = delegation_of st" "unbonding_of st' = unbonding_of st"
    by (simp_all add: 1(7) current_era_def provider_era_or_default_def delegation_of_def
        unbonding_of_def fun_eq_iff)
  let ?bond = "pe_bond (provider_era_or_default st p u)"
  have bond: "bond_for st a p = (if a = pm_owner info then unat ?bond else 0)" for a
    using 1(2-4) by (auto simp: bond_for_def bond_era_def)
  have gone: "bond_for st' a p = 0" for a by (simp add: bond_for_def same)
  have covered: "unat ?bond \<le> unat (reserved_balance F cs (pm_owner info))"
    using owed_ge_bond [OF key, of "pm_owner info"] solv bond
    by (fastforce simp: solvent_def dest: spec [of _ "pm_owner info"])
  have "owed st' a + unat (reserved_balance F cs a) = owed st a + unat (reserved_balance F cs' a)" for a
  proof -
    have "owed st' a + bond_for st a p + stake_for st a p + chunk_total (unbonding_of st a) =
        owed st a + bond_for st' a p + stake_for st' a p + chunk_total (unbonding_of st' a)"
      by (rule owed_change) (auto simp: same key insert_absorb intro!: bond_for_cong stake_for_cong)
    then show ?thesis
      using unreserveD [OF cur 1(6), of a] bond [of a] gone [of a] covered
      by (auto simp: stake_for_def same split: if_splits)
  qed
  then show ?thesis by (simp add: balanced_step_def)
qed

lemma delegator_withdraw_unregistered_balanced:
  assumes cur: "currency_ok F" and solv: "solvent F (cs, st)"
    and call: "delegator_withdraw_unregistered F cfg origin p (cs, st) = Inr (cs', st')"
  shows "balanced_step F (cs, st) (cs', st')"
  using call
proof (cases rule: delegator_withdraw_unregistered_elim)
  case (1 who info u rest)
  have key: "p \<in> skeys (provider_info st)" using 1(2) by (simp add: skeys_iff)
  have covered: "stake_for st who p \<le> unat (reserved_balance F cs who)"
    using owed_ge_stake [OF key, of who] solv by (auto simp: solvent_def intro: order_trans add_leD1)
  have "owed st' a + unat (reserved_balance F cs a) = owed st a + unat (reserved_balance F cs' a)" for a
  proof -
    have "owed st' a + bond_for st a p + stake_for st a p + chunk_total (unbonding_of st a) =
        owed st a + bond_for st' a p + stake_for st' a p + chunk_total (unbonding_of st' a)"
      by (rule owed_change) (auto simp: 1(8) key intro!: bond_for_cong stake_for_cong)
    moreover have "bond_for st' a p = bond_for st a p"
      by (rule bond_for_cong) (auto simp: 1(8))
    moreover have "stake_for st' a p = (if a = who then 0 else stake_for st a p)"
      by (simp add: stake_for_def 1(8))
    ultimately show ?thesis
      using unreserveD [OF cur 1(7), of a] covered by (auto simp: 1(8) stake_for_def split: if_splits)
  qed
  then show ?thesis by (simp add: balanced_step_def)
qed

lemma unregister_provider_balanced:
  assumes inv: "staking_inv st" and call: "unregister_provider p (cs, st) = Inr (cs', st')"
  shows "balanced_step F (cs, st) (cs', st')"
  using call
proof (cases rule: unregister_provider_elim)
  case (1 info)
  have key: "p \<in> skeys (provider_info st)" using 1(1) by (simp add: skeys_iff)
  have same: "provider_info st' = sinsert p (info\<lparr>pm_status := Inactive (current_era st)\<rparr>) (provider_info st)"
      "current_era st' = current_era st" "provider_era_or_default st' = provider_era_or_default st"
      "delegation_of st' = delegation_of st" "unbonding_of st' = unbonding_of st"
    by (simp_all add: 1(4) current_era_def provider_era_or_default_def delegation_of_def
        unbonding_of_def fun_eq_iff)
  have "bond_for st' a q = bond_for st a q" for a q
  proof (cases "q = p")
    case True
    then show ?thesis
      using bond_for_active [OF inv 1(1,2), of a] staking_invD(7) [OF inv 1(1,2)]
      by (simp add: bond_for_def [of st'] bond_era_def same)
  qed (rule bond_for_cong; simp add: same)
  then have "owed st' a = owed st a" for a
    by (intro owed_unchanged) (auto simp: same key insert_absorb intro!: stake_for_cong)
  with 1(3) show ?thesis by (intro balanced_unchanged) simp_all
qed

text \<open>Nobody has delegated to a provider that is not registered.\<close>

lemma unknown_provider_no_stake:
  assumes "staking_inv st" and "sget (provider_info st) p = None"
  shows "delegation_of st a p = Delegation_default"
proof -
  have "p \<notin> skeys (provider_info st)" using assms(2) by (simp add: skeys_iff)
  then have "(a, p) \<notin> skeys (delegation_info st)" using staking_invD(4) [OF assms(1)] by blast
  then have "sget (delegation_info st) (a, p) = None" by (auto simp: skeys_iff)
  then show ?thesis by (simp add: delegation_of_def)
qed

lemma register_provider_balanced:
  assumes cur: "currency_ok F" and inv: "staking_inv st"
    and call: "register_provider F cfg who p bond (cs, st) = Inr (cs', st')"
  shows "balanced_step F (cs, st) (cs', st')"
  using call
proof (cases rule: register_provider_elim)
  case (1 em)
  have new: "p \<notin> skeys (provider_info st)" using 1(1) by (simp add: skeys_iff)
  have same: "provider_info st' = sinsert p (ProviderMetadata_new who) (provider_info st)"
      "current_era st' = current_era st" "delegation_of st' = delegation_of st"
      "unbonding_of st' = unbonding_of st"
      "provider_era_or_default st' q e = (if q = p \<and> e = current_era st
        then \<lparr>pe_bond = bond, pe_total = bond, pe_delegator_count = 0, pe_reward_claimed = False\<rparr>
        else provider_era_or_default st q e)" for q e
    by (simp_all add: 1(5) current_era_def provider_era_or_default_def delegation_of_def
        unbonding_of_def fun_eq_iff)
  have others: "bond_for st' a q = bond_for st a q" "stake_for st' a q = stake_for st a q"
    if "q \<in> skeys (provider_info st)" for a q
    using that new by (auto simp: same intro!: bond_for_cong stake_for_cong)
  have "owed st' a = owed st a + (if a = who then unat bond else 0)" for a
  proof -
    have "bond_for st' a p = (if a = who then unat bond else 0)"
      by (auto simp: bond_for_def bond_era_def same ProviderMetadata_new_def)
    moreover have "stake_for st' a p = 0"
      by (simp add: stake_for_def same unknown_provider_no_stake [OF inv 1(1)])
    ultimately show ?thesis
      using others [of _ a] new by (simp add: owed_def same)
  qed
  with reserveD(1) [OF cur 1(3)] show ?thesis by (simp add: balanced_step_def)
qed

lemma set_blocks_per_era_balanced:
  assumes "set_blocks_per_era F origin new (cs, st) = Inr (cs', st')"
  shows "balanced_step F (cs, st) (cs', st')"
  using assms
proof (cases rule: set_blocks_per_era_elim)
  case 1
  have "owed st' a = owed st a" for a
    by (rule owed_unchanged) (auto simp: 1(4) current_era_def provider_era_or_default_def
        delegation_of_def unbonding_of_def intro!: bond_for_cong stake_for_cong)
  with 1(3) show ?thesis by (intro balanced_unchanged) simp_all
qed

lemma handle_imbalance_balanced:
  assumes "currency_ok F"
  shows "balanced_step F (cs, st) (handle_imbalance F cfg i (cs, st))"
proof -
  have "owed (st\<lparr>reward_accumulator := v\<rparr>) a = owed st a" for v a
    by (rule owed_unchanged) (auto simp: current_era_def provider_era_or_default_def
        delegation_of_def unbonding_of_def intro!: bond_for_cong stake_for_cong)
  with assms show ?thesis by (simp add: handle_imbalance_def balanced_step_def)
qed

text \<open>When an era ends the bond of an active provider is copied to the entry of the new era; the
  entry of an inactive one is left alone.\<close>

lemma on_initialize_owed:
  assumes inv: "staking_inv st"
  shows "owed (snd (staking_on_initialize F cfg n st)) a = owed st a"
proof (cases "should_update (era st) n")
  case False
  then show ?thesis by (simp add: on_initialize_idle)
next
  case True
  define st' where "st' = snd (staking_on_initialize F cfg n st)"
  note acc = on_initialize_access [OF True staking_invD(1) [OF inv] st'_def [symmetric]]
  have "bond_for st' b q = bond_for st b q" if q: "q \<in> skeys (provider_info st)" for b q
  proof -
    obtain info where info: "sget (provider_info st) q = Some info"
      using q by (auto simp: skeys_iff)
    show ?thesis
    proof (cases "pm_status info")
      case Active
      have act: "is_active_provider st q" using info Active by (simp add: is_active_provider_def)
      obtain pe where "sget (provider_era_info st) (q, current_era st) = Some pe"
        using staking_invD(6) [OF inv info Active] by (auto simp: skeys_iff)
      then have "pe_bond (provider_era_or_default st' q (current_era st')) =
          pe_bond (provider_era_or_default st q (current_era st))"
        using act by (cases "current_era st = - 1")
          (simp_all add: provider_era_or_default_def get_or_def acc(1,9) saturating_Suc)
      with info Active show ?thesis by (simp add: bond_for_def bond_era_def acc(3))
    next
      case (Inactive u)
      then have "\<not> is_active_provider st q" using info by (simp add: is_active_provider_def)
      then have "provider_era_or_default st' q u = provider_era_or_default st q u"
        by (simp add: provider_era_or_default_def get_or_def acc(9))
      with info Inactive show ?thesis by (simp add: bond_for_def bond_era_def acc(3))
    qed
  qed
  then have "owed st' a = owed st a"
    by (intro owed_unchanged) (auto simp: acc(3,6,7) intro!: stake_for_cong)
  then show ?thesis by (simp add: st'_def)
qed

end
