(* ===== verification/Staking_Machine.thy ===== *)
theory Staking_Machine
  imports Staking_Balance
begin

text \<open>
  The staking pallet as a state machine: one constructor per entry point (the calls, the two
  functions of the registration trait, the imbalance handler and the block hook), the transition
  they make, the states reachable from genesis, and what holds along every run: the structural
  invariant, solvency, eras that never go back, and no reward that is paid twice.
\<close>

section \<open>Entry points and runs\<close>

datatype ('ac, 'pid, 'o) staking_call =
  SetBlocksPerEra 'o u32
| ProviderBondMore 'o 'pid u128
| ProviderBondLess 'o 'pid u128
| Delegate 'o 'pid u128
| DelegatorUnstake 'o 'pid u128
| WithdrawUnbonded 'o
| ClaimProvider 'o 'pid era_index
| ClaimDelegator 'o 'pid
| ProviderWithdrawUnregistered 'o 'pid
| DelegatorWithdrawUnregistered 'o 'pid
| RegisterProvider 'ac 'pid u128
| UnregisterProvider 'pid
| HandleImbalance u128
| OnInitialize block_number

fun staking_exec ::
    "('ac, 'cs, 'o) frame \<Rightarrow> 'ac staking_config \<Rightarrow> ('ac, 'pid, 'o) staking_call \<Rightarrow>
     'cs \<times> ('ac, 'pid) staking_state \<Rightarrow> ('ac, 'pid, 'cs) staking_result" where
  "staking_exec F cfg (SetBlocksPerEra o' n) s = set_blocks_per_era F o' n s"
| "staking_exec F cfg (ProviderBondMore o' p v) s = provider_bond_more F o' p v s"
| "staking_exec F cfg (ProviderBondLess o' p v) s = provider_bond_less F cfg o' p v s"
| "staking_exec F cfg (Delegate o' p v) s = delegate F cfg o' p v s"
| "staking_exec F cfg (DelegatorUnstake o' p v) s = delegator_unstake F cfg o' p v s"
| "staking_exec F cfg (WithdrawUnbonded o') s = withdraw_unbonded F o' s"
| "staking_exec F cfg (ClaimProvider o' p e) s = claim_provider F cfg o' p e s"
| "staking_exec F cfg (ClaimDelegator o' p) s = claim_delegator F cfg o' p s"
| "staking_exec F cfg (ProviderWithdrawUnregistered o' p) s = provider_withdraw_unregistered F cfg o' p s"
| "staking_exec F cfg (DelegatorWithdrawUnregistered o' p) s = delegator_withdraw_unregistered F cfg o' p s"
| "staking_exec F cfg (RegisterProvider a p v) s = register_provider F cfg a p v s"
| "staking_exec F cfg (UnregisterProvider p) s = unregister_provider p s"
| "staking_exec F cfg (HandleImbalance i) s = Inr (handle_imbalance F cfg i s)"
| "staking_exec F cfg (OnInitialize n) s = Inr (fst s, snd (staking_on_initialize F cfg n (snd s)))"

text \<open>A call that fails leaves the storage as it was.\<close>

definition staking_apply ::
    "('ac, 'cs, 'o) frame \<Rightarrow> 'ac staking_config \<Rightarrow> ('ac, 'pid, 'o) staking_call \<Rightarrow>
     'cs \<times> ('ac, 'pid) staking_state \<Rightarrow> 'cs \<times> ('ac, 'pid) staking_state" where
  "staking_apply F cfg c s = (case staking_exec F cfg c s of Inl _ \<Rightarrow> s | Inr s' \<Rightarrow> s')"

text \<open>The sum in the check of \<open>provider_bond_less\<close> does not wrap around.\<close>

definition bond_sum_fits :: "'ac staking_config \<Rightarrow> ('ac, 'pid, 'o) staking_call \<Rightarrow> bool" where
  "bond_sum_fits cfg c = (case c of
     ProviderBondLess _ _ v \<Rightarrow> unat v + unat (MinProviderStake cfg) < 2 ^ 128 | _ \<Rightarrow> True)"

text \<open>The runs: any sequence of entry points, failing ones included; \<open>allowed\<close> says which entry
  points a theorem admits in which state.\<close>

inductive staking_run ::
    "('ac, 'cs, 'o) frame \<Rightarrow> 'ac staking_config \<Rightarrow> 
     ('cs \<times> ('ac, 'pid) staking_state \<Rightarrow> ('ac, 'pid, 'o) staking_call \<Rightarrow> bool) \<Rightarrow>
     'cs \<times> ('ac, 'pid) staking_state \<Rightarrow> 'cs \<times> ('ac, 'pid) staking_state \<Rightarrow> bool"
  for F cfg allowed where
  run_refl: "staking_run F cfg allowed s s"
| run_step: "staking_run F cfg allowed s s' \<Longrightarrow> allowed s' c \<Longrightarrow>
    staking_run F cfg allowed s (staking_apply F cfg c s')"

inductive_cases run_stepE: "staking_run F cfg allowed s s'"

text \<open>What a property of the state must satisfy to hold along every run.\<close>

lemma staking_run_induct_exec:
  assumes "staking_run F cfg allowed s s'" and "P s"
    and "\<And>t c t'. P t \<Longrightarrow> allowed t c \<Longrightarrow> staking_exec F cfg c t = Inr t' \<Longrightarrow> P t'"
  shows "P s'"
  using assms by induction (auto simp: staking_apply_def split: sum.splits)

lemma staking_run_trans:
  assumes "staking_run F cfg allowed s2 s3" and "staking_run F cfg allowed s1 s2"
  shows "staking_run F cfg allowed s1 s3"
  using assms by induction (auto intro: staking_run.intros)

lemma staking_run_mono:
  assumes "staking_run F cfg allowed s s'" and "\<And>t c. allowed t c \<Longrightarrow> allowed' t c"
  shows "staking_run F cfg allowed' s s'"
  using assms by induction (auto intro: staking_run.intros)

section \<open>The invariant along runs\<close>

lemma staking_exec_inv:
  assumes "staking_inv (snd s)" and "staking_exec F cfg c s = Inr s'"
  shows "staking_inv (snd s')"
proof -
  obtain cs st cs' st' where s: "s = (cs, st)" "s' = (cs', st')" by (cases s, cases s')
  have inv: "staking_inv st" using assms(1) s by simp
  have imbalance: "staking_inv st'" if "handle_imbalance F cfg i (cs, st) = (cs', st')" for i
    using handle_imbalance_inv [OF inv, of F cfg i cs] that by simp
  show ?thesis
    using assms(2) s
    by (cases c)
      (auto intro: set_blocks_per_era_inv [OF inv] provider_bond_more_inv [OF inv]
        provider_bond_less_inv [OF inv] delegate_inv [OF inv] delegator_unstake_inv [OF inv]
        withdraw_unbonded_inv [OF inv] claim_provider_inv [OF inv] claim_delegator_inv [OF inv]
        provider_withdraw_unregistered_inv [OF inv] delegator_withdraw_unregistered_inv [OF inv]
        register_provider_inv [OF inv] unregister_provider_inv [OF inv] on_initialize_inv [OF inv]
        imbalance)
qed

lemma staking_run_inv:
  assumes "staking_run F cfg allowed s s'" and "staking_inv (snd s)"
  shows "staking_inv (snd s')"
  using assms by (rule staking_run_induct_exec [where P = "\<lambda>s. staking_inv (snd s)"])
    (rule staking_exec_inv)

section \<open>Solvency along runs\<close>

lemma staking_exec_balanced:
  assumes cur: "currency_ok F" and inv: "staking_inv st" and solv: "solvent F (cs, st)"
    and ok: "MinDelegatorStake cfg \<noteq> 0" "bond_sum_fits cfg c"
    and exec: "staking_exec F cfg c (cs, st) = Inr (cs', st')"
  shows "balanced_step F (cs, st) (cs', st')"
proof (cases c)
  case (ProviderBondLess o' p v)
  with exec ok show ?thesis
    by (auto simp: bond_sum_fits_def intro: provider_bond_less_balanced [OF inv solv])
next
  case (HandleImbalance i)
  with exec show ?thesis using handle_imbalance_balanced [OF cur, of cs st cfg i] by simp
next
  case (OnInitialize n)
  with exec show ?thesis by (auto simp: balanced_step_def on_initialize_owed [OF inv])
qed (use exec ok in \<open>auto intro: set_blocks_per_era_balanced provider_bond_more_balanced [OF cur inv]
    delegate_balanced [OF cur inv solv] delegator_unstake_balanced [OF inv solv]
    withdraw_unbonded_balanced [OF cur solv] claim_provider_balanced [OF cur]
    claim_delegator_balanced [OF cur inv] provider_withdraw_unregistered_balanced [OF cur solv]
    delegator_withdraw_unregistered_balanced [OF cur solv] register_provider_balanced [OF cur inv]
    unregister_provider_balanced [OF inv]\<close>)

text \<open>The pallet meets the contract of a pallet that holds reserves, for every call but a
  \<^verbatim>\<open>provider_bond_less\<close> whose sum wraps around. The code accepts that call too; \<open>bond_less_wraps\<close> in
  \<open>Staking_Limits\<close> states what it does then, and every theorem over \<open>staking_call_ok\<close> excludes it.\<close>

definition staking_call_ok :: "'ac staking_config \<Rightarrow> ('ac, 'pid, 'o) staking_call \<Rightarrow> bool" where
  "staking_call_ok cfg c \<longleftrightarrow> MinDelegatorStake cfg \<noteq> 0 \<and> bond_sum_fits cfg c"

interpretation staking_holder: reserving_pallet F staking_inv owed "staking_exec F cfg"
    "staking_call_ok cfg" for F cfg
proof (unfold_locales, goal_cases)
  case (1 st c cs cs' st')
  then show ?case using staking_exec_inv [of "(cs, st)" F cfg c] by simp
next
  case (2 st c cs cs' st' a)
  then have "balanced_step F (cs, st) (cs', st')"
    by (intro staking_exec_balanced [OF 2(3,1) _ _ _ 2(2)])
      (auto simp: staking_call_ok_def solvent_def)
  then show ?case by (simp add: balanced_step_def)
qed

lemma staking_run_solvent:
  assumes cur: "currency_ok F" and run: "staking_run F cfg (\<lambda>_. staking_call_ok cfg) s s'"
    and "staking_inv (snd s)" and "solvent F s"
  shows "solvent F s'"
proof -
  have "staking_inv (snd s') \<and> solvent F s'"
    using run
  proof (rule staking_run_induct_exec [where P = "\<lambda>s. staking_inv (snd s) \<and> solvent F s"])
    fix t c t'
    assume t: "staking_inv (snd t) \<and> solvent F t" and ok: "staking_call_ok cfg c"
      and exec: "staking_exec F cfg c t = Inr t'"
    obtain cs st cs' st' where s: "t = (cs, st)" "t' = (cs', st')" by (cases t, cases t')
    have "owed st' a + 0 \<le> unat (reserved_balance F cs' a)" for a
      using staking_holder.cover_kept [OF cur _ ok, of st cs cs' st' "\<lambda>_. 0" a] t exec s
      by (simp add: solvent_def)
    with t exec s show "staking_inv (snd t') \<and> solvent F t'"
      using staking_exec_inv by (fastforce simp: solvent_def)
  qed (use assms in simp)
  then show ?thesis ..
qed

lemma solvent_genesis: "solvent F (cs, staking_genesis)"
  by (simp add: solvent_def owed_def staking_genesis_def unbonding_of_def get_or_def)

section \<open>Eras only go forward\<close>

lemma staking_exec_era_info:
  assumes "staking_exec F cfg c (cs, st) = Inr (cs', st')" and "\<And>n. c \<noteq> OnInitialize n"
  shows "current_era st' = current_era st"
  using assms
  by (cases c)
    (auto elim!: staking_elims simp: handle_imbalance_def current_era_def)

lemma on_initialize_era:
  "current_era (snd (staking_on_initialize F cfg n st)) =
     (if should_update (era st) n then saturating_add (current_era st) 1 else current_era st)"
  by (auto simp: staking_on_initialize_def Let_def rotate_provider_era_info_def
      snapshot_era_rewards_def current_era_def split: prod.splits)

lemma staking_exec_era_mono:
  assumes "staking_exec F cfg c (cs, st) = Inr (cs', st')"
  shows "current_era st \<le> current_era st'"
  using assms staking_exec_era_info [OF assms]
  by (cases c) (auto simp: on_initialize_era saturating_Suc_ge)

lemma staking_run_era_mono:
  assumes "staking_run F cfg allowed s s'"
  shows "current_era (snd s) \<le> current_era (snd s')"
  using assms
  by (rule staking_run_induct_exec [where P = "\<lambda>t. current_era (snd s) \<le> current_era (snd t)"])
    (auto dest: staking_exec_era_mono intro: order_trans)

section \<open>What a step does to one delegation and to one provider's era entry\<close>

lemma staking_exec_delegation:
  assumes "staking_exec F cfg c (cs, st) = Inr (cs', st')"
  obtains (same) "delegation_of st' a p = delegation_of st a p"
  | (gone) "delegation_of st' a p = Delegation_default"
  | (staked) v where "stake (delegation_of st a p) (current_era st) v = Inr (delegation_of st' a p)"
  | (unstaked) v where "unstake (delegation_of st a p) (current_era st) v = Inr (delegation_of st' a p)"
  | (claimed) h v where "claim (delegation_of st a p) = ((h, v), delegation_of st' a p)"
      and "v \<noteq> 0" and "h < current_era st"
proof (cases c)
  case (Delegate o' q v)
  with assms have "delegate F cfg o' q v (cs, st) = Inr (cs', st')" by simp
  then show ?thesis
    by (cases rule: delegate_elim) (use same staked in \<open>fastforce split: if_splits\<close>)
next
  case (DelegatorUnstake o' q v)
  with assms have "delegator_unstake F cfg o' q v (cs, st) = Inr (cs', st')" by simp
  then show ?thesis
    by (cases rule: delegator_unstake_elim) (use same unstaked in \<open>fastforce split: if_splits\<close>)
next
  case (ClaimDelegator o' q)
  with assms have "claim_delegator F cfg o' q (cs, st) = Inr (cs', st')" by simp
  then show ?thesis
    by (cases rule: claim_delegator_elim) (use same claimed in \<open>fastforce split: if_splits\<close>)
next
  case (DelegatorWithdrawUnregistered o' q)
  with assms have "delegator_withdraw_unregistered F cfg o' q (cs, st) = Inr (cs', st')" by simp
  then show ?thesis
    by (cases rule: delegator_withdraw_unregistered_elim)
      (use same gone in \<open>fastforce split: if_splits\<close>)
next
  case (OnInitialize n)
  then have "delegation_info st' = delegation_info st"
    using assms by (auto simp: staking_on_initialize_def Let_def rotate_provider_era_info_def
        snapshot_era_rewards_def staking_deposit_event_def split: prod.splits)
  with same show ?thesis by (simp add: delegation_of_def)
qed (use assms same in \<open>auto elim!: staking_elims simp: handle_imbalance_def delegation_of_def\<close>)

section \<open>No reward is paid twice\<close>

text \<open>Everything up to era \<open>h\<close> is paid to delegator \<open>a\<close> of provider \<open>p\<close>.\<close>

definition settled :: "('ac, 'pid) staking_state \<Rightarrow> 'ac \<Rightarrow> 'pid \<Rightarrow> era_index \<Rightarrow> bool" where
  "settled st a p h \<longleftrightarrow> h < current_era st \<and> (\<forall>x \<le> h. staked_at (delegation_of st a p) x = 0)"

lemma claim_delegator_settles:
  assumes "staking_inv st" and "claim_delegator F cfg origin p (cs, st) = Inr (cs', st')"
    and "ensure_signed F origin = Some a"
  shows "settled st' a p (fst (fst (claim (delegation_of st a p))))"
  using assms(2)
proof (cases rule: claim_delegator_elim)
  case (1 who e staked d' info em reward i cs1)
  with assms(3) claim_delegator_claim(5) [OF assms(1) 1(2,3,6)] show ?thesis
    by (simp add: settled_def)
qed

lemma staking_exec_settled:
  assumes inv: "staking_inv st" and exec: "staking_exec F cfg c (cs, st) = Inr (cs', st')"
    and settled: "settled st a p h"
  shows "settled st' a p h"
proof -
  note d = staking_invD(2,3) [OF inv, of a p]
  have h: "h < current_era st" and zero: "\<And>x. x \<le> h \<Longrightarrow> staked_at (delegation_of st a p) x = 0"
    using settled by (auto simp: settled_def)
  have "staked_at (delegation_of st' a p) x = 0" if "x \<le> h" for x
    using exec
  proof (cases rule: staking_exec_delegation [where a = a and p = p])
    case (staked v)
    with that h zero show ?thesis using dh.stake_keeps_settled [OF d staked, of x] by auto
  next
    case (unstaked v)
    with that h zero show ?thesis using dh.unstake_keeps_settled [OF d unstaked, of x] by auto
  next
    case (claimed g v)
    with that zero show ?thesis
      using dh.claim_keeps_settled [OF d(1) claimed(1,2) less_not_max [OF claimed(3)]] by blast
  qed (use that zero in simp_all)
  moreover have "h < current_era st'" using h staking_exec_era_mono [OF exec] by simp
  ultimately show ?thesis by (simp add: settled_def)
qed

lemma staking_run_settled:
  assumes "staking_run F cfg allowed s s'" and "staking_inv (snd s)" and "settled (snd s) a p h"
  shows "settled (snd s') a p h"
proof -
  have "staking_inv (snd s') \<and> settled (snd s') a p h"
    using assms(1)
  proof (rule staking_run_induct_exec [where P = "\<lambda>s. staking_inv (snd s) \<and> settled (snd s) a p h"])
    fix t c t'
    assume "staking_inv (snd t) \<and> settled (snd t) a p h" and "staking_exec F cfg c t = Inr t'"
    then show "staking_inv (snd t') \<and> settled (snd t') a p h"
      using staking_exec_inv [of t F cfg c t']
        staking_exec_settled [of "snd t" F cfg c "fst t" "fst t'" "snd t'" a p h] by simp
  qed (use assms in simp)
  then show ?thesis ..
qed

text \<open>The flag of a past era's entry is never taken back, as long as the era counter is below its
  last value (the block hook computes the next era by a plain addition).\<close>

definition provider_paid :: "('ac, 'pid) staking_state \<Rightarrow> 'pid \<Rightarrow> era_index \<Rightarrow> bool" where
  "provider_paid st p e \<longleftrightarrow>
     e < current_era st \<and> pe_reward_claimed (provider_era_or_default st p e) \<and>
     (\<exists>info. sget (provider_info st) p = Some info \<and> claimable_status (pm_status info) e)"

lemma on_initialize_paid:
  assumes "provider_paid st p e" and "swf (provider_info st)" and "current_era st \<noteq> - 1"
  shows "provider_paid (snd (staking_on_initialize F cfg n st)) p e"
proof (cases "should_update (era st) n")
  case True
  have "e \<noteq> current_era st + 1"
    using assms(1) word_less_Suc_iff [OF assms(3), of "current_era st"]
    by (auto simp: provider_paid_def)
  then have "provider_era_or_default (snd (staking_on_initialize F cfg n st)) p e =
      provider_era_or_default st p e"
    using on_initialize_access(9) [OF True assms(2) refl, of F cfg p e]
    by (simp add: provider_era_or_default_def get_or_def)
  moreover have "e < saturating_add (current_era st) 1"
    using assms(1) saturating_Suc_ge [of "current_era st"] by (auto simp: provider_paid_def)
  ultimately show ?thesis
    using assms(1) True on_initialize_access(3) [OF True assms(2) refl, of F cfg]
    by (simp add: provider_paid_def on_initialize_era)
qed (use assms(1) in \<open>simp add: on_initialize_idle\<close>)

lemma staking_exec_paid:
  assumes inv: "staking_inv st" and exec: "staking_exec F cfg c (cs, st) = Inr (cs', st')"
    and paid: "provider_paid st p e" and era: "current_era st \<noteq> - 1"
  shows "provider_paid st' p e"
proof (cases "\<exists>n. c = OnInitialize n")
  case True
  with exec on_initialize_paid [OF paid staking_invD(1) [OF inv] era] show ?thesis by auto
next
  case False
  with exec paid show ?thesis
    by (cases c)
      (auto elim!: staking_elims simp: handle_imbalance_def current_era_def provider_paid_def provider_era_or_default_def
          claimable_status_def split: if_splits)
qed

lemma staking_run_paid:
  assumes run: "staking_run F cfg allowed s s'" and "staking_inv (snd s)"
    and "provider_paid (snd s) p e" and "current_era (snd s') \<noteq> - 1"
  shows "provider_paid (snd s') p e"
proof -
  have "staking_inv (snd s') \<and> (current_era (snd s') \<noteq> - 1 \<longrightarrow> provider_paid (snd s') p e)"
    using run
  proof (rule staking_run_induct_exec [where P = "\<lambda>s. staking_inv (snd s) \<and>
      (current_era (snd s) \<noteq> - 1 \<longrightarrow> provider_paid (snd s) p e)"])
    fix t c t'
    assume t: "staking_inv (snd t) \<and> (current_era (snd t) \<noteq> - 1 \<longrightarrow> provider_paid (snd t) p e)"
      and exec: "staking_exec F cfg c t = Inr t'"
    have "current_era (snd t') \<noteq> - 1 \<Longrightarrow> current_era (snd t) \<noteq> - 1"
      using staking_exec_era_mono [of F cfg c "fst t" "snd t" "fst t'" "snd t'"] exec
      by (auto simp: word_order.extremum_unique)
    then show "staking_inv (snd t') \<and> (current_era (snd t') \<noteq> - 1 \<longrightarrow> provider_paid (snd t') p e)"
      using t exec staking_exec_inv [of t F cfg c t']
        staking_exec_paid [of "snd t" F cfg c "fst t" "fst t'" "snd t'" p e] by auto
  qed (use assms in simp)
  with assms(4) show ?thesis by simp
qed

lemma claim_provider_pays:
  assumes "claim_provider F cfg origin p e (cs, st) = Inr (cs', st')"
  shows "provider_paid st' p e"
  using assms by (auto elim!: claim_provider_elim simp: provider_paid_def)

lemma paid_no_claim:
  assumes "provider_paid st p e" and "ensure_signed F origin = Some a"
  shows "claim_provider F cfg origin p e (cs, st) = Inl (ModuleError AlreadyClaimedInThisEra)"
proof -
  obtain info where "sget (provider_info st) p = Some info" and "claimable_status (pm_status info) e"
    using assms(1) by (auto simp: provider_paid_def)
  with assms show ?thesis
    by (cases "pm_status info") (auto simp: claim_provider_def provider_paid_def claimable_status_def)
qed

end
