(* ===== verification/Staking_Books.thy ===== *)
theory Staking_Books
  imports Staking_Machine
begin

text \<open>
  The running totals the pallet keeps beside the delegations: for every active provider the entry of
  the running era records the sum of the bond and of all stakes, and the number of delegators; the
  era's record holds the sum over all active providers. The rewards are split by these totals.
\<close>

section \<open>The total and the number of delegators of a provider\<close>

definition delegators_of :: "('ac, 'pid) staking_state \<Rightarrow> 'pid \<Rightarrow> 'ac set" where
  "delegators_of st p = {a. stake_for st a p \<noteq> 0}"

definition stake_total :: "('ac, 'pid) staking_state \<Rightarrow> 'pid \<Rightarrow> nat" where
  "stake_total st p = (\<Sum>a \<in> delegators_of st p. stake_for st a p)"

definition provider_books :: "('ac, 'pid) staking_state \<Rightarrow> 'pid \<Rightarrow> bool" where
  "provider_books st p \<longleftrightarrow>
     (let pe = provider_era_or_default st p (current_era st) in
      unat (pe_total pe) = unat (pe_bond pe) + stake_total st p \<and>
      unat (pe_delegator_count pe) = card (delegators_of st p))"

definition books :: "('ac, 'pid) staking_state \<Rightarrow> bool" where
  "books st \<longleftrightarrow> (\<forall>p. is_active_provider st p \<longrightarrow> provider_books st p)"

definition staking_config_ok :: "'ac staking_config \<Rightarrow> bool" where
  "staking_config_ok cfg \<longleftrightarrow> MinDelegatorStake cfg \<noteq> 0 \<and> MaxDelegatorsPerProvider cfg \<noteq> - 1"

lemma delegators_keys: "delegators_of st p \<subseteq> fst ` skeys (delegation_info st)"
  by (force simp: delegators_of_def stake_for_def delegation_of_def get_or_def skeys_iff image_iff
      split: option.splits)

lemma finite_delegators [simp]: "finite (delegators_of st p)"
  by (rule finite_subset [OF delegators_keys]) simp

text \<open>What happens to the total and the number when one delegator's stake changes.\<close>

lemma stake_total_change:
  assumes "\<And>b. b \<noteq> a \<Longrightarrow> stake_for st' b p = stake_for st b p"
  shows "stake_total st' p + stake_for st a p = stake_total st p + stake_for st' a p"
proof -
  let ?A = "insert a (delegators_of st p)"
  have sub: "delegators_of st' p \<subseteq> ?A" using assms by (auto simp: delegators_of_def)
  have total: "stake_total x p = (\<Sum>b \<in> ?A. stake_for x b p)"
    if "delegators_of x p \<subseteq> ?A" for x :: "('a, 'b) staking_state"
    unfolding stake_total_def
    by (rule sum.mono_neutral_left [OF _ that]) (simp, auto simp: delegators_of_def)
  have "(\<Sum>b \<in> ?A. stake_for st' b p) + stake_for st a p = (\<Sum>b \<in> ?A. stake_for st b p) + stake_for st' a p"
    using assms by (intro sum_change_one [of ?A a "\<lambda>b. stake_for st' b p" "\<lambda>b. stake_for st b p"]) auto
  with total [OF sub] total [OF subset_insertI] show ?thesis by presburger
qed

lemma delegators_change:
  assumes "\<And>b. b \<noteq> a \<Longrightarrow> stake_for st' b p = stake_for st b p"
  shows "delegators_of st' p =
    (if stake_for st' a p = 0 then delegators_of st p - {a} else insert a (delegators_of st p))"
proof (rule set_eqI)
  fix b
  show "b \<in> delegators_of st' p \<longleftrightarrow> b \<in> (if stake_for st' a p = 0 then delegators_of st p - {a}
      else insert a (delegators_of st p))"
    using assms by (cases "b = a") (auto simp: delegators_of_def)
qed

lemma stake_le_total: "stake_for st a p \<le> stake_total st p"
proof (cases "a \<in> delegators_of st p")
  case True
  then show ?thesis
    unfolding stake_total_def
    using sum_member_le [OF finite_delegators True, of "\<lambda>b. stake_for st b p"] by simp
qed (simp add: delegators_of_def)

lemma booksD: "books st \<Longrightarrow> is_active_provider st p \<Longrightarrow> provider_books st p"
  by (simp add: books_def)

lemma provider_books_cong:
  assumes "provider_books st p"
    and "\<And>a. stake_for st' a p = stake_for st a p"
    and "pe_total (provider_era_or_default st' p (current_era st')) =
      pe_total (provider_era_or_default st p (current_era st))"
    and "pe_bond (provider_era_or_default st' p (current_era st')) =
      pe_bond (provider_era_or_default st p (current_era st))"
    and "pe_delegator_count (provider_era_or_default st' p (current_era st')) =
      pe_delegator_count (provider_era_or_default st p (current_era st))"
  shows "provider_books st' p"
  using assms by (simp add: provider_books_def delegators_of_def stake_total_def Let_def)

text \<open>A step that touches at most provider \<open>q\<close>.\<close>

lemma books_step:
  assumes "books st"
    and "\<And>p. is_active_provider st' p \<Longrightarrow> p \<noteq> q \<Longrightarrow> is_active_provider st p"
    and "current_era st' = current_era st"
    and "\<And>p a. p \<noteq> q \<Longrightarrow> stake_for st' a p = stake_for st a p"
    and "\<And>p. p \<noteq> q \<Longrightarrow> provider_era_or_default st' p (current_era st) =
      provider_era_or_default st p (current_era st)"
    and "is_active_provider st' q \<Longrightarrow> provider_books st' q"
  shows "books st'"
  unfolding books_def
proof (intro allI impI)
  fix p
  assume act: "is_active_provider st' p"
  show "provider_books st' p"
  proof (cases "p = q")
    case False
    show ?thesis
      by (rule provider_books_cong [OF booksD [OF assms(1) assms(2) [OF act False]]])
        (use False assms(3-5) in auto)
  qed (use act assms(6) in simp)
qed

lemma provider_bond_more_books:
  assumes "books st" and "provider_bond_more F origin p amount (cs, st) = Inr (cs', st')"
  shows "books st'"
  using assms(2)
proof (cases rule: provider_bond_more_elim)
  case (1 who info bond tot)
  have "is_active_provider st p" using 1(3,4) by (simp add: is_active_provider_def)
  note old = booksD [OF assms(1) this]
  show ?thesis
  proof (rule books_step [OF assms(1), where q = p])
    have "delegators_of st' p = delegators_of st p" "stake_total st' p = stake_total st p"
      by (simp_all add: delegators_of_def stake_total_def stake_for_def 1(9))
    with old show "provider_books st' p"
      using checked_add_Some(1) [OF 1(6)] checked_add_Some(1) [OF 1(7)]
      by (simp add: provider_books_def Let_def 1(9))
  qed (auto simp: 1(9) is_active_provider_def stake_for_def)
qed

lemma provider_bond_less_books:
  assumes "books st" and "provider_bond_less F cfg origin p amount (cs, st) = Inr (cs', st')"
    and no_wrap: "unat amount + unat (MinProviderStake cfg) < 2 ^ 128"
  shows "books st'"
  using assms(2)
proof (cases rule: provider_bond_less_elim)
  case (1 who info pe u)
  have "is_active_provider st p" using 1(3,4) by (simp add: is_active_provider_def)
  note old = booksD [OF assms(1) this]
  have "unat amount \<le> unat (pe_bond pe)"
    using 1(7) no_wrap by (simp add: word_le_nat_alt unat_plus_fits)
  show ?thesis
  proof (rule books_step [OF assms(1), where q = p])
    have "delegators_of st' p = delegators_of st p" "stake_total st' p = stake_total st p"
      by (simp_all add: delegators_of_def stake_total_def stake_for_def 1(11))
    with old \<open>unat amount \<le> unat (pe_bond pe)\<close> show "provider_books st' p"
      by (simp add: provider_books_def Let_def 1(6,11) unat_saturating_sub)
  qed (auto simp: 1(11) is_active_provider_def stake_for_def)
qed

lemma delegate_books:
  assumes inv: "staking_inv st" and "books st" and ok: "staking_config_ok cfg"
    and call: "delegate F cfg origin p amount (cs, st) = Inr (cs', st')"
  shows "books st'"
  using call
proof (cases rule: delegate_elim)
  case (1 who d d' pe pe1 tot)
  note old = booksD [OF assms(2) 1(3)]
  have latest: "latest_staked_value d' = saturating_add (latest_staked_value d) amount"
    using dh.stake_law [OF staking_invD(2,3) [OF inv], of who p amount] 1(4,8) by auto
  have stake_old: "stake_for st who p = unat (latest_staked_value d)"
    by (simp add: stake_for_def 1(4))
  have "unat (latest_staked_value d) + unat amount < 2 ^ 128"
    using stake_le_total [of st who p] old checked_add_Some(2) [OF 1(11)] stake_old
    by (simp add: provider_books_def Let_def 1(5))
  then have stake_new: "stake_for st' who p = unat (latest_staked_value d) + unat amount"
    by (simp add: stake_for_def 1(13) latest unat_saturating_add)
  have others: "stake_for st' b p = stake_for st b p" if "b \<noteq> who" for b
    using that by (simp add: stake_for_def 1(13))
  have "0 < unat amount" using 1(2) by (simp add: unat_pos_iff)
  then have dels: "delegators_of st' p = insert who (delegators_of st p)"
    using delegators_change [of who st' p st, OF others] stake_new by simp
  have total: "stake_total st' p = stake_total st p + unat amount"
    using stake_total_change [of who st' p st, OF others] stake_new stake_old by simp
  have count: "unat (pe_delegator_count pe1) = card (delegators_of st' p)"
  proof (cases "latest_staked_value d = 0")
    case True
    then have "pe_delegator_count pe \<noteq> - 1"
      using 1(6) ok by (auto simp: staking_config_ok_def word_order.extremum_unique)
    moreover have "who \<notin> delegators_of st p" using True stake_old by (simp add: delegators_of_def)
    ultimately show ?thesis
      using True old dels unat_Suc_word [of "pe_delegator_count pe"]
      by (simp add: provider_books_def Let_def saturating_Suc 1(5,7))
  next
    case False
    then have "who \<in> delegators_of st p"
      using stake_old by (simp add: delegators_of_def unat_pos_iff)
    with False show ?thesis
      using old dels by (simp add: provider_books_def Let_def 1(5,7) insert_absorb)
  qed
  show ?thesis
  proof (rule books_step [OF assms(2), where q = p])
    show "provider_books st' p"
      using old count total checked_add_Some(1) [OF 1(11)]
      by (simp add: provider_books_def Let_def 1(13)) (simp add: 1(5,7))
  qed (auto simp: 1(13) is_active_provider_def stake_for_def)
qed

lemma delegator_unstake_books:
  assumes inv: "staking_inv st" and "books st" and ok: "staking_config_ok cfg"
    and call: "delegator_unstake F cfg origin p amount (cs, st) = Inr (cs', st')"
  shows "books st'"
  using call
proof (cases rule: delegator_unstake_elim)
  case (1 who d d' pe staked v full u)
  note old = booksD [OF assms(2) 1(3)]
  have min_stake: "MinDelegatorStake cfg \<noteq> 0" using ok by (simp add: staking_config_ok_def)
  have le: "unat v \<le> unat staked"
    by (rule unstake_amount_le [OF min_stake]) (use 1(8,9) in simp)
  have stake_old: "stake_for st who p = unat staked" by (simp add: stake_for_def 1(4,5))
  have stake_new: "stake_for st' who p = unat staked - unat v"
    using dh.unstake_law [OF staking_invD(2,3) [OF inv], of who p v] 1(4,5,11)
    by (auto simp: stake_for_def 1(16) unat_saturating_sub)
  have others: "stake_for st' b p = stake_for st b p" if "b \<noteq> who" for b
    using that by (simp add: stake_for_def 1(16))
  have left: "stake_for st' who p = 0 \<longleftrightarrow> full"
  proof (cases full)
    case False
    then have "MinDelegatorStake cfg \<le> saturating_sub staked amount" "v = amount"
      using 1(8,9) by (auto simp: not_less)
    then show ?thesis
      using False stake_new min_stake unat_pos_iff [of "MinDelegatorStake cfg"]
      by (simp add: word_le_nat_alt unat_saturating_sub)
  qed (use 1(9) stake_new in simp)
  have dels: "delegators_of st' p =
      (if full then delegators_of st p - {who} else delegators_of st p)"
  proof -
    have "who \<in> delegators_of st p" using stake_old 1(6) by (simp add: delegators_of_def unat_pos_iff)
    then show ?thesis
      using delegators_change [of who st' p st, OF others] left by (simp add: insert_absorb)
  qed
  have total: "stake_total st' p = stake_total st p - unat v"
    using stake_total_change [of who st' p st, OF others] stake_new stake_old le by simp
  have "who \<in> delegators_of st p" using stake_old 1(6) by (simp add: delegators_of_def unat_pos_iff)
  then have count: "unat (if full then saturating_sub (pe_delegator_count pe) 1 else pe_delegator_count pe)
      = card (delegators_of st' p)"
    using old dels by (simp add: provider_books_def Let_def 1(7) unat_saturating_sub card_Diff_singleton)
  show ?thesis
  proof (rule books_step [OF assms(2), where q = p])
    show "provider_books st' p"
      using old count total stake_le_total [of st who p] stake_old le
      by (simp add: provider_books_def Let_def 1(16) unat_saturating_sub) (simp add: 1(7))
  qed (auto simp: 1(16) is_active_provider_def stake_for_def)
qed

lemma claim_delegator_books:
  assumes inv: "staking_inv st" and "books st"
    and call: "claim_delegator F cfg origin p (cs, st) = Inr (cs', st')"
  shows "books st'"
  using call
proof (cases rule: claim_delegator_elim)
  case (1 who e staked d' info em reward i cs1)
  have stakes: "stake_for st' a q = stake_for st a q" for a q
    using claim_delegator_claim(3) [OF inv 1(2,3,6)] by (simp add: stake_for_def 1(11))
  show ?thesis
    unfolding books_def
    by (auto intro!: provider_books_cong [OF booksD [OF assms(2)]] simp: stakes)
      (auto simp: 1(11) is_active_provider_def)
qed

lemma claim_provider_books:
  assumes "books st" and "claim_provider F cfg origin p e (cs, st) = Inr (cs', st')"
  shows "books st'"
  using assms(2)
proof (cases rule: claim_provider_elim)
  case (1 info em reward i cs1)
  then show ?thesis
    unfolding books_def
    by (auto intro!: provider_books_cong [OF booksD [OF assms(1)]] simp: is_active_provider_def
        stake_for_def)
qed

lemma delegator_withdraw_unregistered_books:
  assumes "books st" and "delegator_withdraw_unregistered F cfg origin p (cs, st) = Inr (cs', st')"
  shows "books st'"
  using assms(2)
proof (cases rule: delegator_withdraw_unregistered_elim)
  case (1 who info u rest)
  show ?thesis
    by (rule books_step [OF assms(1), where q = p])
      (auto simp: 1(2,3,8) is_active_provider_def stake_for_def)
qed

lemma register_provider_books:
  assumes inv: "staking_inv st" and "books st"
    and call: "register_provider F cfg a p bond (cs, st) = Inr (cs', st')"
  shows "books st'"
  using call
proof (cases rule: register_provider_elim)
  case (1 em)
  have none: "stake_for st' b p = 0" for b
    using unknown_provider_no_stake [OF inv 1(1), of b]
    by (simp add: stake_for_def 1(5) delegation_of_def)
  show ?thesis
  proof (rule books_step [OF assms(2), where q = p])
    show "provider_books st' p"
      using none by (simp add: provider_books_def delegators_of_def stake_total_def)
        (simp add: 1(5) provider_era_or_default_def current_era_def)
  qed (auto simp: 1(5) is_active_provider_def stake_for_def current_era_def delegation_of_def
      provider_era_or_default_def split: if_splits)
qed

lemma unregister_provider_books:
  assumes "books st" and "unregister_provider p (cs, st) = Inr (cs', st')"
  shows "books st'"
  using assms(2)
proof (cases rule: unregister_provider_elim)
  case (1 info)
  show ?thesis
    by (rule books_step [OF assms(1), where q = p])
      (auto simp: 1(4) is_active_provider_def stake_for_def current_era_def delegation_of_def
        provider_era_or_default_def split: if_splits)
qed

lemma on_initialize_books:
  assumes inv: "staking_inv st" and "books st"
  shows "books (snd (staking_on_initialize F cfg n st))"
proof (cases "should_update (era st) n")
  case True
  define st' where "st' = snd (staking_on_initialize F cfg n st)"
  note acc = on_initialize_access [OF True staking_invD(1) [OF inv] st'_def [symmetric]]
  have "provider_books st' p" if "is_active_provider st' p" for p
  proof -
    have act: "is_active_provider st p" using that by (simp add: is_active_provider_def acc(3))
    then obtain info where "sget (provider_info st) p = Some info" "pm_status info = Active"
      by (rule is_active_providerD)
    then obtain pe where pe: "sget (provider_era_info st) (p, current_era st) = Some pe"
      using staking_invD(6) [OF inv] by (fastforce simp: skeys_iff)
    have "\<exists>flag. provider_era_or_default st' p (current_era st') =
        (provider_era_or_default st p (current_era st))\<lparr>pe_reward_claimed := flag\<rparr>"
      using act pe by (cases "current_era st = - 1")
        (auto simp: provider_era_or_default_def get_or_def acc(1,9) saturating_Suc
          intro!: exI [of _ "current_era st = - 1 \<and> pe_reward_claimed pe"])
    then show ?thesis
      by (intro provider_books_cong [OF booksD [OF assms(2) act]])
        (auto simp: stake_for_def acc(6))
  qed
  then show ?thesis by (simp add: books_def st'_def)
qed (use assms(2) in \<open>simp add: on_initialize_idle\<close>)

text \<open>The remaining entry points leave everything the books mention alone.\<close>

lemma books_same:
  assumes "books st" and "\<And>p. is_active_provider st' p \<Longrightarrow> is_active_provider st p"
    and "current_era st' = current_era st"
    and "provider_era_or_default st' = provider_era_or_default st"
    and "delegation_of st' = delegation_of st"
  shows "books st'"
  using assms by (auto simp: books_def stake_for_def intro!: provider_books_cong [OF booksD])

lemma staking_exec_books:
  assumes inv: "staking_inv st" and bk: "books st"
    and ok: "staking_config_ok cfg" "bond_sum_fits cfg c"
    and exec: "staking_exec F cfg c (cs, st) = Inr (cs', st')"
  shows "books st'"
proof (cases c)
  case (ProviderBondLess o' p v)
  with exec ok(2) show ?thesis
    by (auto simp: bond_sum_fits_def intro: provider_bond_less_books [OF bk])
next
  case (SetBlocksPerEra o' n)
  with exec show ?thesis
    by (auto elim!: set_blocks_per_era_elim intro!: books_same [OF bk]
        simp: is_active_provider_def current_era_def provider_era_or_default_def delegation_of_def fun_eq_iff)
next
  case (WithdrawUnbonded o')
  with exec show ?thesis
    by (auto elim!: withdraw_unbonded_elim intro!: books_same [OF bk] simp: is_active_provider_def)
next
  case (ProviderWithdrawUnregistered o' p)
  with exec show ?thesis
    by (auto elim!: provider_withdraw_unregistered_elim intro!: books_same [OF bk]
        simp: is_active_provider_def current_era_def provider_era_or_default_def delegation_of_def fun_eq_iff
        split: if_splits)
next
  case (HandleImbalance i)
  with exec show ?thesis
    by (auto simp: handle_imbalance_def intro!: books_same [OF bk])
      (auto simp: is_active_provider_def current_era_def provider_era_or_default_def delegation_of_def fun_eq_iff)
next
  case (OnInitialize n)
  with exec on_initialize_books [OF inv bk] show ?thesis by auto
qed (use exec ok(1) in \<open>auto intro: provider_bond_more_books [OF bk] delegate_books [OF inv bk]
    delegator_unstake_books [OF inv bk] claim_provider_books [OF bk] claim_delegator_books [OF inv bk]
    delegator_withdraw_unregistered_books [OF bk] register_provider_books [OF inv bk]
    unregister_provider_books [OF bk]\<close>)

lemma books_genesis: "books staking_genesis"
  by (simp add: books_def is_active_provider_def staking_genesis_def)

lemma staking_run_books:
  assumes "staking_run F cfg allowed s s'" and "\<And>t c. allowed t c \<Longrightarrow> bond_sum_fits cfg c"
    and "staking_config_ok cfg" and "staking_inv (snd s)" and "books (snd s)"
  shows "books (snd s')"
proof -
  have "staking_inv (snd s') \<and> books (snd s')"
    using assms(1)
  proof (rule staking_run_induct_exec [where P = "\<lambda>s. staking_inv (snd s) \<and> books (snd s)"])
    fix t c t'
    assume "staking_inv (snd t) \<and> books (snd t)" and "allowed t c" and "staking_exec F cfg c t = Inr t'"
    with assms(2,3) show "staking_inv (snd t') \<and> books (snd t')"
      using staking_exec_inv [of t F cfg c t']
        staking_exec_books [of "snd t" cfg c F "fst t" "fst t'" "snd t'"] by simp
  qed (use assms in simp)
  then show ?thesis ..
qed

section \<open>The total of an era\<close>

definition active_providers :: "('ac, 'pid) staking_state \<Rightarrow> 'pid set" where
  "active_providers st = {p. is_active_provider st p}"

definition era_total :: "('ac, 'pid) staking_state \<Rightarrow> 'pid \<Rightarrow> nat" where
  "era_total st p = unat (pe_total (provider_era_or_default st p (current_era st)))"

definition total_active :: "('ac, 'pid) staking_state \<Rightarrow> nat" where
  "total_active st = (\<Sum>p \<in> active_providers st. era_total st p)"

definition era_staked :: "('ac, 'pid) staking_state \<Rightarrow> nat" where
  "era_staked st = unat (em_staked (get_or EraMetadata_default (era_state st) (current_era st)))"

definition era_books :: "('ac, 'pid) staking_state \<Rightarrow> bool" where
  "era_books st \<longleftrightarrow> era_staked st = total_active st \<and>
     (active_providers st \<noteq> {} \<longrightarrow> current_era st \<in> skeys (era_state st))"

lemma active_in_keys: "active_providers st \<subseteq> skeys (provider_info st)"
  by (auto simp: active_providers_def dest: active_key)

lemma finite_active [simp]: "finite (active_providers st)"
  by (rule finite_subset [OF active_in_keys]) simp

lemma era_total_le: "is_active_provider st p \<Longrightarrow> era_total st p \<le> total_active st"
  unfolding total_active_def
  by (rule sum_member_le) (simp, simp add: active_providers_def)

text \<open>Every stake and every bond of an active provider is owed to somebody.\<close>

lemma total_active_le_owed:
  assumes inv: "staking_inv st" and bk: "books st" and fin: "finite A"
    and owners: "\<And>p info. sget (provider_info st) p = Some info \<Longrightarrow> pm_owner info \<in> A"
    and dels: "\<And>p. delegators_of st p \<subseteq> A"
  shows "total_active st \<le> (\<Sum>a \<in> A. owed st a)"
proof -
  have each: "era_total st p = (\<Sum>a \<in> A. bond_for st a p) + (\<Sum>a \<in> A. stake_for st a p)"
    if act: "is_active_provider st p" for p
  proof -
    obtain info where info: "sget (provider_info st) p = Some info" "pm_status info = Active"
      using is_active_providerD [OF act] .
    have "(\<Sum>a \<in> A. bond_for st a p) = (\<Sum>a \<in> {pm_owner info}. bond_for st a p)"
      using owners [OF info(1)] fin bond_for_active [OF inv info]
      by (intro sum.mono_neutral_right) auto
    moreover have "(\<Sum>a \<in> A. stake_for st a p) = stake_total st p"
      unfolding stake_total_def using fin dels [of p]
      by (intro sum.mono_neutral_right) (auto simp: delegators_of_def)
    ultimately show ?thesis
      using booksD [OF bk act] bond_for_active [OF inv info]
      by (simp add: provider_books_def Let_def era_total_def)
  qed
  have "total_active st \<le> (\<Sum>p \<in> skeys (provider_info st).
      (\<Sum>a \<in> A. bond_for st a p) + (\<Sum>a \<in> A. stake_for st a p))"
  proof -
    have "total_active st = (\<Sum>p \<in> active_providers st.
        (\<Sum>a \<in> A. bond_for st a p) + (\<Sum>a \<in> A. stake_for st a p))"
      unfolding total_active_def by (rule sum.cong) (simp_all add: each active_providers_def)
    also have "\<dots> \<le> (\<Sum>p \<in> skeys (provider_info st).
        (\<Sum>a \<in> A. bond_for st a p) + (\<Sum>a \<in> A. stake_for st a p))"
      by (rule sum_mono2 [OF finite_skeys active_in_keys]) simp
    finally show ?thesis .
  qed
  also have "\<dots> = (\<Sum>a \<in> A. (\<Sum>p \<in> skeys (provider_info st). bond_for st a p)) +
      (\<Sum>a \<in> A. (\<Sum>p \<in> skeys (provider_info st). stake_for st a p))"
    by (simp add: sum.distrib sum.swap [of _ A])
  also have "\<dots> \<le> (\<Sum>a \<in> A. owed st a)"
    unfolding owed_def by (simp add: sum.distrib)
  finally show ?thesis .
qed

text \<open>The reserves of any accounts together fit the balance type: they are part of the issuance.\<close>

definition issuance_bounded :: "('ac, 'cs, 'o) frame \<Rightarrow> 'cs \<Rightarrow> bool" where
  "issuance_bounded F cs \<longleftrightarrow>
     (\<forall>A. finite A \<longrightarrow> (\<Sum>a \<in> A. unat (reserved_balance F cs a)) < 2 ^ 128)"

lemma total_active_bounded:
  assumes inv: "staking_inv st" and bk: "books st" and solv: "solvent F (cs, st)"
    and bound: "issuance_bounded F cs"
  shows "total_active st < 2 ^ 128"
proof -
  let ?A = "(\<lambda>p. pm_owner (the (sget (provider_info st) p))) ` skeys (provider_info st) \<union>
    fst ` skeys (delegation_info st)"
  have "total_active st \<le> (\<Sum>a \<in> ?A. owed st a)"
  proof (rule total_active_le_owed [OF inv bk])
    show "delegators_of st p \<subseteq> ?A" for p
      using delegators_keys [of st p] by (rule subset_trans) simp
    show "pm_owner info \<in> ?A" if "sget (provider_info st) p = Some info" for p info
    proof (rule UnI1, rule image_eqI)
      show "pm_owner info = pm_owner (the (sget (provider_info st) p))" using that by simp
      show "p \<in> skeys (provider_info st)" using that by (simp add: skeys_iff)
    qed
  qed simp
  also have "\<dots> \<le> (\<Sum>a \<in> ?A. unat (reserved_balance F cs a))"
    using solv by (intro sum_mono) (simp add: solvent_def)
  also have "\<dots> < 2 ^ 128"
    using bound unfolding issuance_bounded_def by (rule allE [of _ ?A]) simp
  finally show ?thesis .
qed

text \<open>One provider's total grows or shrinks by \<open>v\<close> and so does the era's.\<close>

lemma total_active_change:
  assumes "is_active_provider st q" and "active_providers st' = active_providers st"
    and "\<And>p. p \<noteq> q \<Longrightarrow> era_total st' p = era_total st p"
  shows "total_active st' + era_total st q = total_active st + era_total st' q"
  unfolding total_active_def assms(2)
proof (rule sum_change_one [of _ q "era_total st'" "era_total st"])
  show "q \<in> active_providers st" using assms(1) by (simp add: active_providers_def)
qed (simp, rule assms(3))

lemma era_books_add:
  assumes "era_books st" and "is_active_provider st q" and "active_providers st' = active_providers st"
    and "\<And>p. p \<noteq> q \<Longrightarrow> era_total st' p = era_total st p"
    and "era_total st' q = era_total st q + unat v"
    and "current_era st' = current_era st"
    and "era_state st' = era_state (era_staked_add (current_era st) v st)"
    and "total_active st' < 2 ^ 128"
  shows "era_books st'"
proof -
  have key: "current_era st \<in> skeys (era_state st)"
    using assms(1,2) by (auto simp: era_books_def active_providers_def)
  then obtain em where em: "sget (era_state st) (current_era st) = Some em" by (auto simp: skeys_iff)
  have total: "total_active st' = total_active st + unat v"
    using total_active_change [OF assms(2-4)] assms(5) by simp
  have "era_staked st' = total_active st'"
    using assms(1,8) em total
    by (simp add: era_books_def era_staked_def assms(6,7) era_staked_add_def get_or_def unat_saturating_add)
  moreover have "current_era st' \<in> skeys (era_state st')"
    using em by (simp add: skeys_iff assms(6,7) era_staked_add_def)
  ultimately show ?thesis by (simp add: era_books_def)
qed

lemma era_books_sub:
  assumes "era_books st" and "is_active_provider st q" and "active_providers st' = active_providers st"
    and "\<And>p. p \<noteq> q \<Longrightarrow> era_total st' p = era_total st p"
    and "era_total st q = era_total st' q + unat v"
    and "current_era st' = current_era st"
    and "era_state st' = era_state (era_staked_sub (current_era st) v st)"
  shows "era_books st'"
proof -
  have key: "current_era st \<in> skeys (era_state st)"
    using assms(1,2) by (auto simp: era_books_def active_providers_def)
  then obtain em where em: "sget (era_state st) (current_era st) = Some em" by (auto simp: skeys_iff)
  have total: "total_active st = total_active st' + unat v"
    using total_active_change [OF assms(2-4)] assms(5) by simp
  have "era_staked st' = total_active st'"
    using assms(1) em total
    by (simp add: era_books_def era_staked_def assms(6,7) era_staked_sub_def get_or_def unat_saturating_sub)
  moreover have "current_era st' \<in> skeys (era_state st')"
    using em by (simp add: skeys_iff assms(6,7) era_staked_sub_def)
  ultimately show ?thesis by (simp add: era_books_def)
qed

lemma era_books_same:
  assumes "era_books st" and "active_providers st' = active_providers st"
    and "\<And>p. era_total st' p = era_total st p"
    and "current_era st' = current_era st" and "era_state st' = era_state st"
  shows "era_books st'"
  using assms by (simp add: era_books_def era_staked_def total_active_def)

lemma active_providers_cong:
  "provider_info st' = provider_info st \<Longrightarrow> active_providers st' = active_providers st"
  by (simp add: active_providers_def is_active_provider_def)

lemma provider_bond_more_era:
  assumes "era_books st" and "provider_bond_more F origin p amount (cs, st) = Inr (cs', st')"
    and "total_active st' < 2 ^ 128"
  shows "era_books st'"
  using assms(2)
proof (cases rule: provider_bond_more_elim)
  case (1 who info bond tot)
  show ?thesis
    by (rule era_books_add [OF assms(1), of p _ amount])
      (use 1(3,4) checked_add_Some(1) [OF 1(7)] assms(3) in
        \<open>auto simp: 1(9) is_active_provider_def era_total_def intro!: active_providers_cong\<close>)
qed

lemma provider_bond_less_era:
  assumes "era_books st" and "books st"
    and "provider_bond_less F cfg origin p amount (cs, st) = Inr (cs', st')"
    and no_wrap: "unat amount + unat (MinProviderStake cfg) < 2 ^ 128"
  shows "era_books st'"
  using assms(3)
proof (cases rule: provider_bond_less_elim)
  case (1 who info pe u)
  have act: "is_active_provider st p" using 1(3,4) by (simp add: is_active_provider_def)
  have "unat amount \<le> unat (pe_bond pe)"
    using 1(7) no_wrap by (simp add: word_le_nat_alt unat_plus_fits)
  then have "unat amount \<le> unat (pe_total pe)"
    using booksD [OF assms(2) act] by (simp add: provider_books_def Let_def 1(6))
  then show ?thesis
    by (intro era_books_sub [OF assms(1) act, of _ amount])
      (auto simp: 1(11) era_total_def unat_saturating_sub 1(6) intro!: active_providers_cong,
        simp add: era_staked_sub_def)
qed

lemma delegate_era:
  assumes "era_books st" and "delegate F cfg origin p amount (cs, st) = Inr (cs', st')"
    and "total_active st' < 2 ^ 128"
  shows "era_books st'"
  using assms(2)
proof (cases rule: delegate_elim)
  case (1 who d d' pe pe1 tot)
  show ?thesis
    by (rule era_books_add [OF assms(1) 1(3), of _ amount])
      (use checked_add_Some(1) [OF 1(11)] assms(3) in
        \<open>auto simp: 1(5,13) era_total_def intro!: active_providers_cong\<close>)
qed

lemma delegator_unstake_era:
  assumes "era_books st" and "books st" and ok: "staking_config_ok cfg"
    and "delegator_unstake F cfg origin p amount (cs, st) = Inr (cs', st')"
  shows "era_books st'"
  using assms(4)
proof (cases rule: delegator_unstake_elim)
  case (1 who d d' pe staked v full u)
  have "unat v \<le> unat staked"
    by (rule unstake_amount_le [of "MinDelegatorStake cfg"])
      (use 1(8,9) ok in \<open>simp_all add: staking_config_ok_def\<close>)
  moreover have "unat staked \<le> stake_total st p"
    using stake_le_total [of st who p] by (simp add: stake_for_def 1(4,5))
  ultimately have "unat v \<le> unat (pe_total pe)"
    using booksD [OF assms(2) 1(3)] by (simp add: provider_books_def Let_def 1(7))
  then show ?thesis
    by (intro era_books_sub [OF assms(1) 1(3), of _ v])
      (auto simp: 1(16) era_total_def unat_saturating_sub 1(7) intro!: active_providers_cong,
        simp add: era_staked_sub_def)
qed

lemma unregister_provider_era:
  assumes "era_books st" and "unregister_provider p (cs, st) = Inr (cs', st')"
  shows "era_books st'"
  using assms(2)
proof (cases rule: unregister_provider_elim)
  case (1 info)
  have act: "is_active_provider st p" using 1(1,2) by (simp add: is_active_provider_def)
  have set: "active_providers st' = active_providers st - {p}"
    by (auto simp: active_providers_def is_active_provider_def 1(4) split: if_splits)
  have same: "current_era st' = current_era st" "era_total st' q = era_total st q" for q
    by (simp_all add: 1(4) era_total_def provider_era_or_default_def current_era_def)
  have state: "era_state st' = smutate (current_era st) (\<lambda>x. x\<lparr>em_staked := saturating_sub (em_staked x)
      (pe_total (provider_era_or_default st p (current_era st)))\<rparr>) (era_state st)"
    by (simp add: 1(4) era_staked_sub_def)
  have "p \<in> active_providers st" using act by (simp add: active_providers_def)
  then have total: "total_active st = total_active st' + era_total st p"
    unfolding total_active_def set using sum.remove [OF finite_active, of p st "era_total st"]
    by (simp add: same)
  obtain em where em: "sget (era_state st) (current_era st) = Some em"
    using assms(1) \<open>p \<in> active_providers st\<close> by (auto simp: era_books_def skeys_iff)
  then have "era_staked st' = total_active st'"
    using assms(1) total
    by (simp add: era_books_def era_staked_def same(1) state get_or_def unat_saturating_sub era_total_def)
  moreover have "current_era st' \<in> skeys (era_state st')"
    using em by (simp add: skeys_iff same(1) state)
  ultimately show ?thesis by (simp add: era_books_def)
qed

lemma register_provider_era:
  assumes "era_books st" and "register_provider F cfg a p bond (cs, st) = Inr (cs', st')"
    and "total_active st' < 2 ^ 128"
  shows "era_books st'"
  using assms(2)
proof (cases rule: register_provider_elim)
  case (1 em)
  have set: "active_providers st' = insert p (active_providers st)" and "p \<notin> active_providers st"
    by (auto simp: active_providers_def is_active_provider_def 1(1,5) ProviderMetadata_new_def
        split: if_splits)
  have era': "current_era st' = current_era st" by (simp add: 1(5) current_era_def)
  have state: "era_state st' = sinsert (current_era st)
      (em\<lparr>em_staked := saturating_add (em_staked em) bond\<rparr>) (era_state st)"
    by (simp add: 1(5))
  have entry: "provider_era_info st' = sinsert (p, current_era st)
      \<lparr>pe_bond = bond, pe_total = bond, pe_delegator_count = 0, pe_reward_claimed = False\<rparr>
      (provider_era_info st)"
    by (simp add: 1(5))
  have each: "era_total st' q = (if q = p then unat bond else era_total st q)" for q
    by (simp add: era_total_def provider_era_or_default_def era' entry)
  have "sum (era_total st') (active_providers st) = sum (era_total st) (active_providers st)"
    using \<open>p \<notin> active_providers st\<close> by (intro sum.cong) (auto simp: each)
  then have total: "total_active st' = unat bond + total_active st"
    unfolding total_active_def set using \<open>p \<notin> active_providers st\<close> by (simp add: each)
  have "era_staked st' = min (era_staked st + unat bond) (2 ^ 128 - 1)"
    by (simp add: era_staked_def era' state unat_saturating_add 1(4))
  with assms(1,3) total have "era_staked st' = total_active st'" by (simp add: era_books_def)
  moreover have "current_era st' \<in> skeys (era_state st')" by (simp add: era' state)
  ultimately show ?thesis by (simp add: era_books_def)
qed

lemma on_initialize_era_books:
  assumes inv: "staking_inv st" and "era_books st"
  shows "era_books (snd (staking_on_initialize F cfg n st))"
proof (cases "should_update (era st) n")
  case True
  define st' where "st' = snd (staking_on_initialize F cfg n st)"
  note acc = on_initialize_access [OF True staking_invD(1) [OF inv] st'_def [symmetric]]
  have set: "active_providers st' = active_providers st" by (rule active_providers_cong) (rule acc(3))
  have each: "era_total st' p = era_total st p" if "p \<in> active_providers st" for p
  proof -
    have act: "is_active_provider st p" using that by (simp add: active_providers_def)
    then obtain info where "sget (provider_info st) p = Some info" "pm_status info = Active"
      by (rule is_active_providerD)
    then obtain pe where "sget (provider_era_info st) (p, current_era st) = Some pe"
      using staking_invD(6) [OF inv] by (fastforce simp: skeys_iff)
    with act show ?thesis
      by (cases "current_era st = - 1")
        (simp_all add: era_total_def provider_era_or_default_def get_or_def acc(1,9) saturating_Suc)
  qed
  then have "total_active st' = total_active st" by (simp add: total_active_def set)
  moreover have "era_staked st' = era_staked st" and "current_era st' \<in> skeys (era_state st')"
    by (cases "current_era st = - 1";
        simp add: era_staked_def skeys_iff get_or_def acc(1,10) saturating_Suc)+
  ultimately show ?thesis using assms(2) by (simp add: era_books_def st'_def [symmetric])
qed (use assms(2) in \<open>simp add: on_initialize_idle\<close>)

lemma staking_exec_era_books:
  assumes inv: "staking_inv st" and bk: "books st" and era_bk: "era_books st"
    and ok: "staking_config_ok cfg" "bond_sum_fits cfg c"
    and exec: "staking_exec F cfg c (cs, st) = Inr (cs', st')" and "total_active st' < 2 ^ 128"
  shows "era_books st'"
proof (cases c)
  case (ProviderBondLess o' p v)
  with exec ok(2) show ?thesis
    by (auto simp: bond_sum_fits_def intro: provider_bond_less_era [OF era_bk bk])
next
  case (SetBlocksPerEra o' n)
  with exec show ?thesis
    by (auto elim!: set_blocks_per_era_elim intro!: era_books_same [OF era_bk] active_providers_cong
        simp: current_era_def provider_era_or_default_def era_total_def)
next
  case (WithdrawUnbonded o')
  with exec show ?thesis
    by (auto elim!: withdraw_unbonded_elim intro!: era_books_same [OF era_bk] active_providers_cong
        simp: era_total_def)
next
  case (ProviderWithdrawUnregistered o' p)
  with exec show ?thesis
    by (auto elim!: provider_withdraw_unregistered_elim intro!: era_books_same [OF era_bk]
        simp: active_providers_def is_active_provider_def current_era_def provider_era_or_default_def
          era_total_def split: if_splits)
next
  case (DelegatorWithdrawUnregistered o' p)
  with exec show ?thesis
    by (auto elim!: delegator_withdraw_unregistered_elim intro!: era_books_same [OF era_bk]
        active_providers_cong simp: era_total_def)
next
  case (ClaimDelegator o' p)
  with exec show ?thesis
    by (auto elim!: claim_delegator_elim intro!: era_books_same [OF era_bk] active_providers_cong
        simp: era_total_def)
next
  case (ClaimProvider o' p e)
  with exec show ?thesis
    by (auto elim!: claim_provider_elim intro!: era_books_same [OF era_bk] active_providers_cong
        simp: era_total_def)
next
  case (HandleImbalance i)
  with exec show ?thesis
    by (auto simp: handle_imbalance_def intro!: era_books_same [OF era_bk] active_providers_cong)
      (auto simp: current_era_def provider_era_or_default_def era_total_def)
next
  case (OnInitialize n)
  with exec on_initialize_era_books [OF inv era_bk] show ?thesis by auto
qed (use exec ok(1) assms(7) in \<open>auto intro: provider_bond_more_era [OF era_bk] delegate_era [OF era_bk]
    delegator_unstake_era [OF era_bk bk] register_provider_era [OF era_bk]
    unregister_provider_era [OF era_bk]\<close>)

lemma era_books_genesis: "era_books staking_genesis"
  by (simp add: era_books_def era_staked_def total_active_def active_providers_def
      is_active_provider_def staking_genesis_def EraMetadata_default_def)

text \<open>Along a run in which the reserves always fit the balance type and no sum of a \<^verbatim>\<open>provider_bond_less\<close>
  wraps around.\<close>

definition bounded_call ::
    "('ac, 'cs, 'o) frame \<Rightarrow> 'ac staking_config \<Rightarrow> 'cs \<times> ('ac, 'pid) staking_state \<Rightarrow>
     ('ac, 'pid, 'o) staking_call \<Rightarrow> bool" where
  "bounded_call F cfg s c \<longleftrightarrow>
     bond_sum_fits cfg c \<and> issuance_bounded F (fst (staking_apply F cfg c s))"

lemma staking_run_all_books:
  assumes cur: "currency_ok F" and ok: "staking_config_ok cfg"
    and run: "staking_run F cfg (bounded_call F cfg) s s'"
    and start: "staking_inv (snd s)" "solvent F s" "books (snd s)" "era_books (snd s)"
  shows "books (snd s') \<and> era_books (snd s')"
proof -
  have "staking_inv (snd s') \<and> solvent F s' \<and> books (snd s') \<and> era_books (snd s')"
    using run
  proof (rule staking_run_induct_exec [where
        P = "\<lambda>s. staking_inv (snd s) \<and> solvent F s \<and> books (snd s) \<and> era_books (snd s)"])
    fix t c t'
    assume t: "staking_inv (snd t) \<and> solvent F t \<and> books (snd t) \<and> era_books (snd t)"
      and allowed: "bounded_call F cfg t c" and exec: "staking_exec F cfg c t = Inr t'"
    obtain cs st cs' st' where s: "t = (cs, st)" "t' = (cs', st')" by (cases t, cases t')
    have fits: "bond_sum_fits cfg c" and bound: "issuance_bounded F cs'"
      using allowed exec s by (auto simp: bounded_call_def staking_apply_def)
    have inv': "staking_inv st'" using staking_exec_inv [of t F cfg c t'] t exec s by simp
    have bk': "books st'"
      by (rule staking_exec_books [OF _ _ ok fits]) (use t exec s in auto)
    have "balanced_step F (cs, st) (cs', st')"
      by (rule staking_exec_balanced [OF cur _ _ _ fits])
        (use t exec s ok in \<open>auto simp: staking_config_ok_def\<close>)
    then have solv': "solvent F (cs', st')"
      using balanced_step_solvent [of F "(cs, st)"] t s by simp
    have "era_books st'"
      by (rule staking_exec_era_books [OF _ _ _ ok fits _ total_active_bounded [OF inv' bk' solv' bound]])
        (use t exec s in auto)
    with inv' bk' solv' s
    show "staking_inv (snd t') \<and> solvent F t' \<and> books (snd t') \<and> era_books (snd t')" by simp
  qed (use start in simp)
  then show ?thesis by blast
qed

end
