(* ===== verification/Staking_Props.thy ===== *)
theory Staking_Props
  imports Staking_Books
begin

text \<open>
  The correctness theorems of the staking pallet over whole runs from genesis, with a concrete run
  on the ledger of \<open>Frame\<close> as witness, and the runs that show where the code falls short of its
  intention.
\<close>

section \<open>Concrete runs\<close>

lemma staking_run_foldl:
  assumes "list_all ok cs"
  shows "staking_run F cfg (\<lambda>_. ok) s (foldl (\<lambda>s c. staking_apply F cfg c s) s cs)"
  using assms
proof (induction cs rule: rev_induct)
  case (snoc c cs)
  then show ?case by (auto intro: staking_run.intros)
qed (auto intro: staking_run.intros)

lemma exec_apply:
  "\<not> isl (staking_exec F cfg c s) \<Longrightarrow> staking_exec F cfg c s = Inr (staking_apply F cfg c s)"
  by (cases "staking_exec F cfg c s") (simp_all add: staking_apply_def)

definition demo_config :: "nat staking_config" where
  "demo_config = \<lparr>DefaultBlocksPerEra = 10, ProviderRewardsPercentage = 800000000,
     MinProviderStake = 100, MaxDelegatorsPerProvider = 1, MinDelegatorStake = 5,
     MaxEraStakeValues = 10, UnbondingPeriod = 2, MaxUnlockingChunks = 5, pot = 99\<rparr>"

definition demo_ledger :: ledger where
  "demo_ledger = \<lparr>l_free = [(1, 1000), (2, 1000), (3, 1000), (99, 10000)], l_reserved = []\<rparr>"

definition demo_run ::
    "(nat, nat, nat option) staking_call list \<Rightarrow> ledger \<times> (nat, nat) staking_state" where
  "demo_run cs =
     foldl (\<lambda>s c. staking_apply ledger_frame demo_config c s) (demo_ledger, staking_genesis) cs"

declare staking_genesis_def [code_unfold]

text \<open>Register, delegate, a reward, the next era, unstake, two eras to wait.\<close>

definition demo_calls :: "(nat, nat, nat option) staking_call list" where
  "demo_calls = [OnInitialize 1, RegisterProvider 1 7 300, Delegate (Some 2) 7 100,
     HandleImbalance 50, OnInitialize 11, DelegatorUnstake (Some 2) 7 40]"

lemma demo_allowed: "list_all (staking_call_ok demo_config) demo_calls"
  by (simp add: demo_calls_def staking_call_ok_def demo_config_def bond_sum_fits_def)

lemma demo_reserved: "reserved_balance ledger_frame (fst (demo_run demo_calls)) 2 = 100"
  by code_simp

lemma demo_staking_run:
  "list_all (staking_call_ok demo_config) cs \<Longrightarrow>
   staking_run ledger_frame demo_config (\<lambda>_. staking_call_ok demo_config)
     (demo_ledger, staking_genesis) (demo_run cs)"
  unfolding demo_run_def by (rule staking_run_foldl)

section \<open>The reserve covers what is owed\<close>

text \<open>C2: In every state the pallet can reach from genesis, what its storage says it owes an account
  (bonds of the providers it owns, stakes it delegated, unlocking chunks) is covered by the
  account's reserved balance, so that no \<^verbatim>\<open>unreserve\<close> of the pallet ever comes up short. The run
  may take any entry points in any order with any arguments, as long as the sum in the check of
  \<^verbatim>\<open>provider_bond_less\<close> does not wrap around (the code accepts such a call; \<open>bond_less_wraps\<close> shows that
  it breaks this) and the minimum stake is positive.\<close>

theorem staking_always_solvent:
  assumes "currency_ok F"
    and "staking_run F cfg (\<lambda>_. staking_call_ok cfg) (cs, staking_genesis) (cs', st)"
  shows "owed st a \<le> unat (reserved_balance F cs' a)"
proof -
  have "solvent F (cs', st)"
    by (rule staking_run_solvent [OF assms]) (simp_all add: staking_inv_genesis solvent_genesis)
  then show ?thesis by (simp add: solvent_def)
qed

theorem staking_always_solvent_witness:
  "owed (snd (demo_run demo_calls)) 2 \<le> 100"
  using staking_always_solvent [OF ledger_currency_ok, of demo_config demo_ledger
      "fst (demo_run demo_calls)" "snd (demo_run demo_calls)" 2]
    demo_staking_run [OF demo_allowed] demo_reserved by simp

text \<open>C3: From a state with the pallet's invariant whose reserves cover what is owed, every successful
  entry point, other than a \<^verbatim>\<open>provider_bond_less\<close> whose sum wraps around, changes an account's reserve by
  exactly as much as it changes what is owed to that account: deposits are neither created nor lost.
  (The minimum stake is positive.)\<close>

theorem staking_step_conserves:
  assumes "currency_ok F" and "staking_inv st" and "solvent F (cs, st)" and "staking_call_ok cfg c"
    and "staking_exec F cfg c (cs, st) = Inr (cs', st')"
  shows "int (owed st' a) - int (owed st a) =
    int (unat (reserved_balance F cs' a)) - int (unat (reserved_balance F cs a))"
proof -
  have "balanced_step F (cs, st) (cs', st')"
    by (rule staking_exec_balanced [OF assms(1-3) _ _ assms(5)])
      (use assms(4) in \<open>simp_all add: staking_call_ok_def\<close>)
  then have "owed st' a + unat (reserved_balance F cs a) = owed st a + unat (reserved_balance F cs' a)"
    by (simp add: balanced_step_def)
  then show ?thesis by linarith
qed

theorem staking_step_conserves_witness:
  "int (owed (snd (demo_run [RegisterProvider 1 7 300])) 1) - int (owed (staking_genesis :: (nat, nat) staking_state) 1)
     = 300"
proof -
  let ?s = "demo_run [RegisterProvider 1 7 300]"
  have "\<not> isl (staking_exec ledger_frame demo_config (RegisterProvider 1 (7 :: nat) 300)
      (demo_ledger, staking_genesis))"
    by code_simp
  from exec_apply [OF this]
  have exec: "staking_exec ledger_frame demo_config (RegisterProvider 1 7 300)
      (demo_ledger, staking_genesis) = Inr (fst ?s, snd ?s)"
    by (simp only: demo_run_def foldl.simps prod.collapse)
  have ok: "staking_call_ok demo_config (RegisterProvider 1 (7 :: nat) 300)"
    by (simp add: staking_call_ok_def demo_config_def bond_sum_fits_def)
  have "reserved_balance ledger_frame (fst ?s) 1 = 300"
    and "reserved_balance ledger_frame demo_ledger 1 = 0" by code_simp+
  with staking_step_conserves [OF ledger_currency_ok staking_inv_genesis solvent_genesis ok exec, of 1]
  show ?thesis by simp
qed

section \<open>No reward is paid twice\<close>

lemma any_run_inv:
  "staking_run F cfg allowed (cs, staking_genesis) (cs', st) \<Longrightarrow> staking_inv st"
  using staking_run_inv [of F cfg allowed "(cs, staking_genesis)" "(cs', st)"] staking_inv_genesis by simp

lemma claim_delegator_event:
  assumes "claim_delegator F cfg origin p (cs, st) = Inr (cs', st')" and "ensure_signed F origin = Some a"
  shows "\<exists>r. last (staking_events st') = Payout a p (fst (fst (claim (delegation_of st a p)))) r"
  using assms by (auto elim!: claim_delegator_elim simp: staking_deposit_event_def)

text \<open>C4: A delegator is paid at most once for an era: if it claims successfully twice, with any
  calls and blocks in between, the second payout is for a strictly later era than the first.\<close>

theorem delegator_never_paid_twice:
  assumes "staking_run F cfg (\<lambda>_ _. True) (cs0, staking_genesis) (cs, st)"
    and "ensure_signed F o1 = Some a" and "claim_delegator F cfg o1 p (cs, st) = Inr (cs1, st1)"
    and "staking_run F cfg (\<lambda>_ _. True) (cs1, st1) (cs2, st2)"
    and "ensure_signed F o2 = Some a" and "claim_delegator F cfg o2 p (cs2, st2) = Inr (cs3, st3)"
  shows "\<exists>e1 r1 e2 r2. last (staking_events st1) = Payout a p e1 r1 \<and>
    last (staking_events st3) = Payout a p e2 r2 \<and> e1 < e2"
proof -
  let ?e1 = "fst (fst (claim (delegation_of st a p)))" and ?e2 = "fst (fst (claim (delegation_of st2 a p)))"
  have inv: "staking_inv st" by (rule any_run_inv [OF assms(1)])
  have inv1: "staking_inv st1" by (rule claim_delegator_inv [OF inv assms(3)])
  have inv2: "staking_inv st2" using staking_run_inv [OF assms(4)] inv1 by simp
  have settled: "settled st2 a p ?e1"
    using staking_run_settled [OF assms(4)] inv1 claim_delegator_settles [OF inv assms(3,2)] by simp
  have "?e1 < ?e2"
    using assms(6)
  proof (cases rule: claim_delegator_elim)
    case (1 who e staked d' info em reward i cs4)
    with assms(5) have claim: "claim (delegation_of st2 a p) = ((e, staked), d')" by simp
    show ?thesis
      using dh.claim_after_settled [OF staking_invD(2) [OF inv2] claim 1(3) less_not_max [OF 1(6)]]
        settled claim by (auto simp: settled_def)
  qed
  with claim_delegator_event [OF assms(3,2)] claim_delegator_event [OF assms(6,5)] show ?thesis
    by metis
qed

definition demo_before_claim :: "(nat, nat, nat option) staking_call list" where
  "demo_before_claim = [OnInitialize 1, RegisterProvider 1 7 300, Delegate (Some 2) 7 100,
     HandleImbalance 50, OnInitialize 11]"

definition demo_between_claims :: "(nat, nat, nat option) staking_call list" where
  "demo_between_claims = [HandleImbalance 60, OnInitialize 21]"

lemma demo_run_append:
  "demo_run (xs @ ys) = foldl (\<lambda>s c. staking_apply ledger_frame demo_config c s) (demo_run xs) ys"
  by (simp add: demo_run_def)

lemma demo_any_run:
  "staking_run ledger_frame demo_config (\<lambda>_ _. True) (demo_run xs) (demo_run (xs @ ys))"
  unfolding demo_run_append by (rule staking_run_foldl) (simp add: list_all_iff)

lemma demo_claim_delegator:
  assumes "\<not> isl (claim_delegator ledger_frame demo_config o' p (demo_run xs))"
  shows "claim_delegator ledger_frame demo_config o' p (demo_run xs) =
    Inr (demo_run (xs @ [ClaimDelegator o' p]))"
  using exec_apply [of ledger_frame demo_config "ClaimDelegator o' p" "demo_run xs"] assms
  by (simp add: demo_run_append)

theorem delegator_never_paid_twice_witness:
  "\<exists>e1 r1 e2 r2.
     last (staking_events (snd (demo_run (demo_before_claim @ [ClaimDelegator (Some 2) 7])))) = Payout 2 7 e1 r1 \<and>
     last (staking_events (snd (demo_run (demo_before_claim @ [ClaimDelegator (Some 2) 7] @
       demo_between_claims @ [ClaimDelegator (Some 2) 7])))) = Payout 2 7 e2 r2 \<and> e1 < e2"
proof -
  let ?a = "demo_before_claim" and ?b = "demo_before_claim @ [ClaimDelegator (Some 2) 7]"
  let ?c = "?b @ demo_between_claims"
  have "\<not> isl (claim_delegator ledger_frame demo_config (Some 2) 7 (demo_run ?a))" by code_simp
  note one = demo_claim_delegator [OF this]
  have "\<not> isl (claim_delegator ledger_frame demo_config (Some 2) 7 (demo_run ?c))" by code_simp
  note two = demo_claim_delegator [OF this]
  have signed: "ensure_signed ledger_frame (Some 2) = Some 2" by (simp add: ledger_frame_def)
  have start: "demo_run [] = (demo_ledger, staking_genesis)" by (simp add: demo_run_def)
  show ?thesis
    using delegator_never_paid_twice [of ledger_frame demo_config demo_ledger "fst (demo_run ?a)"
        "snd (demo_run ?a)" "Some 2" 2 7 "fst (demo_run ?b)" "snd (demo_run ?b)" "fst (demo_run ?c)"
        "snd (demo_run ?c)" "Some 2" "fst (demo_run (?c @ [ClaimDelegator (Some 2) 7]))"
        "snd (demo_run (?c @ [ClaimDelegator (Some 2) 7]))"]
      demo_any_run [of "[]" ?a] demo_any_run [of ?b demo_between_claims] one two signed
    by (simp add: start)
qed

text \<open>C5: A provider is paid at most once for an era: after a successful claim, and any calls and
  blocks in between, every signed claim for the same provider and era is refused with
  \<^verbatim>\<open>AlreadyClaimedInThisEra\<close>. (The era counter must not have reached its last value: the block
  hook computes the next era by a plain addition, which would wrap to era 0.)\<close>

theorem provider_never_paid_twice:
  assumes "staking_run F cfg (\<lambda>_ _. True) (cs0, staking_genesis) (cs, st)"
    and "claim_provider F cfg o1 p e (cs, st) = Inr (cs1, st1)"
    and "staking_run F cfg (\<lambda>_ _. True) (cs1, st1) (cs2, st2)"
    and "current_era st2 \<noteq> - 1" and "ensure_signed F o2 = Some a"
  shows "claim_provider F cfg o2 p e (cs2, st2) = Inl (ModuleError AlreadyClaimedInThisEra)"
proof -
  have "staking_inv st1" by (rule claim_provider_inv [OF any_run_inv [OF assms(1)] assms(2)])
  then have "provider_paid st2 p e"
    using staking_run_paid [OF assms(3), of p e] claim_provider_pays [OF assms(2)] assms(4) by simp
  then show ?thesis by (rule paid_no_claim [OF _ assms(5)])
qed

theorem provider_never_paid_twice_witness:
  "claim_provider ledger_frame demo_config (Some 3) 7 1
     (demo_run (demo_before_claim @ [ClaimProvider (Some 1) 7 1] @ demo_between_claims)) =
   Inl (ModuleError AlreadyClaimedInThisEra)"
proof -
  let ?a = "demo_before_claim" and ?b = "demo_before_claim @ [ClaimProvider (Some 1) 7 1]"
  let ?c = "?b @ demo_between_claims"
  have "\<not> isl (staking_exec ledger_frame demo_config (ClaimProvider (Some 1) 7 1) (demo_run ?a))"
    by code_simp
  from exec_apply [OF this]
  have claim: "claim_provider ledger_frame demo_config (Some 1) 7 1 (demo_run ?a) = Inr (demo_run ?b)"
    by (simp add: demo_run_append)
  have era: "current_era (snd (demo_run ?c)) \<noteq> - 1" by code_simp
  have start: "demo_run [] = (demo_ledger, staking_genesis)" by (simp add: demo_run_def)
  show ?thesis
    using provider_never_paid_twice [of ledger_frame demo_config demo_ledger "fst (demo_run ?a)"
        "snd (demo_run ?a)" "Some 1" 7 1 "fst (demo_run ?b)" "snd (demo_run ?b)" "fst (demo_run ?c)"
        "snd (demo_run ?c)" "Some 3" 3]
      demo_any_run [of "[]" ?a] demo_any_run [of ?b demo_between_claims] claim era
    by (simp add: start ledger_frame_def)
qed

section \<open>The totals\<close>

text \<open>C6: In every state reached without a \<^verbatim>\<open>provider_bond_less\<close> whose sum wraps around, the entry of the running era of every active provider records
  exactly its bond plus the stakes of all its delegators and the number of accounts with a stake,
  and the era's record holds exactly the sum over the active providers. The sum of all reserves is
  assumed to fit the balance type at every step (it is part of the total issuance), the minimum stake
  to be positive and the maximal number of delegators not to be the last value of its type.\<close>

theorem staking_totals_exact:
  assumes "currency_ok F" and "staking_config_ok cfg"
    and "staking_run F cfg (bounded_call F cfg) (cs, staking_genesis) (cs', st)"
  shows "(\<forall>p. is_active_provider st p \<longrightarrow>
      unat (pe_total (provider_era_or_default st p (current_era st))) =
        unat (pe_bond (provider_era_or_default st p (current_era st))) + stake_total st p \<and>
      unat (pe_delegator_count (provider_era_or_default st p (current_era st))) =
        card (delegators_of st p)) \<and>
    unat (em_staked (get_or EraMetadata_default (era_state st) (current_era st))) =
      (\<Sum>q \<in> active_providers st. unat (pe_total (provider_era_or_default st q (current_era st))))"
proof -
  have "books st \<and> era_books st"
    using staking_run_all_books [OF assms] staking_inv_genesis solvent_genesis [of F cs]
      books_genesis era_books_genesis by simp
  then show ?thesis
    by (auto simp: provider_books_def Let_def era_books_def era_staked_def total_active_def era_total_def
        dest: booksD)
qed

text \<open>A ledger with few small reserves, and a run along which the ledger stays that small.\<close>

definition small_ledger :: "ledger \<Rightarrow> bool" where
  "small_ledger l \<longleftrightarrow> list_all (\<lambda>(a, v). a \<le> 3 \<and> v \<le> 1000 \<or> v = 0) (l_reserved l)"

lemma ledger_issuance_bounded:
  assumes "small_ledger l"
  shows "issuance_bounded ledger_frame l"
  unfolding issuance_bounded_def
proof (intro allI impI)
  fix A :: "nat set"
  assume fin: "finite A"
  have small: "a \<le> 3 \<and> v \<le> 1000 \<or> v = 0" if "sget (l_reserved l) a = Some v" for a v
    using assms map_of_SomeD [OF that [unfolded sget_def]] by (auto simp: small_ledger_def list_all_iff)
  then have zero: "ledger_reserved l a = 0" if "a \<notin> {..3}" for a
    using that by (cases "sget (l_reserved l) a") (auto simp: ledger_reserved_def dest: small)
  have le: "ledger_reserved l a \<le> 1000" for a
    by (cases "sget (l_reserved l) a") (auto simp: ledger_reserved_def dest: small)
  have "(\<Sum>a \<in> A. unat (ledger_reserved l a)) = (\<Sum>a \<in> A \<inter> {..3}. unat (ledger_reserved l a))"
    using fin zero by (intro sum.mono_neutral_right) auto
  also have "\<dots> \<le> (\<Sum>a \<in> A \<inter> {..3}. 1000)"
    using le by (intro sum_mono) (simp add: word_le_nat_alt)
  also have "\<dots> \<le> 1000 * card {..3 :: nat}"
    using card_mono [of "{..3 :: nat}" "A \<inter> {..3}"] by simp
  finally have "(\<Sum>a \<in> A. unat (ledger_reserved l a)) \<le> 4000" by simp
  then show "(\<Sum>a \<in> A. unat (reserved_balance ledger_frame l a)) < 2 ^ 128"
    by (simp add: ledger_frame_def)
qed

fun small_run ::
    "ledger \<times> (nat, nat) staking_state \<Rightarrow> (nat, nat, nat option) staking_call list \<Rightarrow> bool" where
  "small_run s [] \<longleftrightarrow> True"
| "small_run s (c # cs) \<longleftrightarrow>
     (let s' = staking_apply ledger_frame demo_config c s
      in (case c of ProviderBondLess _ _ _ \<Rightarrow> False | _ \<Rightarrow> True) \<and> small_ledger (fst s') \<and> small_run s' cs)"

lemma small_run_bounded:
  assumes "small_run s cs"
  shows "staking_run ledger_frame demo_config (bounded_call ledger_frame demo_config) s
    (foldl (\<lambda>s c. staking_apply ledger_frame demo_config c s) s cs)"
  using assms
proof (induction cs arbitrary: s)
  case (Cons c cs)
  let ?s = "staking_apply ledger_frame demo_config c s"
  have "bounded_call ledger_frame demo_config s c"
    using Cons.prems ledger_issuance_bounded
    by (auto simp: bounded_call_def bond_sum_fits_def Let_def split: staking_call.splits)
  then have "staking_run ledger_frame demo_config (bounded_call ledger_frame demo_config) s ?s"
    by (intro run_step run_refl)
  moreover have "staking_run ledger_frame demo_config (bounded_call ledger_frame demo_config) ?s
      (foldl (\<lambda>s c. staking_apply ledger_frame demo_config c s) ?s cs)"
    using Cons by (simp add: Let_def)
  ultimately show ?case by (simp add: staking_run_trans)
qed (simp add: run_refl)

theorem staking_totals_exact_witness:
  "stake_total (snd (demo_run demo_calls)) 7 = 60"
proof -
  let ?s = "demo_run demo_calls"
  have "small_run (demo_ledger, staking_genesis) demo_calls" by code_simp
  from small_run_bounded [OF this]
  have run: "staking_run ledger_frame demo_config (bounded_call ledger_frame demo_config)
      (demo_ledger, staking_genesis) (fst ?s, snd ?s)"
    by (simp add: demo_run_def)
  have ok: "staking_config_ok demo_config" by (simp add: staking_config_ok_def demo_config_def)
  have "is_active_provider (snd ?s) 7"
    and "pe_total (provider_era_or_default (snd ?s) 7 (current_era (snd ?s))) = 360"
    and "pe_bond (provider_era_or_default (snd ?s) 7 (current_era (snd ?s))) = 300"
    by code_simp+
  with staking_totals_exact [OF ledger_currency_ok ok run] show ?thesis by auto
qed

section \<open>Errors that cannot happen\<close>

text \<open>C32: The history a delegator has with a provider never holds an entry after the running era:
  in a reachable state neither \<^verbatim>\<open>delegate\<close> nor \<^verbatim>\<open>delegator_unstake\<close> ends with
  \<^verbatim>\<open>UnexpectedDelegationInfoEra\<close>, whatever the arguments.\<close>

theorem unexpected_era_unreachable:
  assumes "staking_run F cfg (\<lambda>_ _. True) (cs, staking_genesis) (cs', st)"
  shows "delegate F cfg o' p v (cs', st) \<noteq> Inl (ModuleError UnexpectedDelegationInfoEra) \<and>
    delegator_unstake F cfg o' p v (cs', st) \<noteq> Inl (ModuleError UnexpectedDelegationInfoEra)"
proof -
  have upto: "upto_era (delegation_of st a p) (current_era st)" for a
    by (rule staking_invD(3) [OF any_run_inv [OF assms]])
  show ?thesis
    by (auto simp: delegate_def delegator_unstake_def stake_eq [OF upto] unstake_eq [OF upto] Let_def
        split: option.splits if_splits sum.splits prod.splits)
qed

theorem unexpected_era_unreachable_witness:
  "delegate ledger_frame demo_config (Some 2) 7 10 (demo_run demo_calls)
     \<noteq> Inl (ModuleError UnexpectedDelegationInfoEra)"
  using unexpected_era_unreachable [of ledger_frame demo_config demo_ledger "fst (demo_run demo_calls)"
      "snd (demo_run demo_calls)" "Some 2" 7 10] demo_any_run [of "[]" demo_calls]
  by (simp add: demo_run_def [of "[]"])

section \<open>Getting unstaked funds back\<close>

text \<open>The part of the chunks of \<open>a\<close> that has matured by the running era.\<close>

definition matured :: "('ac, 'pid) staking_state \<Rightarrow> 'ac \<Rightarrow> nat" where
  "matured st a = chunk_total (fst (unbonding_partition (unbonding_of st a) (current_era st)))"

text \<open>C17: Unstaked funds come back: in a reachable state an account with matured chunks succeeds
  with \<^verbatim>\<open>withdraw_unbonded\<close>, exactly the matured amount moves from its reserve to its free balance, no
  other account's balances change, and what unlocks in a later era stays queued. The run that reached
  the state has no \<^verbatim>\<open>provider_bond_less\<close> whose sum wraps around and the minimum stake is positive; the
  account's two balances together fit the balance type.\<close>

theorem withdraw_unbonded_returns:
  assumes cur: "currency_ok F"
    and run: "staking_run F cfg (\<lambda>_. staking_call_ok cfg) (cs, staking_genesis) (cs', st)"
    and "ensure_signed F origin = Some a" and "0 < matured st a"
    and total: "unat (free_balance F cs' a) + unat (reserved_balance F cs' a) < 2 ^ 128"
  shows "\<exists>cs2 st2. withdraw_unbonded F origin (cs', st) = Inr (cs2, st2) \<and>
    unat (free_balance F cs2 a) = unat (free_balance F cs' a) + matured st a \<and>
    unat (reserved_balance F cs2 a) + matured st a = unat (reserved_balance F cs' a) \<and>
    (\<forall>b. b \<noteq> a \<longrightarrow> free_balance F cs2 b = free_balance F cs' b \<and>
      reserved_balance F cs2 b = reserved_balance F cs' b) \<and>
    (\<forall>x. unlocks_at (unbonding_of st2 a) x =
      (if x \<le> current_era st then 0 else unlocks_at (unbonding_of st a) x))"
proof -
  obtain valid future where part: "unbonding_partition (unbonding_of st a) (current_era st) = (valid, future)"
    by (cases "unbonding_partition (unbonding_of st a) (current_era st)")
  have matured: "matured st a = chunk_total valid" by (simp add: matured_def part)
  have "solvent F (cs', st)"
    by (rule staking_run_solvent [OF cur run]) (simp_all add: staking_inv_genesis solvent_genesis)
  then have cover: "chunk_total valid \<le> unat (reserved_balance F cs' a)"
    using owed_ge_chunks [of st a] uq.matured_le [OF part]
    by (auto simp: solvent_def intro: order_trans)
  then have "chunk_total valid < 2 ^ 128"
    using unat_less_u128 [of "reserved_balance F cs' a"] by linarith
  then have amount: "unat (unbonding_sum valid) = chunk_total valid" by (rule unbonding_sum_total)
  with assms(4) matured have "unbonding_sum valid \<noteq> 0" by (auto simp: unat_pos_iff [symmetric])
  moreover obtain rest cs2 where un: "unreserve F a (unbonding_sum valid) cs' = (rest, cs2)"
    by (cases "unreserve F a (unbonding_sum valid) cs'")
  ultimately have "withdraw_unbonded F origin (cs', st) = Inr (cs2, staking_deposit_event
      (Withdrawn a (unbonding_sum valid)) (update_unbonding_info a future st))"
    using assms(3) part by (simp add: withdraw_unbonded_def)
  moreover have "unat (reserved_balance F cs2 a) + matured st a = unat (reserved_balance F cs' a)"
    using unreserveD [OF cur un, of a] amount matured cover by simp
  moreover have "unat (free_balance F cs2 a) = unat (free_balance F cs' a) + matured st a"
    using unreserve_free [OF cur un total] amount matured cover by simp
  moreover note unreserve_others [OF cur un]
  ultimately show ?thesis
    using unbonding_partition_unlocks(2) [OF part] by fastforce
qed

definition demo_matured :: "(nat, nat, nat option) staking_call list" where
  "demo_matured = demo_calls @ [OnInitialize 21, OnInitialize 31]"

theorem withdraw_unbonded_returns_witness:
  "\<exists>cs2 st2. withdraw_unbonded ledger_frame (Some 2) (demo_run demo_matured) = Inr (cs2, st2) \<and>
     unat (reserved_balance ledger_frame cs2 2) = 60 \<and> unat (free_balance ledger_frame cs2 2) = 940"
proof -
  let ?s = "demo_run demo_matured"
  have "list_all (staking_call_ok demo_config) demo_matured"
    using demo_allowed by (simp add: demo_matured_def staking_call_ok_def demo_config_def bond_sum_fits_def)
  from demo_staking_run [OF this]
  have run: "staking_run ledger_frame demo_config (\<lambda>_. staking_call_ok demo_config)
      (demo_ledger, staking_genesis) (fst ?s, snd ?s)" by simp
  have "unlocking_chunks (fst (unbonding_partition (unbonding_of (snd ?s) 2) (current_era (snd ?s)))) =
      [\<lparr>uc_amount = 40, unlock_era = 4\<rparr>]" by code_simp
  then have "matured (snd ?s) 2 = 40" by (simp add: matured_def chunk_total_def)
  moreover have "reserved_balance ledger_frame (fst ?s) 2 = 100" "free_balance ledger_frame (fst ?s) 2 = 900"
    by code_simp+
  moreover have "ensure_signed ledger_frame (Some 2) = Some 2" by (simp add: ledger_frame_def)
  ultimately show ?thesis
    using withdraw_unbonded_returns [OF ledger_currency_ok run, of "Some 2" 2] by auto
qed

end
