(* ===== verification/Staking_Limits.thy ===== *)
theory Staking_Limits
  imports Staking_Props
begin

text \<open>
  The number of delegators a provider can have, and the three places
  where the staking pallet does not do what it means to: a check that admits one delegator too many,
  a check that wraps around, and a history that can never be settled.
\<close>

section \<open>The number of delegators\<close>

definition counts_bounded :: "'ac staking_config \<Rightarrow> ('ac, 'pid) staking_state \<Rightarrow> bool" where
  "counts_bounded cfg st \<longleftrightarrow> (\<forall>p. is_active_provider st p \<longrightarrow>
     unat (pe_delegator_count (provider_era_or_default st p (current_era st)))
       \<le> unat (MaxDelegatorsPerProvider cfg) + 1)"

lemma counts_boundedI:
  assumes "counts_bounded cfg st" and "\<And>p. is_active_provider st' p \<Longrightarrow> p \<noteq> q \<Longrightarrow> is_active_provider st p"
    and "\<And>p. p \<noteq> q \<Longrightarrow> pe_delegator_count (provider_era_or_default st' p (current_era st')) =
      pe_delegator_count (provider_era_or_default st p (current_era st))"
    and "is_active_provider st' q \<Longrightarrow>
      unat (pe_delegator_count (provider_era_or_default st' q (current_era st')))
        \<le> unat (MaxDelegatorsPerProvider cfg) + 1"
  shows "counts_bounded cfg st'"
  unfolding counts_bounded_def
proof (intro allI impI)
  fix p
  assume "is_active_provider st' p"
  then show "unat (pe_delegator_count (provider_era_or_default st' p (current_era st')))
      \<le> unat (MaxDelegatorsPerProvider cfg) + 1"
    using assms by (cases "p = q") (simp_all add: counts_bounded_def)
qed

lemma delegate_counts:
  assumes "counts_bounded cfg st" and "delegate F cfg origin p amount (cs, st) = Inr (cs', st')"
  shows "counts_bounded cfg st'"
  using assms(2)
proof (cases rule: delegate_elim)
  case (1 who d d' pe pe1 tot)
  have old: "unat (pe_delegator_count pe) \<le> unat (MaxDelegatorsPerProvider cfg) + 1"
    using assms(1) 1(3,5) by (simp add: counts_bounded_def)
  have "unat (pe_delegator_count pe1) \<le> unat (MaxDelegatorsPerProvider cfg) + 1"
    using old 1(6,7) by (auto simp: unat_saturating_add word_le_nat_alt)
  with 1 show ?thesis
    by (intro counts_boundedI [OF assms(1), where q = p]) (auto simp: is_active_provider_def)
qed

lemma on_initialize_counts:
  assumes inv: "staking_inv st" and "counts_bounded cfg st"
  shows "counts_bounded cfg (snd (staking_on_initialize F cfg n st))"
proof (cases "should_update (era st) n")
  case True
  define st' where "st' = snd (staking_on_initialize F cfg n st)"
  note acc = on_initialize_access [OF True staking_invD(1) [OF inv] st'_def [symmetric]]
  have "pe_delegator_count (provider_era_or_default st' p (current_era st')) =
      pe_delegator_count (provider_era_or_default st p (current_era st))"
    if act: "is_active_provider st p" for p
  proof -
    obtain info where "sget (provider_info st) p = Some info" "pm_status info = Active"
      using act by (rule is_active_providerD)
    then obtain pe where "sget (provider_era_info st) (p, current_era st) = Some pe"
      using staking_invD(6) [OF inv] by (fastforce simp: skeys_iff)
    with act show ?thesis
      by (cases "current_era st = - 1")
        (simp_all add: provider_era_or_default_def get_or_def acc(1,9) saturating_Suc)
  qed
  with assms(2) show ?thesis
    by (simp add: counts_bounded_def st'_def [symmetric]) (simp add: is_active_provider_def acc(3))
qed (use assms(2) in \<open>simp add: on_initialize_idle\<close>)

lemma staking_exec_counts:
  assumes inv: "staking_inv st" and cb: "counts_bounded cfg st"
    and exec: "staking_exec F cfg c (cs, st) = Inr (cs', st')"
  shows "counts_bounded cfg st'"
proof (cases c)
  case (Delegate o' p v)
  with exec delegate_counts [OF cb] show ?thesis by simp
next
  case (OnInitialize n)
  with exec on_initialize_counts [OF inv cb] show ?thesis by auto
next
  case (DelegatorUnstake o' p v)
  with exec show ?thesis
    by (auto elim!: delegator_unstake_elim intro!: counts_boundedI [OF cb, where q = p]
        simp: is_active_provider_def unat_saturating_sub)
      (use cb in \<open>fastforce simp: counts_bounded_def is_active_provider_def\<close>)+
next
  case (RegisterProvider a p v)
  with exec show ?thesis
    by (auto elim!: register_provider_elim intro!: counts_boundedI [OF cb, where q = p]
        simp: is_active_provider_def provider_era_or_default_def current_era_def)
qed (use exec cb in \<open>auto elim!: staking_elims simp: counts_bounded_def is_active_provider_def handle_imbalance_def provider_era_or_default_def
      current_era_def split: if_splits\<close>)

lemma staking_run_counts:
  assumes "staking_run F cfg allowed s s'" and "staking_inv (snd s)" and "counts_bounded cfg (snd s)"
  shows "counts_bounded cfg (snd s')"
proof -
  have "staking_inv (snd s') \<and> counts_bounded cfg (snd s')"
    using assms(1)
  proof (rule staking_run_induct_exec [where P = "\<lambda>s. staking_inv (snd s) \<and> counts_bounded cfg (snd s)"])
    fix t c t'
    assume "staking_inv (snd t) \<and> counts_bounded cfg (snd t)" and "staking_exec F cfg c t = Inr t'"
    then show "staking_inv (snd t') \<and> counts_bounded cfg (snd t')"
      using staking_exec_inv [of t F cfg c t']
        staking_exec_counts [of "snd t" cfg F c "fst t" "fst t'" "snd t'"] by simp
  qed (use assms in simp)
  then show ?thesis ..
qed

text \<open>C25: The check on the number of delegators keeps every active provider at no more than
  \<^verbatim>\<open>MaxDelegatorsPerProvider + 1\<close> accounts with a stake, along every run without a wrapping
  \<^verbatim>\<open>provider_bond_less\<close>. (The minimum stake is positive and the maximum is not the last value of its
  type.)\<close>

theorem delegators_bounded:
  assumes "staking_config_ok cfg"
    and "staking_run F cfg (\<lambda>_. bond_sum_fits cfg) (cs, staking_genesis) (cs', st)"
    and "is_active_provider st p"
  shows "card (delegators_of st p) \<le> unat (MaxDelegatorsPerProvider cfg) + 1"
proof -
  have "books st"
    using staking_run_books [OF assms(2) _ assms(1)] staking_inv_genesis books_genesis by simp
  moreover have "counts_bounded cfg st"
    using staking_run_counts [OF assms(2)] staking_inv_genesis
    by (simp add: counts_bounded_def is_active_provider_def staking_genesis_def)
  ultimately show ?thesis
    using assms(3) booksD [of st p] by (force simp: counts_bounded_def provider_books_def Let_def)
qed

theorem delegators_bounded_witness:
  "card (delegators_of (snd (demo_run demo_calls)) 7) \<le> 2"
proof -
  let ?s = "demo_run demo_calls"
  have "list_all (bond_sum_fits demo_config) demo_calls"
    by (simp add: demo_calls_def bond_sum_fits_def)
  from staking_run_foldl [OF this]
  have run: "staking_run ledger_frame demo_config (\<lambda>_. bond_sum_fits demo_config)
      (demo_ledger, staking_genesis) (fst ?s, snd ?s)" by (simp add: demo_run_def)
  have "staking_config_ok demo_config" by (simp add: staking_config_ok_def demo_config_def)
  moreover have "is_active_provider (snd ?s) 7" by code_simp
  moreover have "unat (MaxDelegatorsPerProvider demo_config) = 1" by (simp add: demo_config_def)
  ultimately show ?thesis using delegators_bounded [OF _ run, of 7] by simp
qed

text \<open>C40: The bound is one more than the constant says: a provider whose count has already reached
  \<^verbatim>\<open>MaxDelegatorsPerProvider\<close> still accepts a new delegator, because the check is
  \<^verbatim>\<open>delegator_count <= MaxDelegatorsPerProvider\<close> before the count is increased. The new delegator is
  any account without a history with the provider that can reserve an amount of at least the minimum.\<close>

theorem full_provider_accepts_one_more:
  assumes "is_active_provider st p" and "ensure_signed F origin = Some a"
    and "pe_delegator_count (provider_era_or_default st p (current_era st)) = MaxDelegatorsPerProvider cfg"
    and "MaxDelegatorsPerProvider cfg \<noteq> - 1" and "delegation_of st a p = Delegation_default"
    and "amount \<noteq> 0" and "MinDelegatorStake cfg \<le> amount" and "1 < MaxEraStakeValues cfg"
    and "checked_add (pe_total (provider_era_or_default st p (current_era st))) amount \<noteq> None"
    and "reserve F a amount cs = Inr cs'"
  shows "\<exists>st'. delegate F cfg origin p amount (cs, st) = Inr (cs', st') \<and>
    unat (pe_delegator_count (provider_era_or_default st' p (current_era st'))) =
      unat (MaxDelegatorsPerProvider cfg) + 1"
proof -
  have stake: "stake Delegation_default (current_era st) amount =
      Inr \<lparr>stakes = [EraStake_new amount (current_era st)]\<rparr>"
    by (simp add: stake_def Delegation_default_def)
  have "unat (saturating_add (MaxDelegatorsPerProvider cfg) 1) = unat (MaxDelegatorsPerProvider cfg) + 1"
    using assms(4) by (simp add: saturating_Suc unat_Suc_word)
  with assms stake show ?thesis
    by (auto simp: delegate_def Let_def word_gt_0 delegation_len_def latest_staked_value_def)
qed

definition demo_full :: "(nat, nat, nat option) staking_call list" where
  "demo_full = [OnInitialize 1, RegisterProvider 1 7 300, Delegate (Some 2) 7 100]"

theorem full_provider_accepts_one_more_witness:
  "\<exists>cs' st'. delegate ledger_frame demo_config (Some 3) 7 50 (demo_run demo_full) = Inr (cs', st') \<and>
     unat (pe_delegator_count (provider_era_or_default st' 7 (current_era st'))) =
       unat (MaxDelegatorsPerProvider demo_config) + 1"
proof -
  let ?s = "demo_run demo_full"
  obtain cs' where reserve: "reserve ledger_frame 3 50 (fst ?s) = Inr cs'"
  proof -
    have "\<not> isl (reserve ledger_frame 3 50 (fst ?s))" by code_simp
    then show ?thesis using that by (cases "reserve ledger_frame 3 50 (fst ?s)") auto
  qed
  have "is_active_provider (snd ?s) 7"
    and "pe_delegator_count (provider_era_or_default (snd ?s) 7 (current_era (snd ?s))) =
      MaxDelegatorsPerProvider demo_config"
    and "delegation_of (snd ?s) 3 7 = Delegation_default"
    and "checked_add (pe_total (provider_era_or_default (snd ?s) 7 (current_era (snd ?s)))) 50 \<noteq> None"
    by code_simp+
  moreover have "ensure_signed ledger_frame (Some 3) = Some 3" by (simp add: ledger_frame_def)
  moreover have "MaxDelegatorsPerProvider demo_config \<noteq> - 1" "MinDelegatorStake demo_config \<le> 50"
      "1 < MaxEraStakeValues demo_config" by (simp_all add: demo_config_def)
  ultimately show ?thesis
    using full_provider_accepts_one_more [of "snd ?s" 7 ledger_frame "Some 3" 3 demo_config 50 "fst ?s" cs'] reserve
    by auto
qed

section \<open>A check that wraps around\<close>

text \<open>C24: The check \<^verbatim>\<open>bond >= amount + MinProviderStake\<close> of \<^verbatim>\<open>provider_bond_less\<close> is computed by a
  plain addition. With the amount that makes the sum wrap to zero the owner of any active provider
  passes it: the bond drops to zero although the minimum is positive, and the owner is queued a
  chunk larger than everything it has reserved, so the reserve no longer covers what is owed.\<close>

theorem bond_less_wraps:
  assumes "ensure_signed F origin = Some a" and "sget (provider_info st) p = Some info"
    and "pm_status info = Active" and "pm_owner info = a"
    and "MinProviderStake cfg \<noteq> 0" and "unbonding_of st a = Unbonding_default"
    and "1 \<le> MaxUnlockingChunks cfg"
    and "reserved_balance F cs a < - MinProviderStake cfg"
    and "pe_bond (provider_era_or_default st p (current_era st)) < - MinProviderStake cfg"
  shows "\<exists>st'. provider_bond_less F cfg origin p (- MinProviderStake cfg) (cs, st) = Inr (cs, st') \<and>
    pe_bond (provider_era_or_default st' p (current_era st')) = 0 \<and>
    unat (reserved_balance F cs a) < owed st' a"
proof -
  let ?u = "unbonding_add Unbonding_default
    \<lparr>uc_amount = - MinProviderStake cfg, unlock_era = current_era st + UnbondingPeriod cfg\<rparr>"
  have u: "unlocking_chunks ?u =
      [\<lparr>uc_amount = - MinProviderStake cfg, unlock_era = current_era st + UnbondingPeriod cfg\<rparr>]"
    by (simp add: unbonding_add_def Unbonding_default_def binary_search.simps)
  have "saturating_sub (pe_bond (provider_era_or_default st p (current_era st))) (- MinProviderStake cfg) = 0"
    using assms(9) by (auto simp: saturating_sub_def dest: leD)
  moreover have "0 < - MinProviderStake cfg" using assms(5) by (simp add: word_gt_0)
  ultimately obtain st' where st': "provider_bond_less F cfg origin p (- MinProviderStake cfg) (cs, st) = Inr (cs, st')"
    "pe_bond (provider_era_or_default st' p (current_era st')) = 0" "unbonding_of st' a = ?u"
    using assms u by (auto simp: provider_bond_less_def Let_def unbonding_len_def)
  have "unat (reserved_balance F cs a) < chunk_total ?u"
    using assms(8) by (simp add: chunk_total_def u word_less_nat_alt)
  also have "\<dots> \<le> owed st' a" using owed_ge_chunks [of st' a] st'(3) by simp
  finally show ?thesis using st' by blast
qed

theorem bond_less_wraps_witness:
  "\<exists>st'. provider_bond_less ledger_frame demo_config (Some 1) 7 (- 100) (demo_run demo_full) =
       Inr (fst (demo_run demo_full), st') \<and>
     pe_bond (provider_era_or_default st' 7 (current_era st')) = 0 \<and> 300 < owed st' 1"
proof -
  let ?s = "demo_run demo_full"
  have "sget (provider_info (snd ?s)) 7 = Some (ProviderMetadata_new 1)"
    and "unbonding_of (snd ?s) 1 = Unbonding_default"
    and "reserved_balance ledger_frame (fst ?s) 1 = 300"
    and "pe_bond (provider_era_or_default (snd ?s) 7 (current_era (snd ?s))) = 300"
    by code_simp+
  moreover have "ensure_signed ledger_frame (Some 1) = Some 1" by (simp add: ledger_frame_def)
  moreover have "MinProviderStake demo_config = 100" "1 \<le> MaxUnlockingChunks demo_config"
    by (simp_all add: demo_config_def)
  ultimately show ?thesis
    using bond_less_wraps [of ledger_frame "Some 1" 1 "snd ?s" 7 "ProviderMetadata_new 1" demo_config "fst ?s"]
    by (simp add: ProviderMetadata_new_def)
qed

section \<open>A stake that can never be taken out\<close>

text \<open>
  A history that starts with a zero entry from before the provider was unregistered: \<^verbatim>\<open>claim\<close> reads
  zero, so no reward can be claimed and the history never gets past the entry, and the era it
  reads is one whose reward counts as unclaimed.
\<close>

definition stuck :: "('ac, 'pid) staking_state \<Rightarrow> 'ac \<Rightarrow> 'pid \<Rightarrow> bool" where
  "stuck st a p \<longleftrightarrow>
     (\<exists>info u s rest. sget (provider_info st) p = Some info \<and> pm_status info = Inactive u \<and>
        stakes (delegation_of st a p) = s # rest \<and> es_amount s = 0 \<and> es_era s \<noteq> 0 \<and> es_era s < u) \<and>
     latest_staked_value (delegation_of st a p) \<noteq> 0"

lemma stuck_claim:
  assumes "stuck st a p"
  obtains info u e where "sget (provider_info st) p = Some info" and "pm_status info = Inactive u"
    and "fst (claim (delegation_of st a p)) = (e, 0)" and "e \<noteq> 0" and "e < u"
  using assms that by (auto simp: stuck_def claim_Cons)

lemma stuck_no_exec:
  assumes "stuck st a p" and "staking_exec F cfg c (cs, st) = Inr (cs', st')"
  shows "delegation_of st' a p = delegation_of st a p"
proof -
  obtain info u e where st: "sget (provider_info st) p = Some info" "pm_status info = Inactive u"
    "fst (claim (delegation_of st a p)) = (e, 0)" "e \<noteq> 0" "e < u"
    by (rule stuck_claim [OF assms(1)])
  then have inactive: "\<not> is_active_provider st p" by (simp add: is_active_provider_def)
  show ?thesis
  proof (cases c)
    case (Delegate o' q v)
    with assms(2) inactive show ?thesis by (auto elim!: delegate_elim)
  next
    case (DelegatorUnstake o' q v)
    with assms(2) inactive show ?thesis by (auto elim!: delegator_unstake_elim)
  next
    case (ClaimDelegator o' q)
    with assms(2) st show ?thesis by (auto elim!: claim_delegator_elim)
  next
    case (DelegatorWithdrawUnregistered o' q)
    with assms(2) st show ?thesis by (auto elim!: delegator_withdraw_unregistered_elim)
  next
    case (OnInitialize n)
    then have "delegation_info st' = delegation_info st"
      using assms(2) by (auto simp: staking_on_initialize_def Let_def rotate_provider_era_info_def
          snapshot_era_rewards_def staking_deposit_event_def split: prod.splits)
    then show ?thesis by (simp add: delegation_of_def)
  qed (use assms(2) in \<open>auto elim!: staking_elims simp: handle_imbalance_def delegation_of_def\<close>)
qed

text \<open>A provider that was unregistered stays so, with the same era.\<close>

lemma inactive_kept:
  assumes "sget (provider_info st) p = Some info" and "pm_status info = Inactive u"
    and "staking_inv st" and "staking_exec F cfg c (cs, st) = Inr (cs', st')"
  shows "\<exists>info'. sget (provider_info st') p = Some info' \<and> pm_status info' = Inactive u"
proof (cases "\<exists>n. c = OnInitialize n")
  case True
  then have "provider_info st' = provider_info st"
    using assms(4) by (auto simp: staking_on_initialize_def Let_def rotate_provider_era_info_def
        snapshot_era_rewards_def staking_deposit_event_def split: prod.splits)
  with assms show ?thesis by simp
next
  case False
  with assms(1,2,4) show ?thesis
    by (cases c)
      (auto elim!: staking_elims simp: handle_imbalance_def split: if_splits)
qed

text \<open>C23: Stakes can be locked for ever. If a delegator's history with an unregistered provider
  starts with a zero entry from before the unregistration while its latest entry is positive, then
  whatever is called and however many eras pass, the stake stays in the history, every claim of the
  delegator is refused with \<^verbatim>\<open>NotStakedProvider\<close> and every withdrawal fails.\<close>

theorem stuck_stake_never_leaves:
  assumes "staking_inv st" and "stuck st a p"
    and "staking_run F cfg (\<lambda>_ _. True) (cs, st) (cs', st')"
    and "ensure_signed F origin = Some a"
  shows "delegation_of st' a p = delegation_of st a p \<and>
    claim_delegator F cfg origin p (cs', st') = Inl (ModuleError NotStakedProvider) \<and>
    isl (delegator_withdraw_unregistered F cfg origin p (cs', st')) \<and>
    isl (delegator_unstake F cfg origin p v (cs', st'))"
proof -
  have "staking_inv (snd (cs', st')) \<and> stuck (snd (cs', st')) a p \<and>
      delegation_of (snd (cs', st')) a p = delegation_of st a p"
    using assms(3)
  proof (rule staking_run_induct_exec [where P = "\<lambda>s. staking_inv (snd s) \<and> stuck (snd s) a p \<and>
        delegation_of (snd s) a p = delegation_of st a p"])
    fix t c t'
    assume t: "staking_inv (snd t) \<and> stuck (snd t) a p \<and> delegation_of (snd t) a p = delegation_of st a p"
      and exec: "staking_exec F cfg c t = Inr t'"
    have same: "delegation_of (snd t') a p = delegation_of (snd t) a p"
      using stuck_no_exec [of "snd t" a p F cfg c "fst t" "fst t'" "snd t'"] t exec by simp
    have "stuck (snd t') a p"
      using t inactive_kept [of "snd t" p _ _ F cfg c "fst t" "fst t'" "snd t'"] exec
      unfolding stuck_def same by (fastforce simp: same)
    with t same exec staking_exec_inv
    show "staking_inv (snd t') \<and> stuck (snd t') a p \<and> delegation_of (snd t') a p = delegation_of st a p"
      by metis
  qed (use assms in simp)
  then have stuck: "stuck st' a p" and same: "delegation_of st' a p = delegation_of st a p" by simp_all
  obtain info u e where st: "sget (provider_info st') p = Some info" "pm_status info = Inactive u"
    "fst (claim (delegation_of st' a p)) = (e, 0)" "e \<noteq> 0" "e < u"
    by (rule stuck_claim [OF stuck])
  then obtain d' where claim: "claim (delegation_of st' a p) = ((e, 0), d')"
    by (cases "claim (delegation_of st' a p)") auto
  have "isl (delegator_withdraw_unregistered F cfg origin p (cs', st'))"
    using st claim assms(4) by (auto simp: delegator_withdraw_unregistered_def Let_def)
  moreover have "isl (delegator_unstake F cfg origin p v (cs', st'))"
    using st assms(4) by (auto simp: delegator_unstake_def is_active_provider_def)
  moreover have "claim_delegator F cfg origin p (cs', st') = Inl (ModuleError NotStakedProvider)"
    using claim assms(4) by (simp add: claim_delegator_def)
  ultimately show ?thesis using same by blast
qed

text \<open>The run that gets there: stake and unstake everything in one era, stake and unstake again in a
  later one, claim, stake once more; then the provider is unregistered.\<close>

definition demo_stuck :: "(nat, nat, nat option) staking_call list" where
  "demo_stuck = [OnInitialize 1, RegisterProvider 1 7 300, Delegate (Some 2) 7 100, OnInitialize 11,
     DelegatorUnstake (Some 2) 7 100, OnInitialize 21, Delegate (Some 2) 7 50,
     DelegatorUnstake (Some 2) 7 50, ClaimDelegator (Some 2) 7, OnInitialize 31,
     Delegate (Some 2) 7 60, OnInitialize 41, UnregisterProvider 7]"

theorem stuck_stake_never_leaves_witness:
  "isl (delegator_withdraw_unregistered ledger_frame demo_config (Some 2) 7
     (demo_run (demo_stuck @ [OnInitialize 51, OnInitialize 61, OnInitialize 71])))"
proof -
  let ?s = "demo_run demo_stuck" and ?cs = "[OnInitialize 51, OnInitialize 61, OnInitialize 71]"
  let ?t = "demo_run (demo_stuck @ ?cs)"
  have "sget (provider_info (snd ?s)) 7 = Some ((ProviderMetadata_new 1)\<lparr>pm_status := Inactive 5\<rparr>)"
    and "stakes (delegation_of (snd ?s) 2 7) = [EraStake_new 0 3, EraStake_new 60 4]"
    by code_simp+
  then have "stuck (snd ?s) 2 7" by (simp add: stuck_def latest_staked_value_def)
  moreover have "staking_inv (snd ?s)"
    using any_run_inv [of ledger_frame demo_config _ demo_ledger "fst ?s" "snd ?s"]
      demo_any_run [of "[]" demo_stuck] by (simp add: demo_run_def [of "[]"])
  moreover have "ensure_signed ledger_frame (Some 2) = Some 2" by (simp add: ledger_frame_def)
  ultimately show ?thesis
    using stuck_stake_never_leaves [of "snd ?s" 2 7 ledger_frame demo_config "fst ?s" "fst ?t" "snd ?t" "Some 2"]
      demo_any_run [of demo_stuck ?cs] by simp
qed

end
