(* ===== verification/History_Props.thy ===== *)
theory History_Props
  imports Staking_Limits
begin

text \<open>
  The data structures of the staking pallet against their abstract meaning: the compressed history
  of a delegation as a function from eras to amounts, what a delegator who keeps claiming is paid for,
  the queue of unlocking chunks against a plain insertion, the sizes of both along every run, and the
  change of era.
\<close>

section \<open>The history as a function\<close>

text \<open>What the three operations mean: a stake or unstake changes the amount from an era on, a claim
  forgets every era up to the claimed one.\<close>

definition abs_stake :: "era_index \<Rightarrow> u128 \<Rightarrow> (era_index \<Rightarrow> u128) \<Rightarrow> era_index \<Rightarrow> u128" where
  "abs_stake e v h = (\<lambda>x. if e \<le> x then saturating_add (h e) v else h x)"

definition abs_unstake :: "era_index \<Rightarrow> u128 \<Rightarrow> (era_index \<Rightarrow> u128) \<Rightarrow> era_index \<Rightarrow> u128" where
  "abs_unstake e v h = (\<lambda>x. if e \<le> x then saturating_sub (h e) v else h x)"

definition abs_claim :: "era_index \<Rightarrow> (era_index \<Rightarrow> u128) \<Rightarrow> era_index \<Rightarrow> u128" where
  "abs_claim e h = (\<lambda>x. if x \<le> e then 0 else h x)"

text \<open>C8: The compressed history implements the function. On a well-formed history with no entry after
  the running era, staking and unstaking succeed and keep it well-formed, a claim of a positive amount
  reports the amount of the era it names, and the function read from the result is the abstract
  update of the function read before.\<close>

theorem history_refines:
  assumes "delegation_inv d" and "upto_era d e"
  shows "(\<exists>d'. stake d e v = Inr d' \<and> delegation_inv d' \<and> upto_era d' e \<and> staked_at d' = abs_stake e v (staked_at d)) \<and>
    (\<exists>d'. unstake d e v = Inr d' \<and> delegation_inv d' \<and> upto_era d' e \<and> staked_at d' = abs_unstake e v (staked_at d)) \<and>
    (\<forall>h a d'. claim d = ((h, a), d') \<and> a \<noteq> 0 \<and> h < e \<longrightarrow>
       delegation_inv d' \<and> upto_era d' e \<and> a = staked_at d h \<and> staked_at d' = abs_claim h (staked_at d))"
proof (intro conjI allI impI)
  have le: "\<forall>s \<in> set (stakes d). es_era s \<le> e" using assms(2) by (simp add: upto_era_def)
  note now = staked_at_latest [OF assms(2) order_refl]
  note new = amount_at_set_last [OF le] sorted_set_last [OF assms(1) [unfolded delegation_inv_def] le] set_last_upto [OF le]
  show "\<exists>d'. stake d e v = Inr d' \<and> delegation_inv d' \<and> upto_era d' e \<and> staked_at d' = abs_stake e v (staked_at d)"
    using new by (auto simp: stake_eq [OF assms(2)] delegation_inv_def upto_era_def abs_stake_def fun_eq_iff now)
      (simp_all add: staked_at_def)
  show "\<exists>d'. unstake d e v = Inr d' \<and> delegation_inv d' \<and> upto_era d' e \<and> staked_at d' = abs_unstake e v (staked_at d)"
  proof (cases "stakes d = []")
    case True
    then show ?thesis using assms
      by (simp add: unstake_eq [OF assms(2)] abs_unstake_def fun_eq_iff staked_at_def saturating_sub_def)
  next
    case False
    let ?xs = "set_last (stakes d) e (saturating_sub (latest_staked_value d) v)"
    have "upto_era (d\<lparr>stakes := drop_zero_head ?xs\<rparr>) e"
      using set_drop_zero_head [of ?xs] new(3) by (auto simp: upto_era_def)
    with False new show ?thesis
      by (auto simp: unstake_eq [OF assms(2)] delegation_inv_def sorted_drop_zero_head abs_unstake_def fun_eq_iff now)
        (simp_all add: staked_at_def amount_at_drop_zero_head)
  qed
next
  fix h a d' assume c: "claim d = ((h, a), d') \<and> a \<noteq> 0 \<and> h < e"
  then have h: "h \<noteq> - 1" by (metis linorder_not_less word_order.extremum)
  note spec = claim_spec [OF assms(1) _ _ h, of a d']
  show "delegation_inv d'" "upto_era d' e" "a = staked_at d h" "staked_at d' = abs_claim h (staked_at d)"
    using spec c assms(2) by (auto simp: abs_claim_def fun_eq_iff)
qed

theorem history_refines_witness:
  "\<exists>d'. unstake \<lparr>stakes = [EraStake_new 50 3, EraStake_new 80 5]\<rparr> 7 30 = Inr d' \<and>
     staked_at d' = abs_unstake 7 30 (staked_at \<lparr>stakes = [EraStake_new 50 3, EraStake_new 80 5]\<rparr>)"
  using history_refines [of "\<lparr>stakes = [EraStake_new 50 3, EraStake_new 80 5]\<rparr>" 7 30]
  by (auto simp: delegation_inv_def upto_era_def)

section \<open>A delegator who keeps claiming\<close>

text \<open>The claims a delegator can make one after the other until the history has nothing from before era
  \<open>e\<close>: each is the era and amount that \<open>claim\<close> reports. A call for a zero amount is refused, which ends
  the sequence. \<open>fuel\<close> bounds their number; \<open>unat e\<close> is enough.\<close>

fun claims :: "nat \<Rightarrow> era_index \<Rightarrow> delegation \<Rightarrow> (era_index \<times> u128) list" where
  "claims 0 e d = []"
| "claims (Suc fuel) e d =
     (let ((h, a), d') = claim d in if a \<noteq> 0 \<and> h < e then (h, a) # claims fuel e d' else [])"

lemma no_zero_pair_tl: "no_zero_pair (s # xs) \<Longrightarrow> no_zero_pair xs"
  by (cases xs) auto

lemma clean_drop_zero_head:
  assumes "no_zero_pair xs"
  shows "clean_history (d\<lparr>stakes := drop_zero_head xs\<rparr>)"
proof (cases xs)
  case (Cons s r)
  then show ?thesis using assms no_zero_pair_tl [of s r]
    by (cases r) (auto simp: clean_history_def drop_zero_head_def)
qed (simp add: clean_history_def drop_zero_head_def)

lemma claim_clean:
  assumes "clean_history d"
  shows "clean_history (snd (claim d))"
proof (cases "stakes d")
  case (Cons s rest)
  then have "no_zero_pair (claim_rest s rest)"
    using assms no_zero_pair_tl [of s rest] by (cases rest) (auto simp: clean_history_def claim_rest_def)
  with Cons show ?thesis by (simp add: claim_Cons clean_drop_zero_head)
qed (use assms in \<open>simp add: claim_def\<close>)

text \<open>In a clean history the first entry is the first era with a positive amount.\<close>

lemma claim_first:
  assumes "delegation_inv d" and "clean_history d" and "claim d = ((h, a), d')"
  shows "a = 0 \<longleftrightarrow> stakes d = []" and "stakes d \<noteq> [] \<Longrightarrow> x < h \<Longrightarrow> staked_at d x = 0"
proof -
  show "a = 0 \<longleftrightarrow> stakes d = []"
    using assms(2,3) by (cases "stakes d") (auto simp: claim_Cons clean_history_def, simp add: claim_def)
  show "staked_at d x = 0" if "stakes d \<noteq> []" "x < h"
    using assms that by (cases "stakes d")
      (auto simp: claim_Cons staked_at_def delegation_inv_def intro!: amount_at_none intro: order_less_trans)
qed

lemma claims_exact:
  assumes "delegation_inv d" and "clean_history d" and "upto_era d e"
    and "\<And>x. unat x + fuel < unat e \<Longrightarrow> staked_at d x = 0"
  shows "sorted_wrt (\<lambda>s t. fst s < fst t) (claims fuel e d) \<and>
    set (claims fuel e d) = {(x, staked_at d x) |x. x < e \<and> staked_at d x \<noteq> 0}"
  using assms
proof (induction fuel arbitrary: d)
  case 0
  have "staked_at d x = 0" if "x < e" for x using "0.prems"(4) [of x] that by (simp add: word_less_nat_alt)
  then show ?case by auto
next
  case (Suc fuel)
  obtain h a d' where c: "claim d = ((h, a), d')" by (metis prod.exhaust)
  note first = claim_first [OF Suc.prems(1,2) c]
  show ?case
  proof (cases "a \<noteq> 0 \<and> h < e")
    case False
    have "staked_at d x = 0" if "x < e" for x
    proof (cases "stakes d = []")
      case True
      then show ?thesis by (simp add: staked_at_def)
    next
      case nonempty: False
      with False first(1) that have "x < h" by (auto simp: not_less)
      with first(2) nonempty show ?thesis by simp
    qed
    with False c show ?thesis by auto
  next
    case True
    then have h: "h \<noteq> - 1" by (metis linorder_not_less word_order.extremum)
    note spec = claim_spec [OF Suc.prems(1) c _ h]
    have at_h: "a = staked_at d h" and cut: "\<And>x. staked_at d' x = (if x \<le> h then 0 else staked_at d x)"
      using spec(2,3) True by auto
    have "unat e \<le> unat h + Suc fuel" using Suc.prems(4) [of h] at_h True by (meson not_less)
    then have "staked_at d' x = 0" if "unat x + fuel < unat e" for x
      using that cut by (simp add: word_le_nat_alt)
    moreover have "clean_history d'" using claim_clean [OF Suc.prems(2)] c by simp
    ultimately have IH: "sorted_wrt (\<lambda>s t. fst s < fst t) (claims fuel e d')"
      "set (claims fuel e d') = {(x, staked_at d' x) |x. x < e \<and> staked_at d' x \<noteq> 0}"
      using Suc.IH [of d'] spec(1,4) True Suc.prems(3) by auto
    have before: "staked_at d x = 0" if "x < h" for x
      using first True that by simp
    have "{(x, staked_at d x) |x. x < e \<and> staked_at d x \<noteq> 0} = insert (h, a) (set (claims fuel e d'))"
      unfolding IH(2) cut using at_h True before by (auto simp: not_le) (metis neq_iff)+
    moreover have "\<forall>t \<in> set (claims fuel e d'). h < fst t" using IH(2) cut by auto
    ultimately show ?thesis using IH(1) True c by simp
  qed
qed

text \<open>C9: Every era is paid for, exactly once. A delegator with a clean history who claims until nothing
  from before era \<open>e\<close> is left makes one claim for every earlier era in which a positive amount was
  staked, in the order of the eras, each for exactly the amount staked in that era, and no other.
  \<open>unat e\<close> claims are always enough, so the sequence ends.\<close>

theorem claims_pay_every_era:
  assumes "delegation_inv d" and "clean_history d" and "upto_era d e" and "unat e \<le> fuel"
  shows "sorted_wrt (\<lambda>s t. fst s < fst t) (claims fuel e d) \<and>
    set (claims fuel e d) = {(x, staked_at d x) |x. x < e \<and> staked_at d x \<noteq> 0}"
  using claims_exact [OF assms(1-3)] assms(4) by simp

theorem claims_pay_every_era_witness:
  "claims 8 8 \<lparr>stakes = [EraStake_new 50 3, EraStake_new 0 5, EraStake_new 20 6]\<rparr> =
     [(3, 50), (4, 50), (6, 20), (7, 20)] \<and>
   set (claims 8 8 \<lparr>stakes = [EraStake_new 50 3, EraStake_new 0 5, EraStake_new 20 6]\<rparr>) =
     {(x, staked_at \<lparr>stakes = [EraStake_new 50 3, EraStake_new 0 5, EraStake_new 20 6]\<rparr> x) |x.
        x < 8 \<and> staked_at \<lparr>stakes = [EraStake_new 50 3, EraStake_new 0 5, EraStake_new 20 6]\<rparr> x \<noteq> 0}"
proof
  show "claims 8 8 \<lparr>stakes = [EraStake_new 50 3, EraStake_new 0 5, EraStake_new 20 6]\<rparr> =
      [(3, 50), (4, 50), (6, 20), (7, 20)]" by code_simp
qed (use claims_pay_every_era [of "\<lparr>stakes = [EraStake_new 50 3, EraStake_new 0 5, EraStake_new 20 6]\<rparr>" 8 8] in
  \<open>simp add: delegation_inv_def clean_history_def upto_era_def\<close>)

section \<open>The queue of unlocking chunks\<close>

text \<open>The plain insertion into a sorted list.\<close>

fun insert_chunk :: "unlocking_chunk \<Rightarrow> unlocking_chunk list \<Rightarrow> unlocking_chunk list" where
  "insert_chunk c [] = [c]"
| "insert_chunk c (x # xs) =
     (if unlock_era x < unlock_era c then x # insert_chunk c xs
      else if unlock_era x = unlock_era c then add_amount x (uc_amount c) # xs
      else c # x # xs)"

lemma insert_chunk_append:
  "\<forall>x \<in> set xs. unlock_era x < unlock_era c \<Longrightarrow> insert_chunk c (xs @ ys) = xs @ insert_chunk c ys"
  by (induction xs) auto

lemma insert_chunk_front:
  "\<forall>y \<in> set ys. unlock_era c < unlock_era y \<Longrightarrow> insert_chunk c ys = c # ys"
  by (cases ys) auto

text \<open>C27: The binary search is an insertion. On a queue sorted by era, adding a chunk through the binary
  search gives what the plain insertion gives: the chunk is merged into the one of its era when there
  is one and stands at its place otherwise.\<close>

theorem unbonding_add_is_insertion:
  assumes "unbonding_inv u"
  shows "unlocking_chunks (unbonding_add u c) = insert_chunk c (unlocking_chunks u)"
  using assms
proof (cases rule: unbonding_add_cases [where chunk = c])
  case (merge xs x ys)
  then have "\<forall>y \<in> set xs. unlock_era y < unlock_era c"
    using assms by (auto simp: unbonding_inv_def sorted_wrt_append)
  with merge show ?thesis by (simp add: insert_chunk_append)
next
  case (insert xs ys)
  then show ?thesis by (simp add: insert_chunk_append insert_chunk_front)
qed

theorem unbonding_add_is_insertion_witness:
  "unlocking_chunks (unbonding_add \<lparr>unlocking_chunks = [\<lparr>uc_amount = 5, unlock_era = 2\<rparr>, \<lparr>uc_amount = 7, unlock_era = 4\<rparr>]\<rparr>
      \<lparr>uc_amount = 3, unlock_era = 4\<rparr>) = [\<lparr>uc_amount = 5, unlock_era = 2\<rparr>, \<lparr>uc_amount = 10, unlock_era = 4\<rparr>]"
  using unbonding_add_is_insertion [of "\<lparr>unlocking_chunks = [\<lparr>uc_amount = 5, unlock_era = 2\<rparr>, \<lparr>uc_amount = 7, unlock_era = 4\<rparr>]\<rparr>"
      "\<lparr>uc_amount = 3, unlock_era = 4\<rparr>"]
  by (simp add: unbonding_inv_def add_amount_def)

lemma on_initialize_keeps:
  "unbonding_of (snd (staking_on_initialize F cfg n st)) = unbonding_of st"
  "delegation_of (snd (staking_on_initialize F cfg n st)) = delegation_of st"
  by (auto simp: staking_on_initialize_def Let_def rotate_provider_era_info_def snapshot_era_rewards_def
      delegation_of_def unbonding_of_def fun_eq_iff staking_deposit_event_def split: prod.splits)

lemma other_fields_keep [simp]:
  "unbonding_of (st\<lparr>era := e\<rparr>) = unbonding_of st" "delegation_of (st\<lparr>era := e\<rparr>) = delegation_of st"
  "unbonding_of (st\<lparr>provider_info := i\<rparr>) = unbonding_of st" "delegation_of (st\<lparr>provider_info := i\<rparr>) = delegation_of st"
  "unbonding_of (st\<lparr>era_state := m\<rparr>) = unbonding_of st" "delegation_of (st\<lparr>era_state := m\<rparr>) = delegation_of st"
  "unbonding_of (st\<lparr>provider_era_info := q\<rparr>) = unbonding_of st"
  "delegation_of (st\<lparr>provider_era_info := q\<rparr>) = delegation_of st"
  "unbonding_of (st\<lparr>reward_accumulator := r\<rparr>) = unbonding_of st"
  "delegation_of (st\<lparr>reward_accumulator := r\<rparr>) = delegation_of st"
  by (simp_all add: unbonding_of_def delegation_of_def fun_eq_iff)

text \<open>The amount that unlocks for an account in an era that has not come yet only grows.\<close>

lemma exec_unlocks_grow:
  assumes "staking_inv st" and "solvent F (cs, st)" and "staking_call_ok cfg c"
    and exec: "staking_exec F cfg c (cs, st) = Inr (cs', st')" and "current_era st < x"
  shows "unlocks_at (unbonding_of st a) x \<le> unlocks_at (unbonding_of st' a) x"
proof -
  have min: "MinDelegatorStake cfg \<noteq> 0" using assms(3) by (simp add: staking_call_ok_def)
  note add = uq.add_at [OF staking_invD(5) [OF assms(1)]]
  show ?thesis
  proof (cases c)
    case (ProviderBondLess o' p v)
    then have wrap: "unat v + unat (MinProviderStake cfg) < 2 ^ 128"
      using assms(3) by (simp add: staking_call_ok_def bond_sum_fits_def)
    from ProviderBondLess exec have "provider_bond_less F cfg o' p v (cs, st) = Inr (cs', st')" by simp
    then show ?thesis
    proof (cases rule: provider_bond_less_elim)
      case (1 who info pe u)
      from bond_less_fits [OF assms(1,2) 1(3-5) 1(7) [unfolded 1(6)] wrap] 1(8,11) show ?thesis
        by (simp add: add)
    qed
  next
    case (DelegatorUnstake o' p v)
    with exec have "delegator_unstake F cfg o' p v (cs, st) = Inr (cs', st')" by simp
    then show ?thesis
    proof (cases rule: delegator_unstake_elim)
      case (1 who d d' pe staked w full u)
      have "unat w \<le> unat staked" by (rule unstake_amount_le [OF min]) (use 1(8,9) in simp)
      from unstake_fits [OF assms(2) 1(3) this [unfolded 1(4,5)]] 1(13,16) show ?thesis by (simp add: add)
    qed
  next
    case (WithdrawUnbonded o')
    with exec have "withdraw_unbonded F o' (cs, st) = Inr (cs', st')" by simp
    then show ?thesis
    proof (cases rule: withdraw_unbonded_elim)
      case (1 who valid future rest)
      with uq.split_at [OF 1(2), of x] assms(5) show ?thesis by (auto simp: not_less)
    qed
  next
    case (OnInitialize n)
    with exec show ?thesis by (auto simp: on_initialize_keeps)
  qed (use exec in \<open>auto elim!: staking_elims simp: handle_imbalance_def\<close>)
qed

text \<open>C16: Unstaked funds stay locked for the unbonding period. After a delegator has unstaked in era
  \<open>st\<close>, whatever is called afterwards other than a \<^verbatim>\<open>provider_bond_less\<close> whose sum wraps around (one of the
  same account in the same era would merge into the chunk and shrink it), in every later state before the unlock era the queue still holds at
  least the unstaked amount for that era, and none of it is in the part \<open>withdraw_unbonded\<close> would pay. The
  invariant of the pallet and the cover of the reserves hold before, and the minimum stake is positive.\<close>

theorem unstaked_funds_locked:
  assumes "currency_ok F" and "staking_inv st" and "solvent F (cs, st)"
    and "staking_call_ok cfg (DelegatorUnstake o' p v)"
    and "delegator_unstake F cfg o' p v (cs, st) = Inr (cs1, st1)" and "ensure_signed F o' = Some a"
    and "staking_run F cfg (\<lambda>_. staking_call_ok cfg) (cs1, st1) (cs2, st2)"
    and "x = current_era st + UnbondingPeriod cfg" and "current_era st2 < x"
    and "w = min (latest_staked_value (delegation_of st a p)) v"
    and "unbonding_partition (unbonding_of st2 a) (current_era st2) = (valid, future)"
  shows "unat w \<le> unlocks_at (unbonding_of st2 a) x \<and> unlocks_at valid x = 0"
proof -
  let ?P = "\<lambda>t. staking_inv (snd t) \<and> solvent F t \<and>
    (current_era (snd t) < x \<longrightarrow> unat w \<le> unlocks_at (unbonding_of (snd t) a) x)"
  have exec: "staking_exec F cfg (DelegatorUnstake o' p v) (cs, st) = Inr (cs1, st1)" using assms(5) by simp
  have good: "staking_inv (snd t') \<and> solvent F t'"
    if "staking_inv (snd t)" "solvent F t" "staking_call_ok cfg c" "staking_exec F cfg c t = Inr t'" for t c t'
  proof -
    have "staking_run F cfg (\<lambda>_. staking_call_ok cfg) t (staking_apply F cfg c t)"
      by (rule run_step [OF run_refl]) (rule that(3))
    from staking_run_solvent [OF assms(1) this that(1,2)] staking_exec_inv [OF that(1,4)] that(4)
    show ?thesis by (simp add: staking_apply_def)
  qed
  have "unat w \<le> unlocks_at (unbonding_of st1 a) x"
    using assms(5)
  proof (cases rule: delegator_unstake_elim)
    case (1 who d d' pe staked z full u)
    have min: "MinDelegatorStake cfg \<noteq> 0" using assms(4) by (simp add: staking_call_ok_def)
    have "unat z \<le> unat staked" by (rule unstake_amount_le [OF min]) (use 1(8,9) in simp)
    note fits = unstake_fits [OF assms(3) 1(3) this [unfolded 1(4,5)]]
    have "who = a" using 1(1) assms(6) by simp
    moreover have "unat w \<le> unat z" using 1(4,5,9) \<open>who = a\<close> assms(10) by (auto simp: word_le_nat_alt [symmetric])
    ultimately show ?thesis
      using uq.add_at [OF staking_invD(5) [OF assms(2)] _, of who "\<lparr>uc_amount = z, unlock_era = x\<rparr>" x]
        fits 1(13,16) assms(8) by simp
  qed
  with good [OF _ _ assms(4) exec] assms(2,3) have start: "?P (cs1, st1)" by simp
  have "?P (cs2, st2)"
  proof (rule staking_run_induct_exec [where P = ?P, OF assms(7) start])
    fix t c t' assume t: "?P t" and ok: "staking_call_ok cfg c" and ex: "staking_exec F cfg c t = Inr t'"
    obtain cs st cs' st' where eq: "t = (cs, st)" "t' = (cs', st')" by (cases t, cases t')
    have "unat w \<le> unlocks_at (unbonding_of st' a) x" if "current_era st' < x"
    proof -
      have "current_era st < x" using staking_exec_era_mono [of F cfg c cs st cs' st'] ex eq that by simp
      with exec_unlocks_grow [of st F cs cfg c cs' st' x a] t ok ex eq show ?thesis by simp
    qed
    with good [OF _ _ ok ex] t eq show "?P t'" by simp
  qed
  with assms(9) uq.split_at [OF assms(11), of x] show ?thesis by (auto simp: not_less)
qed

theorem unstaked_funds_locked_witness:
  "40 \<le> unlocks_at (unbonding_of (snd (demo_run demo_calls)) 2) 4"
proof -
  let ?s = "demo_run (butlast demo_calls)" and ?t = "demo_run demo_calls"
  have ok: "list_all (staking_call_ok demo_config) (butlast demo_calls)"
    using demo_allowed by (simp add: demo_calls_def)
  have run: "staking_run ledger_frame demo_config (\<lambda>_. staking_call_ok demo_config)
      (demo_ledger, staking_genesis) (fst ?s, snd ?s)" using demo_staking_run [OF ok] by simp
  have inv: "staking_inv (snd ?s)" using staking_run_inv [OF run] by (simp add: staking_inv_genesis)
  have solv: "solvent ledger_frame (fst ?s, snd ?s)"
    by (rule staking_run_solvent [OF ledger_currency_ok run]) (simp_all add: staking_inv_genesis solvent_genesis)
  have "\<not> isl (staking_exec ledger_frame demo_config (DelegatorUnstake (Some 2) 7 40) ?s)" by code_simp
  from exec_apply [OF this] have exec: "delegator_unstake ledger_frame demo_config (Some 2) 7 40 (fst ?s, snd ?s) =
      Inr (fst ?t, snd ?t)" by (simp add: demo_run_def demo_calls_def)
  have eras: "current_era (snd ?s) = 2" "current_era (snd ?t) = 2"
    "latest_staked_value (delegation_of (snd ?s) 2 7) = 100" by code_simp+
  obtain valid future where part: "unbonding_partition (unbonding_of (snd ?t) 2) (current_era (snd ?t)) = (valid, future)"
    by (cases "unbonding_partition (unbonding_of (snd ?t) 2) (current_era (snd ?t))")
  have "staking_call_ok demo_config (DelegatorUnstake (Some 2) 7 40)"
    by (simp add: staking_call_ok_def demo_config_def bond_sum_fits_def)
  from unstaked_funds_locked [OF ledger_currency_ok inv solv this exec _ run_refl refl _ refl part] eras
  show ?thesis by (simp add: ledger_frame_def demo_config_def)
qed

section \<open>Sizes\<close>

definition sizes_ok :: "'ac staking_config \<Rightarrow> ('ac, 'pid) staking_state \<Rightarrow> bool" where
  "sizes_ok cfg st \<longleftrightarrow>
     (\<forall>a p. stakes (delegation_of st a p) = [] \<or> length (stakes (delegation_of st a p)) < unat (MaxEraStakeValues cfg)) \<and>
     (\<forall>a. length (unlocking_chunks (unbonding_of st a)) \<le> unat (MaxUnlockingChunks cfg))"

lemma length_set_last: "length (set_last xs e v) \<le> Suc (length xs)"
  by (simp add: set_last_def)

lemma length_drop_zero_head: "length (drop_zero_head xs) \<le> length xs"
  by (simp add: drop_zero_head_def)

lemma length_claim: "length (stakes (snd (claim d))) \<le> length (stakes d)"
proof (cases "stakes d")
  case (Cons s rest)
  have "length (claim_rest s rest) \<le> length (s # rest)" by (simp add: claim_rest_def)
  with Cons show ?thesis using length_drop_zero_head [of "claim_rest s rest"] by (simp add: claim_Cons)
qed (simp add: claim_def)

lemma history_length:
  assumes "sizes_ok cfg st" and "delegation_len d' < MaxEraStakeValues cfg"
    and "length (stakes d') \<le> Suc (length (stakes (delegation_of st a p)))"
  shows "length (stakes d') < unat (MaxEraStakeValues cfg)"
proof -
  have "length (stakes (delegation_of st a p)) = 0 \<or> length (stakes (delegation_of st a p)) < unat (MaxEraStakeValues cfg)"
    using assms(1) by (auto simp: sizes_ok_def)
  then have "length (stakes d') < 2 ^ 32" using assms(3) unat_bound [of "MaxEraStakeValues cfg"] by auto
  with assms(2) show ?thesis by (simp add: delegation_len_def word_less_nat_alt unat_of_nat)
qed

lemma queue_length:
  assumes "sizes_ok cfg st" and "staking_inv st" and "MaxUnlockingChunks cfg \<noteq> - 1"
    and "unbonding_len (unbonding_add (unbonding_of st a) c) \<le> MaxUnlockingChunks cfg"
  shows "length (unlocking_chunks (unbonding_add (unbonding_of st a) c)) \<le> unat (MaxUnlockingChunks cfg)"
proof -
  have "unat (MaxUnlockingChunks cfg) < 2 ^ 32 - 1"
    using assms(3) unat_Suc_word [of "MaxUnlockingChunks cfg"] unat_bound [of "MaxUnlockingChunks cfg + 1"] by simp
  moreover have "length (unlocking_chunks (unbonding_of st a)) \<le> unat (MaxUnlockingChunks cfg)"
    using assms(1) by (simp add: sizes_ok_def)
  ultimately have "length (unlocking_chunks (unbonding_add (unbonding_of st a) c)) < 2 ^ 32"
    using unbonding_add_length [OF staking_invD(5) [OF assms(2)], of a c] by auto
  with assms(4) show ?thesis by (simp add: unbonding_len_def word_le_nat_alt unat_of_nat)
qed

lemma sizes_cong:
  "sizes_ok cfg st \<Longrightarrow> delegation_of st' = delegation_of st \<Longrightarrow> unbonding_of st' = unbonding_of st \<Longrightarrow> sizes_ok cfg st'"
  by (simp add: sizes_ok_def)

lemma sizes_update:
  assumes "sizes_ok cfg st"
    and "\<And>b q. delegation_of st' b q = (if b = a \<and> q = p then d else delegation_of st b q)"
    and "\<And>b. unbonding_of st' b = (if b = a then u else unbonding_of st b)"
    and "stakes d = [] \<or> length (stakes d) < unat (MaxEraStakeValues cfg)"
    and "length (unlocking_chunks u) \<le> unat (MaxUnlockingChunks cfg)"
  shows "sizes_ok cfg st'"
  using assms by (simp add: sizes_ok_def)

lemma sizes_okD:
  assumes "sizes_ok cfg st"
  shows "stakes (delegation_of st a p) = [] \<or> length (stakes (delegation_of st a p)) < unat (MaxEraStakeValues cfg)"
    and "length (unlocking_chunks (unbonding_of st a)) \<le> unat (MaxUnlockingChunks cfg)"
  using assms by (auto simp: sizes_ok_def)

lemma bond_less_sizes:
  assumes inv: "staking_inv st" and sz: "sizes_ok cfg st" and max: "MaxUnlockingChunks cfg \<noteq> - 1"
    and "provider_bond_less F cfg o' p v (cs, st) = Inr (cs', st')"
  shows "sizes_ok cfg st'"
  using assms(4)
proof (cases rule: provider_bond_less_elim)
  case (1 who info pe u)
  from queue_length [OF sz inv max 1(9) [unfolded 1(8)]] 1(8,11) show ?thesis
    by (intro sizes_update [OF sz, where a = who and p = p and d = "delegation_of st who p" and u = u])
      (use sizes_okD [OF sz] in auto)
qed

lemma delegate_sizes:
  assumes inv: "staking_inv st" and sz: "sizes_ok cfg st" and "delegate F cfg o' p v (cs, st) = Inr (cs', st')"
  shows "sizes_ok cfg st'"
  using assms(3)
proof (cases rule: delegate_elim)
  case (1 who d d' pe pe1 tot)
  have "length (stakes d') \<le> Suc (length (stakes (delegation_of st who p)))"
    using 1(4,8) stake_eq [OF staking_invD(3) [OF inv]] length_set_last by auto
  from history_length [OF sz 1(9) this] 1(13) show ?thesis
    by (intro sizes_update [OF sz, where a = who and p = p and d = d' and u = "unbonding_of st who"])
      (use sizes_okD [OF sz] in auto)
qed

lemma unstake_sizes:
  assumes inv: "staking_inv st" and sz: "sizes_ok cfg st" and max: "MaxUnlockingChunks cfg \<noteq> - 1"
    and "delegator_unstake F cfg o' p v (cs, st) = Inr (cs', st')"
  shows "sizes_ok cfg st'"
  using assms(4)
proof (cases rule: delegator_unstake_elim)
  case (1 who d d' pe staked z full u)
  have "length (stakes d') \<le> Suc (length (stakes (delegation_of st who p)))"
    using 1(4,11) unstake_eq [OF staking_invD(3) [OF inv]] length_set_last order_trans [OF length_drop_zero_head]
    by (auto split: if_splits)
  from history_length [OF sz 1(12) this] queue_length [OF sz inv max 1(14) [unfolded 1(13)]] 1(13,16)
  show ?thesis by (intro sizes_update [OF sz, where a = who and p = p and d = d' and u = u]) auto
qed

text \<open>The calls that only shorten a vector.\<close>

lemma shrinking_sizes:
  assumes sz: "sizes_ok cfg st"
  shows "withdraw_unbonded F o' (cs, st) = Inr (cs', st') \<Longrightarrow> sizes_ok cfg st'"
    and "claim_delegator F cfg o' p (cs, st) = Inr (cs', st') \<Longrightarrow> sizes_ok cfg st'"
    and "delegator_withdraw_unregistered F cfg o' p (cs, st) = Inr (cs', st') \<Longrightarrow> sizes_ok cfg st'"
proof -
  note old = sizes_okD [OF sz]
  show "sizes_ok cfg st'" if "withdraw_unbonded F o' (cs, st) = Inr (cs', st')"
    using that
  proof (cases rule: withdraw_unbonded_elim)
    case (1 who valid future rest)
    have "length (unlocking_chunks future) \<le> unat (MaxUnlockingChunks cfg)"
      using old(2) [of who] unbonding_partition_simps(2) [OF 1(2)] by (simp add: order_trans [OF length_filter_le])
    with 1(5) show ?thesis
      by (intro sizes_update [OF sz, where a = who and p = p and d = "delegation_of st who p" and u = future for p])
        (use old in auto)
  qed
  show "sizes_ok cfg st'" if "claim_delegator F cfg o' p (cs, st) = Inr (cs', st')"
    using that
  proof (cases rule: claim_delegator_elim)
    case (1 who e staked d' info em reward i cs1)
    have "length (stakes d') \<le> length (stakes (delegation_of st who p))"
      using length_claim [of "delegation_of st who p"] 1(2) by simp
    with old(1) [of who p] have "stakes d' = [] \<or> length (stakes d') < unat (MaxEraStakeValues cfg)" by auto
    with 1(11) show ?thesis
      by (intro sizes_update [OF sz, where a = who and p = p and d = d' and u = "unbonding_of st who"])
        (use old in auto)
  qed
  show "sizes_ok cfg st'" if "delegator_withdraw_unregistered F cfg o' p (cs, st) = Inr (cs', st')"
    using that
    by (cases rule: delegator_withdraw_unregistered_elim)
      (intro sizes_update [OF sz, where a = who and p = p and d = Delegation_default and u = "unbonding_of st who" for who];
        use old in auto)
qed

lemma exec_sizes:
  assumes inv: "staking_inv st" and sz: "sizes_ok cfg st" and max: "MaxUnlockingChunks cfg \<noteq> - 1"
    and exec: "staking_exec F cfg c (cs, st) = Inr (cs', st')"
  shows "sizes_ok cfg st'"
proof (cases c)
  case (ProviderBondLess o' p v)
  then show ?thesis using exec bond_less_sizes [OF inv sz max] by simp
next
  case (Delegate o' p v)
  then show ?thesis using exec delegate_sizes [OF inv sz] by simp
next
  case (DelegatorUnstake o' p v)
  then show ?thesis using exec unstake_sizes [OF inv sz max] by simp
next
  case (WithdrawUnbonded o')
  then show ?thesis using exec shrinking_sizes(1) [OF sz] by simp
next
  case (ClaimDelegator o' p)
  then show ?thesis using exec shrinking_sizes(2) [OF sz] by simp
next
  case (DelegatorWithdrawUnregistered o' p)
  then show ?thesis using exec shrinking_sizes(3) [OF sz] by simp
qed (use exec in \<open>auto elim!: staking_elims intro!: sizes_cong [OF sz] simp: handle_imbalance_def on_initialize_keeps\<close>)

lemma sizes_genesis: "sizes_ok cfg staking_genesis"
  by (simp add: sizes_ok_def staking_genesis_def delegation_of_def unbonding_of_def get_or_def)

text \<open>C26: The stored vectors stay within their limits. In every reachable state no history has
  \<^verbatim>\<open>MaxEraStakeValues\<close> entries or more and no account has more than \<^verbatim>\<open>MaxUnlockingChunks\<close> chunks waiting.\<close>

theorem stored_vectors_bounded:
  assumes "MaxUnlockingChunks cfg \<noteq> - 1"
    and "staking_run F cfg allowed (cs, staking_genesis) (cs', st)"
  shows "sizes_ok cfg st"
proof -
  have "staking_inv (snd (cs', st)) \<and> sizes_ok cfg (snd (cs', st))"
    by (rule staking_run_induct_exec [where P = "\<lambda>t. staking_inv (snd t) \<and> sizes_ok cfg (snd t)", OF assms(2)])
      (auto intro: exec_sizes [OF _ _ assms(1)] dest: staking_exec_inv simp: staking_inv_genesis sizes_genesis)
  then show ?thesis by simp
qed

theorem stored_vectors_bounded_witness:
  "sizes_ok demo_config (snd (demo_run demo_calls)) \<and> unlocking_chunks (unbonding_of (snd (demo_run demo_calls)) 2) \<noteq> []"
proof
  show "unlocking_chunks (unbonding_of (snd (demo_run demo_calls)) 2) \<noteq> []" by code_simp
  have "MaxUnlockingChunks demo_config \<noteq> - 1" by (simp add: demo_config_def)
  from stored_vectors_bounded [OF this, of ledger_frame _ demo_ledger "fst (demo_run demo_calls)" "snd (demo_run demo_calls)"]
    demo_staking_run [OF demo_allowed]
  show "sizes_ok demo_config (snd (demo_run demo_calls))" by simp
qed

section \<open>The change of era\<close>

text \<open>C18: A new era starts from the books of the old one. When the block hook ends an era, the next era
  begins at this block, the collected rewards are credited to the ended era and the collection starts
  at zero; the total stake and the entry of every active provider carry over, with the reward not
  claimed yet; delegations, chunks and registrations are untouched.\<close>

theorem era_change_carries_over:
  assumes "staking_inv st" and "should_update (era st) n" and "current_era st \<noteq> - 1"
    and "snd (staking_on_initialize F cfg n st) = st'"
  shows "current_era st' = current_era st + 1 \<and> first_block (era st') = n \<and> reward_accumulator st' = 0 \<and>
    map_option em_rewards (sget (era_state st') (current_era st)) = Some (reward_accumulator st) \<and>
    map_option em_staked (sget (era_state st') (current_era st')) =
      Some (em_staked (get_or EraMetadata_default (era_state st) (current_era st))) \<and>
    (\<forall>p. is_active_provider st p \<longrightarrow>
      sget (provider_era_info st') (p, current_era st') =
        Some ((provider_era_or_default st p (current_era st))\<lparr>pe_reward_claimed := False\<rparr>)) \<and>
    provider_info st' = provider_info st \<and> delegation_info st' = delegation_info st \<and> unbonding_info st' = unbonding_info st"
proof -
  note acc = on_initialize_access [OF assms(2) staking_invD(1) [OF assms(1)] assms(4)]
  have e: "current_era st' = current_era st + 1" using acc(1) assms(3) by (simp add: saturating_Suc)
  have "sget (provider_era_info st') (p, current_era st') =
      Some ((provider_era_or_default st p (current_era st))\<lparr>pe_reward_claimed := False\<rparr>)"
    if active: "is_active_provider st p" for p
  proof -
    obtain info where "sget (provider_info st) p = Some info" "pm_status info = Active"
      using is_active_providerD [OF active] .
    from staking_invD(6) [OF assms(1) this] obtain pe where "sget (provider_era_info st) (p, current_era st) = Some pe"
      by (auto simp: skeys_iff)
    with acc(9) active e show ?thesis by (simp add: provider_era_or_default_def)
  qed
  with acc e show ?thesis by simp
qed

theorem era_change_carries_over_witness:
  "current_era (snd (staking_on_initialize ledger_frame demo_config 11 (snd (demo_run (take 4 demo_calls))))) = 2 \<and>
   sget (provider_era_info (snd (staking_on_initialize ledger_frame demo_config 11 (snd (demo_run (take 4 demo_calls)))))) (7, 2)
     = Some \<lparr>pe_bond = 300, pe_total = 400, pe_delegator_count = 1, pe_reward_claimed = False\<rparr>"
proof -
  let ?st = "snd (demo_run (take 4 demo_calls))"
  have "list_all (staking_call_ok demo_config) (take 4 demo_calls)" using demo_allowed by (simp add: demo_calls_def)
  from staking_run_inv [OF demo_staking_run [OF this]] have inv: "staking_inv ?st" by (simp add: staking_inv_genesis)
  have facts: "should_update (era ?st) 11" "current_era ?st = 1" "is_active_provider ?st 7"
    "provider_era_or_default ?st 7 1 = \<lparr>pe_bond = 300, pe_total = 400, pe_delegator_count = 1, pe_reward_claimed = False\<rparr>"
    by code_simp+
  from era_change_carries_over [OF inv facts(1) _ refl, of ledger_frame demo_config] facts(2-4) show ?thesis
    by auto
qed

end
