(* ===== verification/Reward_Props.thy ===== *)
theory Reward_Props
  imports History_Props
begin

text \<open>
  The shares of a reward. They are fractions of a billion that \<^verbatim>\<open>Perbill::from_rational\<close> rounds down;
  the products round to the nearest unit, so that the shares of an amount can add up to more than the
  amount, but only by half a unit per recipient.
\<close>

section \<open>Rounding\<close>

text \<open>The documentation of \<^verbatim>\<open>Perbill\<close>: a quotient always rounds down, a product to the nearest unit.\<close>

definition perbill_rounds :: "('ac, 'cs, 'o) frame \<Rightarrow> bool" where
  "perbill_rounds F \<longleftrightarrow>
     (\<forall>p q. p \<le> q \<longrightarrow> 0 < q \<longrightarrow> unat (perbill_from_rational F p q) * unat q \<le> unat p * 1000000000) \<and>
     (\<forall>r b. r \<le> 1000000000 \<longrightarrow>
        2 * 1000000000 * unat (perbill_mul F r b) \<le> 2 * unat r * unat b + 1000000000)"

lemma ledger_perbill_rounds: "perbill_rounds ledger_frame"
  unfolding perbill_rounds_def
proof (intro conjI allI impI)
  fix p q :: u128
  assume le: "p \<le> q" and pos: "0 < q"
  show "unat (perbill_from_rational ledger_frame p q) * unat q \<le> unat p * 1000000000"
  proof (cases "q \<le> p")
    case True
    then have "p = q" using le by simp
    then show ?thesis by (simp add: ledger_frame_def ledger_from_rational_def)
  next
    case False
    have "unat p \<le> unat q" using le by (simp add: word_le_nat_alt)
    then have "unat p * 1000000000 div unat q \<le> 1000000000"
      using pos div_le_mono [of "unat p * 1000000000" "unat q * 1000000000" "unat q"]
      by (simp add: word_less_nat_alt)
    with False show ?thesis
      by (simp add: ledger_frame_def ledger_from_rational_def unat_of_nat div_times_less_eq_dividend)
  qed
next
  fix r :: u32 and b :: u128
  assume "r \<le> 1000000000"
  then have "unat r \<le> unat (1000000000 :: u32)" by (simp add: word_le_nat_alt)
  then have "unat r * unat b \<le> 1000000000 * unat b" by simp
  then have "(unat r * unat b + 500000000) div 1000000000 \<le> unat b" by linarith
  then have "(unat r * unat b + 500000000) div 1000000000 < 2 ^ 128"
    using unat_less_u128 [of b] by linarith
  moreover have "2 * 1000000000 * ((unat r * unat b + 500000000) div 1000000000) \<le> 2 * (unat r * unat b) + 1000000000"
    by linarith
  ultimately show "2 * 1000000000 * unat (perbill_mul ledger_frame r b) \<le> 2 * unat r * unat b + 1000000000"
    by (simp add: ledger_frame_def ledger_perbill_mul_def unat_of_nat mult.assoc)
qed

text \<open>Amounts that add up to at most the whole, each with its rounded share of \<open>b\<close>.\<close>

lemma shares_bounded:
  assumes "perbill_ok F" and "perbill_rounds F" and fin: "finite A" and pos: "0 < q"
    and sum: "(\<Sum>x \<in> A. unat (p x)) \<le> unat q"
  shows "2 * (\<Sum>x \<in> A. unat (perbill_mul F (perbill_from_rational F (p x) q) b)) \<le> 2 * unat b + card A"
proof -
  let ?r = "\<lambda>x. perbill_from_rational F (p x) q" and ?B = "1000000000 :: nat"
  have each: "p x \<le> q" if "x \<in> A" for x
    using sum_member_le [OF fin that, of "\<lambda>x. unat (p x)"] sum by (simp add: word_le_nat_alt)
  have one: "?r x \<le> 1000000000" for x using perbill_from_rational_le [OF assms(1)] assms(1) by (simp add: perbill_ok_def)
  have "(\<Sum>x \<in> A. unat (?r x)) * unat q \<le> (\<Sum>x \<in> A. unat (p x) * ?B)"
    unfolding sum_distrib_right by (rule sum_mono) (use each pos assms(2) in \<open>auto simp: perbill_rounds_def\<close>)
  also have "\<dots> \<le> unat q * ?B" unfolding sum_distrib_right [symmetric] using sum by simp
  finally have R: "(\<Sum>x \<in> A. unat (?r x)) \<le> ?B" using pos by (simp add: word_less_nat_alt mult.commute)
  have "2 * ?B * (\<Sum>x \<in> A. unat (perbill_mul F (?r x) b)) \<le> (\<Sum>x \<in> A. 2 * unat (?r x) * unat b + ?B)"
    unfolding sum_distrib_left by (rule sum_mono) (use one assms(2) in \<open>auto simp: perbill_rounds_def\<close>)
  also have "\<dots> = 2 * unat b * (\<Sum>x \<in> A. unat (?r x)) + card A * ?B"
    by (simp add: sum.distrib sum_distrib_left ac_simps)
  also have "\<dots> \<le> 2 * unat b * ?B + card A * ?B" using R by simp
  also have "\<dots> = ?B * (2 * unat b + card A)" by (simp add: algebra_simps)
  finally show ?thesis by simp
qed

section \<open>The payouts of an era\<close>

text \<open>What \<open>claim_provider\<close> pays to the owner and \<open>claim_delegator\<close> to a delegator with stake \<open>staked\<close>, for era \<open>e\<close>.\<close>

definition provider_payout ::
    "('ac, 'cs, 'o) frame \<Rightarrow> 'ac staking_config \<Rightarrow> ('ac, 'pid) staking_state \<Rightarrow> 'pid \<Rightarrow> era_index \<Rightarrow> u128" where
  "provider_payout F cfg st p e =
     fst (split_provider_delegators_rewards F cfg (provider_era_or_default st p e)
       (get_or EraMetadata_default (era_state st) e))"

definition delegator_payout ::
    "('ac, 'cs, 'o) frame \<Rightarrow> 'ac staking_config \<Rightarrow> ('ac, 'pid) staking_state \<Rightarrow> u128 \<Rightarrow> 'pid \<Rightarrow> era_index \<Rightarrow> u128" where
  "delegator_payout F cfg st staked p e =
     (let pe = provider_era_or_default st p e in
      perbill_mul F (perbill_from_rational F staked (saturating_sub (pe_total pe) (pe_bond pe)))
        (snd (split_provider_delegators_rewards F cfg pe (get_or EraMetadata_default (era_state st) e))))"

end
