(* ===== verification/Dapi.thy ===== *)
theory Dapi
  imports Frame
begin

text \<open>
  \<^verbatim>\<open>pallets/dapi\<close>: projects that buy request quota, providers that regulators register and owners
  activate with a deposit, the regulators and the known chain ids, and the signed extension that
  keeps the free regulator calls to regulators.

  The pallet reaches the staking pallet only through the trait \<^verbatim>\<open>DapiStakingRegistration\<close> and the
  payment handler \<^verbatim>\<open>OnProjectPayment\<close>, both associated types of its \<^verbatim>\<open>Config\<close>; here they are
  fields of the configuration, functions on the storage \<open>'w\<close> of the other pallets. What the pallet
  may expect of them is the locale \<open>provider_registry\<close>.
\<close>

section \<open>Types, configuration, storage\<close>

datatype provider_type = Gateway | Node

datatype deactivate_reason =
  BadPerformance u64 u32 u32
| OutOfSync
| UnRegistered

datatype dapi_provider_status =
  Registered
| ActiveProvider
| InActive deactivate_reason

type_synonym chain_id = "u8 list"

record 'ac project =
  consumer :: 'ac
  pr_chain_id :: chain_id
  quota :: u128
  usage :: u128

record 'ac provider =
  dp_type :: provider_type
  dp_owner :: 'ac
  dp_chain_id :: chain_id
  dp_status :: dapi_provider_status

datatype dapi_error =
  ProjectExists | ProjectDNE | AlreadyExist | InactiveProvider | DapiProviderDNE | NotOwner
| PermissionDenied | InvalidProviderStatus | InvalidChainId

datatype ('ac, 'pid) dapi_event =
  ProjectRegistered 'pid 'ac chain_id u128
| ProjectDeposited 'pid u128
| ProjectUsageUpdated 'pid u128
| ProviderRegistered 'pid provider_type 'ac chain_id
| ProviderActivated 'pid provider_type
| ProviderDeactivated 'pid provider_type deactivate_reason
| ChainIdAdded chain_id
| ChainIdRemoved chain_id
| RegulatorAdded 'ac
| RegulatorRemoved 'ac

text \<open>\<open>'e\<close> is the error enum of the staking pallet, \<open>'w\<close> the storage behind the currency and the
  staking pallet.\<close>

record ('ac, 'pid, 'w, 'e) dapi_config =
  MaxChainIdLength :: u32
  ds_register :: "'ac \<Rightarrow> 'pid \<Rightarrow> u128 \<Rightarrow> 'w \<Rightarrow> ('e, 'w) dispatch"
  ds_unregister :: "'pid \<Rightarrow> 'w \<Rightarrow> ('e, 'w) dispatch"
  currency_withdraw :: "'ac \<Rightarrow> u128 \<Rightarrow> existence_requirement \<Rightarrow> 'w \<Rightarrow> nat + (u128 \<times> 'w)"
  on_project_payment :: "u128 \<Rightarrow> 'w \<Rightarrow> 'w"

record ('ac, 'pid) dapi_state =
  projects :: "('pid, 'ac project) storage"
  providers :: "('pid, 'ac provider) storage"
  regulators :: "'ac set"
  chain_ids :: "chain_id set"
  dapi_events :: "('ac, 'pid) dapi_event list"

type_synonym ('ac, 'pid, 'w, 'e) dapi_result =
  "('e + dapi_error, 'w \<times> ('ac, 'pid) dapi_state) dispatch"

text \<open>An error of the pallet itself, and one that \<^verbatim>\<open>?\<close> passes on from the staking pallet.\<close>

abbreviation dapi_err :: "dapi_error \<Rightarrow> ('e + dapi_error, 'a) dispatch" where
  "dapi_err x \<equiv> Inl (ModuleError (Inr x))"

definition from_staking :: "'e dispatch_error \<Rightarrow> ('e + dapi_error) dispatch_error" where
  "from_staking x = map_dispatch_error Inl x"

definition dapi_deposit_event ::
    "('ac, 'pid) dapi_event \<Rightarrow> ('ac, 'pid) dapi_state \<Rightarrow> ('ac, 'pid) dapi_state" where
  "dapi_deposit_event ev st = st\<lparr>dapi_events := dapi_events st @ [ev]\<rparr>"

text \<open>\<^verbatim>\<open>Vec<u8>::try_into::<BoundedVec<u8, MaxChainIdLength>>\<close>.\<close>

definition bounded_chain_id :: "('ac, 'pid, 'w, 'e) dapi_config \<Rightarrow> u8 list \<Rightarrow> chain_id option" where
  "bounded_chain_id cfg v = (if length v \<le> unat (MaxChainIdLength cfg) then Some v else None)"

definition calculate_quota :: "u128 \<Rightarrow> u128" where
  "calculate_quota amount = amount div 1000000000000000"

section \<open>Genesis\<close>

text \<open>A chain id that is too long makes \<^verbatim>\<open>unwrap\<close> panic, so there is no genesis state.\<close>

fun genesis_chain_ids :: "('ac, 'pid, 'w, 'e) dapi_config \<Rightarrow> u8 list list \<Rightarrow> chain_id set option" where
  "genesis_chain_ids cfg [] = Some {}"
| "genesis_chain_ids cfg (c # cs) =
     (case bounded_chain_id cfg c of
        None \<Rightarrow> None
      | Some c' \<Rightarrow> map_option (insert c') (genesis_chain_ids cfg cs))"

definition dapi_genesis_build ::
    "('ac, 'pid, 'w, 'e) dapi_config \<Rightarrow> 'ac list \<Rightarrow> u8 list list \<Rightarrow> ('ac, 'pid) dapi_state option" where
  "dapi_genesis_build cfg rs cs =
     (case genesis_chain_ids cfg cs of
        None \<Rightarrow> None
      | Some ids \<Rightarrow> Some \<lparr>projects = [], providers = [], regulators = set rs, chain_ids = ids,
          dapi_events = []\<rparr>)"

section \<open>The calls\<close>

definition register_project ::
    "('ac, 'cs, 'o) frame \<Rightarrow> ('ac, 'pid, 'w, 'e) dapi_config \<Rightarrow> 'o \<Rightarrow> 'pid \<Rightarrow> u8 list \<Rightarrow> u128 \<Rightarrow>
     'w \<times> ('ac, 'pid) dapi_state \<Rightarrow> ('ac, 'pid, 'w, 'e) dapi_result" where
  "register_project F cfg origin project_id c deposit = (\<lambda>(w, st).
     case ensure_signed F origin of None \<Rightarrow> Inl BadOrigin | Some who \<Rightarrow>
     if sget (projects st) project_id \<noteq> None then dapi_err ProjectExists
     else case bounded_chain_id cfg c of None \<Rightarrow> dapi_err InvalidChainId | Some c' \<Rightarrow>
     if c' \<notin> chain_ids st then dapi_err InvalidChainId
     else case currency_withdraw cfg who deposit KeepAlive w of Inl err \<Rightarrow> Inl (CurrencyError err)
     | Inr (imbalance, w1) \<Rightarrow>
       (let w2 = on_project_payment cfg imbalance w1;
            q = calculate_quota deposit
        in Inr (w2, dapi_deposit_event (ProjectRegistered project_id who c q)
             (st\<lparr>projects := sinsert project_id
                \<lparr>consumer = who, pr_chain_id = c', quota = q, usage = 0\<rparr> (projects st)\<rparr>))))"

definition deposit_project ::
    "('ac, 'cs, 'o) frame \<Rightarrow> ('ac, 'pid, 'w, 'e) dapi_config \<Rightarrow> 'o \<Rightarrow> 'pid \<Rightarrow> u128 \<Rightarrow>
     'w \<times> ('ac, 'pid) dapi_state \<Rightarrow> ('ac, 'pid, 'w, 'e) dapi_result" where
  "deposit_project F cfg origin project_id deposit = (\<lambda>(w, st).
     case ensure_signed F origin of None \<Rightarrow> Inl BadOrigin | Some who \<Rightarrow>
     case sget (projects st) project_id of None \<Rightarrow> dapi_err ProjectDNE | Some pr \<Rightarrow>
     (let q = saturating_add (quota pr) (calculate_quota deposit); pr' = pr\<lparr>quota := q\<rparr> in
      case currency_withdraw cfg who deposit KeepAlive w of Inl err \<Rightarrow> Inl (CurrencyError err)
      | Inr (imbalance, w1) \<Rightarrow>
        (let w2 = on_project_payment cfg imbalance w1
         in Inr (w2, dapi_deposit_event (ProjectDeposited project_id q)
              (st\<lparr>projects := sinsert project_id pr' (projects st)\<rparr>)))))"

definition submit_project_usage ::
    "('ac, 'cs, 'o) frame \<Rightarrow> 'o \<Rightarrow> 'pid \<Rightarrow> u128 \<Rightarrow>
     'w \<times> ('ac, 'pid) dapi_state \<Rightarrow> ('ac, 'pid, 'w, 'e) dapi_result" where
  "submit_project_usage F origin project_id v = (\<lambda>(w, st).
     case ensure_signed F origin of None \<Rightarrow> Inl BadOrigin | Some regulator \<Rightarrow>
     if regulator \<notin> regulators st then dapi_err PermissionDenied
     else case sget (projects st) project_id of None \<Rightarrow> dapi_err ProjectDNE | Some pr \<Rightarrow>
       (let u = min (saturating_add (usage pr) v) (quota pr)
        in Inr (w, dapi_deposit_event (ProjectUsageUpdated project_id u)
             (st\<lparr>projects := sinsert project_id (pr\<lparr>usage := u\<rparr>) (projects st)\<rparr>))))"

definition dapi_register_provider ::
    "('ac, 'cs, 'o) frame \<Rightarrow> ('ac, 'pid, 'w, 'e) dapi_config \<Rightarrow> 'o \<Rightarrow> 'pid \<Rightarrow> provider_type \<Rightarrow> 'ac \<Rightarrow>
     u8 list \<Rightarrow> 'w \<times> ('ac, 'pid) dapi_state \<Rightarrow> ('ac, 'pid, 'w, 'e) dapi_result" where
  "dapi_register_provider F cfg origin provider_id t owner c = (\<lambda>(w, st).
     case ensure_signed F origin of None \<Rightarrow> Inl BadOrigin | Some regulator \<Rightarrow>
     if regulator \<notin> regulators st then dapi_err PermissionDenied
     else if sget (providers st) provider_id \<noteq> None then dapi_err AlreadyExist
     else case bounded_chain_id cfg c of None \<Rightarrow> dapi_err InvalidChainId | Some c' \<Rightarrow>
     if c' \<notin> chain_ids st then dapi_err InvalidChainId
     else Inr (w, dapi_deposit_event (ProviderRegistered provider_id t owner c)
            (st\<lparr>providers := sinsert provider_id
               \<lparr>dp_type = t, dp_owner = owner, dp_chain_id = c', dp_status = Registered\<rparr>
               (providers st)\<rparr>)))"

definition deposit_provider ::
    "('ac, 'cs, 'o) frame \<Rightarrow> ('ac, 'pid, 'w, 'e) dapi_config \<Rightarrow> 'o \<Rightarrow> 'pid \<Rightarrow> u128 \<Rightarrow>
     'w \<times> ('ac, 'pid) dapi_state \<Rightarrow> ('ac, 'pid, 'w, 'e) dapi_result" where
  "deposit_provider F cfg origin provider_id deposit = (\<lambda>(w, st).
     case ensure_signed F origin of None \<Rightarrow> Inl BadOrigin | Some owner \<Rightarrow>
     case sget (providers st) provider_id of None \<Rightarrow> dapi_err DapiProviderDNE | Some pv \<Rightarrow>
     if dp_owner pv \<noteq> owner then dapi_err NotOwner
     else if dp_status pv \<noteq> Registered then dapi_err InvalidProviderStatus
     else case ds_register cfg owner provider_id deposit w of Inl err \<Rightarrow> Inl (from_staking err)
     | Inr w' \<Rightarrow>
         Inr (w', dapi_deposit_event (ProviderActivated provider_id (dp_type pv))
           (st\<lparr>providers := sinsert provider_id (pv\<lparr>dp_status := ActiveProvider\<rparr>) (providers st)\<rparr>)))"

definition dapi_unregister_provider ::
    "('ac, 'cs, 'o) frame \<Rightarrow> ('ac, 'pid, 'w, 'e) dapi_config \<Rightarrow> 'o \<Rightarrow> 'pid \<Rightarrow>
     'w \<times> ('ac, 'pid) dapi_state \<Rightarrow> ('ac, 'pid, 'w, 'e) dapi_result" where
  "dapi_unregister_provider F cfg origin provider_id = (\<lambda>(w, st).
     case ensure_signed F origin of None \<Rightarrow> Inl BadOrigin | Some account \<Rightarrow>
     case sget (providers st) provider_id of None \<Rightarrow> dapi_err DapiProviderDNE | Some pv \<Rightarrow>
     if dp_owner pv \<noteq> account then dapi_err NotOwner
     else if dp_status pv \<noteq> ActiveProvider then dapi_err InvalidProviderStatus
     else case ds_unregister cfg provider_id w of Inl err \<Rightarrow> Inl (from_staking err)
     | Inr w' \<Rightarrow>
         Inr (w', dapi_deposit_event (ProviderDeactivated provider_id (dp_type pv) UnRegistered)
           (st\<lparr>providers := sinsert provider_id (pv\<lparr>dp_status := InActive UnRegistered\<rparr>)
              (providers st)\<rparr>)))"

definition report_provider_offence ::
    "('ac, 'cs, 'o) frame \<Rightarrow> ('ac, 'pid, 'w, 'e) dapi_config \<Rightarrow> 'o \<Rightarrow> 'pid \<Rightarrow> deactivate_reason \<Rightarrow>
     'w \<times> ('ac, 'pid) dapi_state \<Rightarrow> ('ac, 'pid, 'w, 'e) dapi_result" where
  "report_provider_offence F cfg origin provider_id reason = (\<lambda>(w, st).
     case ensure_signed F origin of None \<Rightarrow> Inl BadOrigin | Some regulator \<Rightarrow>
     if regulator \<notin> regulators st then dapi_err PermissionDenied
     else case sget (providers st) provider_id of None \<Rightarrow> dapi_err DapiProviderDNE | Some pv \<Rightarrow>
     if dp_status pv \<noteq> ActiveProvider then dapi_err InvalidProviderStatus
     else case ds_unregister cfg provider_id w of Inl err \<Rightarrow> Inl (from_staking err)
     | Inr w' \<Rightarrow>
         Inr (w', dapi_deposit_event (ProviderDeactivated provider_id (dp_type pv) reason)
           (st\<lparr>providers := sinsert provider_id (pv\<lparr>dp_status := InActive reason\<rparr>) (providers st)\<rparr>)))"

definition add_regulator ::
    "('ac, 'cs, 'o) frame \<Rightarrow> 'o \<Rightarrow> 'ac \<Rightarrow> 'w \<times> ('ac, 'pid) dapi_state \<Rightarrow>
     ('ac, 'pid, 'w, 'e) dapi_result" where
  "add_regulator F origin account_id = (\<lambda>(w, st).
     if \<not> ensure_root F origin then Inl BadOrigin
     else if account_id \<in> regulators st then dapi_err AlreadyExist
     else Inr (w, dapi_deposit_event (RegulatorAdded account_id)
            (st\<lparr>regulators := insert account_id (regulators st)\<rparr>)))"

definition remove_regulator ::
    "('ac, 'cs, 'o) frame \<Rightarrow> 'o \<Rightarrow> 'ac \<Rightarrow> 'w \<times> ('ac, 'pid) dapi_state \<Rightarrow>
     ('ac, 'pid, 'w, 'e) dapi_result" where
  "remove_regulator F origin account_id = (\<lambda>(w, st).
     if \<not> ensure_root F origin then Inl BadOrigin
     else if account_id \<notin> regulators st then dapi_err PermissionDenied
     else Inr (w, dapi_deposit_event (RegulatorRemoved account_id)
            (st\<lparr>regulators := regulators st - {account_id}\<rparr>)))"

definition add_chain_id ::
    "('ac, 'cs, 'o) frame \<Rightarrow> ('ac, 'pid, 'w, 'e) dapi_config \<Rightarrow> 'o \<Rightarrow> u8 list \<Rightarrow>
     'w \<times> ('ac, 'pid) dapi_state \<Rightarrow> ('ac, 'pid, 'w, 'e) dapi_result" where
  "add_chain_id F cfg origin c = (\<lambda>(w, st).
     if \<not> ensure_root F origin then Inl BadOrigin
     else case bounded_chain_id cfg c of None \<Rightarrow> dapi_err InvalidChainId | Some c' \<Rightarrow>
     if c' \<in> chain_ids st then dapi_err AlreadyExist
     else Inr (w, dapi_deposit_event (ChainIdAdded c)
            (st\<lparr>chain_ids := insert c' (chain_ids st)\<rparr>)))"

definition remove_chain_id ::
    "('ac, 'cs, 'o) frame \<Rightarrow> ('ac, 'pid, 'w, 'e) dapi_config \<Rightarrow> 'o \<Rightarrow> u8 list \<Rightarrow>
     'w \<times> ('ac, 'pid) dapi_state \<Rightarrow> ('ac, 'pid, 'w, 'e) dapi_result" where
  "remove_chain_id F cfg origin c = (\<lambda>(w, st).
     if \<not> ensure_root F origin then Inl BadOrigin
     else case bounded_chain_id cfg c of None \<Rightarrow> dapi_err InvalidChainId | Some c' \<Rightarrow>
     if c' \<notin> chain_ids st then dapi_err InvalidChainId
     else Inr (w, dapi_deposit_event (ChainIdRemoved c)
            (st\<lparr>chain_ids := chain_ids st - {c'}\<rparr>)))"

section \<open>The call enum and the signed extension\<close>

datatype ('ac, 'pid) dapi_call =
  RegisterProject 'pid "u8 list" u128
| DepositProject 'pid u128
| SubmitProjectUsage 'pid u128
| DapiRegisterProvider 'pid provider_type 'ac "u8 list"
| DepositProvider 'pid u128
| DapiUnregisterProvider 'pid
| ReportProviderOffence 'pid deactivate_reason
| AddRegulator 'ac
| RemoveRegulator 'ac
| AddChainId "u8 list"
| RemoveChainId "u8 list"

fun dapi_exec ::
    "('ac, 'cs, 'o) frame \<Rightarrow> ('ac, 'pid, 'w, 'e) dapi_config \<Rightarrow> 'o \<times> ('ac, 'pid) dapi_call \<Rightarrow>
     'w \<times> ('ac, 'pid) dapi_state \<Rightarrow> ('ac, 'pid, 'w, 'e) dapi_result" where
  "dapi_exec F cfg (o', RegisterProject p c v) s = register_project F cfg o' p c v s"
| "dapi_exec F cfg (o', DepositProject p v) s = deposit_project F cfg o' p v s"
| "dapi_exec F cfg (o', SubmitProjectUsage p v) s = submit_project_usage F o' p v s"
| "dapi_exec F cfg (o', DapiRegisterProvider p t a c) s = dapi_register_provider F cfg o' p t a c s"
| "dapi_exec F cfg (o', DepositProvider p v) s = deposit_provider F cfg o' p v s"
| "dapi_exec F cfg (o', DapiUnregisterProvider p) s = dapi_unregister_provider F cfg o' p s"
| "dapi_exec F cfg (o', ReportProviderOffence p r) s = report_provider_offence F cfg o' p r s"
| "dapi_exec F cfg (o', AddRegulator a) s = add_regulator F o' a s"
| "dapi_exec F cfg (o', RemoveRegulator a) s = remove_regulator F o' a s"
| "dapi_exec F cfg (o', AddChainId c) s = add_chain_id F cfg o' c s"
| "dapi_exec F cfg (o', RemoveChainId c) s = remove_chain_id F cfg o' c s"

datatype invalid_transaction = BadSigner

text \<open>The extension sees the call of the whole runtime; \<open>None\<close> stands for a call of another pallet
  (\<^verbatim>\<open>is_sub_type\<close>). \<^verbatim>\<open>pre_dispatch\<close> runs the same check.\<close>

definition regulator_call :: "('ac, 'pid) dapi_call \<Rightarrow> bool" where
  "regulator_call c = (case c of
     SubmitProjectUsage _ _ \<Rightarrow> True
   | DapiRegisterProvider _ _ _ _ \<Rightarrow> True
   | ReportProviderOffence _ _ \<Rightarrow> True
   | _ \<Rightarrow> False)"

definition PreValidate_validate ::
    "('ac, 'pid) dapi_state \<Rightarrow> 'ac \<Rightarrow> ('ac, 'pid) dapi_call option \<Rightarrow> invalid_transaction + unit" where
  "PreValidate_validate st who call =
     (case call of
        Some local_call \<Rightarrow>
          if regulator_call local_call \<and> who \<notin> regulators st then Inl BadSigner else Inr ()
      | None \<Rightarrow> Inr ())"

definition PreValidate_pre_dispatch ::
    "('ac, 'pid) dapi_state \<Rightarrow> 'ac \<Rightarrow> ('ac, 'pid) dapi_call option \<Rightarrow> invalid_transaction + unit" where
  "PreValidate_pre_dispatch st who call = PreValidate_validate st who call"

end
