(* ===== verification/Dapi_Inv.thy ===== *)
theory Dapi_Inv
  imports Dapi
begin

text \<open>
  The invariants of the dapi pallet: usage never exceeds quota, chain ids respect the length bound,
  only regulators drive the regulator calls; and, for any staking pallet that keeps the contract of
  the locale \<open>provider_registry\<close>, the provider records of the two pallets stay in step.
\<close>

section \<open>The invariant of the pallet's own storage\<close>

definition dapi_inv :: "('ac, 'pid, 'w, 'e) dapi_config \<Rightarrow> ('ac, 'pid) dapi_state \<Rightarrow> bool" where
  "dapi_inv cfg st \<longleftrightarrow>
     (\<forall>p pr. sget (projects st) p = Some pr \<longrightarrow>
        usage pr \<le> quota pr \<and> length (pr_chain_id pr) \<le> unat (MaxChainIdLength cfg)) \<and>
     (\<forall>p pv. sget (providers st) p = Some pv \<longrightarrow> length (dp_chain_id pv) \<le> unat (MaxChainIdLength cfg)) \<and>
     (\<forall>c \<in> chain_ids st. length c \<le> unat (MaxChainIdLength cfg))"

lemma bounded_chain_id_iff:
  "bounded_chain_id cfg c = Some c' \<longleftrightarrow> c' = c \<and> length c \<le> unat (MaxChainIdLength cfg)"
  by (auto simp: bounded_chain_id_def)

lemma dapi_event_access [simp]:
  "projects (dapi_deposit_event ev st) = projects st"
  "providers (dapi_deposit_event ev st) = providers st"
  "regulators (dapi_deposit_event ev st) = regulators st"
  "chain_ids (dapi_deposit_event ev st) = chain_ids st"
  by (simp_all add: dapi_deposit_event_def)

lemma saturating_add_ge: "(a :: 'a::len word) \<le> saturating_add a b"
proof -
  have "unat a \<le> 2 ^ LENGTH('a) - 1" using unat_bound [of a] by linarith
  then show ?thesis by (simp add: word_le_nat_alt unat_saturating_add)
qed

text \<open>Exactly what a successful call did.\<close>

lemmas dapi_call_defs = register_project_def deposit_project_def submit_project_usage_def
  dapi_register_provider_def deposit_provider_def dapi_unregister_provider_def
  report_provider_offence_def add_regulator_def remove_regulator_def add_chain_id_def
  remove_chain_id_def

lemmas call_splits = option.splits if_splits sum.splits prod.splits

lemma register_project_elim:
  assumes "register_project F cfg o' p c v (w, st) = Inr (w', st')"
  obtains who i w1 where "ensure_signed F o' = Some who" and "sget (projects st) p = None"
    and "length c \<le> unat (MaxChainIdLength cfg)" and "c \<in> chain_ids st"
    and "currency_withdraw cfg who v KeepAlive w = Inr (i, w1)" and "w' = on_project_payment cfg i w1"
    and "st' = dapi_deposit_event (ProjectRegistered p who c (calculate_quota v))
      (st\<lparr>projects := sinsert p \<lparr>consumer = who, pr_chain_id = c, quota = calculate_quota v, usage = 0\<rparr>
        (projects st)\<rparr>)"
  using assms that
  by (auto simp: register_project_def Let_def bounded_chain_id_iff split: call_splits)

lemma deposit_project_elim:
  assumes "deposit_project F cfg o' p v (w, st) = Inr (w', st')"
  obtains who pr q i w1 where "ensure_signed F o' = Some who" and "sget (projects st) p = Some pr"
    and "q = saturating_add (quota pr) (calculate_quota v)"
    and "currency_withdraw cfg who v KeepAlive w = Inr (i, w1)" and "w' = on_project_payment cfg i w1"
    and "st' = dapi_deposit_event (ProjectDeposited p q)
      (st\<lparr>projects := sinsert p (pr\<lparr>quota := q\<rparr>) (projects st)\<rparr>)"
  using assms that by (auto simp: deposit_project_def Let_def split: call_splits)

lemma submit_project_usage_elim:
  assumes "submit_project_usage F o' p v (w, st) = Inr (w', st')"
  obtains who pr u where "ensure_signed F o' = Some who" and "who \<in> regulators st"
    and "sget (projects st) p = Some pr" and "u = min (saturating_add (usage pr) v) (quota pr)"
    and "w' = w" and "st' = dapi_deposit_event (ProjectUsageUpdated p u)
      (st\<lparr>projects := sinsert p (pr\<lparr>usage := u\<rparr>) (projects st)\<rparr>)"
  using assms that by (auto simp: submit_project_usage_def Let_def split: call_splits)

lemma dapi_register_provider_elim:
  assumes "dapi_register_provider F cfg o' p t a c (w, st) = Inr (w', st')"
  obtains who where "ensure_signed F o' = Some who" and "who \<in> regulators st"
    and "sget (providers st) p = None" and "length c \<le> unat (MaxChainIdLength cfg)"
    and "c \<in> chain_ids st" and "w' = w"
    and "st' = dapi_deposit_event (ProviderRegistered p t a c) (st\<lparr>providers := sinsert p
      \<lparr>dp_type = t, dp_owner = a, dp_chain_id = c, dp_status = Registered\<rparr> (providers st)\<rparr>)"
  using assms that
  by (auto simp: dapi_register_provider_def bounded_chain_id_iff split: call_splits)

lemma deposit_provider_elim:
  assumes "deposit_provider F cfg o' p v (w, st) = Inr (w', st')"
  obtains pv where "ensure_signed F o' = Some (dp_owner pv)" and "sget (providers st) p = Some pv"
    and "dp_status pv = Registered" and "ds_register cfg (dp_owner pv) p v w = Inr w'"
    and "st' = dapi_deposit_event (ProviderActivated p (dp_type pv))
      (st\<lparr>providers := sinsert p (pv\<lparr>dp_status := ActiveProvider\<rparr>) (providers st)\<rparr>)"
  using assms that by (auto simp: deposit_provider_def split: call_splits)

lemma dapi_unregister_provider_elim:
  assumes "dapi_unregister_provider F cfg o' p (w, st) = Inr (w', st')"
  obtains pv where "ensure_signed F o' = Some (dp_owner pv)" and "sget (providers st) p = Some pv"
    and "dp_status pv = ActiveProvider" and "ds_unregister cfg p w = Inr w'"
    and "st' = dapi_deposit_event (ProviderDeactivated p (dp_type pv) UnRegistered)
      (st\<lparr>providers := sinsert p (pv\<lparr>dp_status := InActive UnRegistered\<rparr>) (providers st)\<rparr>)"
  using assms that by (auto simp: dapi_unregister_provider_def split: call_splits)

lemma report_provider_offence_elim:
  assumes "report_provider_offence F cfg o' p r (w, st) = Inr (w', st')"
  obtains who pv where "ensure_signed F o' = Some who" and "who \<in> regulators st"
    and "sget (providers st) p = Some pv" and "dp_status pv = ActiveProvider"
    and "ds_unregister cfg p w = Inr w'"
    and "st' = dapi_deposit_event (ProviderDeactivated p (dp_type pv) r)
      (st\<lparr>providers := sinsert p (pv\<lparr>dp_status := InActive r\<rparr>) (providers st)\<rparr>)"
  using assms that by (auto simp: report_provider_offence_def split: call_splits)

lemma root_call_elims:
  "add_regulator F o' a (w, st) = Inr (w', st') \<Longrightarrow> ensure_root F o' \<and> w' = w \<and>
     st' = dapi_deposit_event (RegulatorAdded a) (st\<lparr>regulators := insert a (regulators st)\<rparr>)"
  "remove_regulator F o' a (w, st) = Inr (w', st') \<Longrightarrow> ensure_root F o' \<and> w' = w \<and>
     st' = dapi_deposit_event (RegulatorRemoved a) (st\<lparr>regulators := regulators st - {a}\<rparr>)"
  "add_chain_id F cfg o' c (w, st) = Inr (w', st') \<Longrightarrow> ensure_root F o' \<and> w' = w \<and>
     length c \<le> unat (MaxChainIdLength cfg) \<and>
     st' = dapi_deposit_event (ChainIdAdded c) (st\<lparr>chain_ids := insert c (chain_ids st)\<rparr>)"
  "remove_chain_id F cfg o' c (w, st) = Inr (w', st') \<Longrightarrow> ensure_root F o' \<and> w' = w \<and>
     st' = dapi_deposit_event (ChainIdRemoved c) (st\<lparr>chain_ids := chain_ids st - {c}\<rparr>)"
  by (auto simp: add_regulator_def remove_regulator_def add_chain_id_def remove_chain_id_def
      bounded_chain_id_iff split: call_splits)

lemmas dapi_elims = register_project_elim deposit_project_elim submit_project_usage_elim
  dapi_register_provider_elim deposit_provider_elim dapi_unregister_provider_elim
  report_provider_offence_elim

lemma dapi_exec_inv:
  assumes "dapi_inv cfg st" and "dapi_exec F cfg c (w, st) = Inr (w', st')"
  shows "dapi_inv cfg st'"
proof -
  obtain o' call where c: "c = (o', call)" by (cases c)
  show ?thesis
  proof (cases "\<exists>p v. call = DepositProject p v")
    case True
    then obtain p v where "deposit_project F cfg o' p v (w, st) = Inr (w', st')"
      using assms(2) c by auto
    then show ?thesis
    proof (cases rule: deposit_project_elim)
      case (1 who pr q i w1)
      then have "usage pr \<le> q"
        using assms(1) saturating_add_ge [of "quota pr"] by (auto simp: dapi_inv_def intro: order_trans)
      with 1 assms(1) show ?thesis by (auto simp: dapi_inv_def)
    qed
  next
    case False
    with assms(2) show ?thesis
      unfolding c by (cases call)
        (use assms(1) in \<open>auto simp: dapi_inv_def elim!: dapi_elims dest!: root_call_elims
          split: if_splits\<close>)
  qed
qed

lemma genesis_chain_ids_bounded:
  assumes "genesis_chain_ids cfg cs = Some ids"
  shows "ids = set cs" and "\<forall>c \<in> ids. length c \<le> unat (MaxChainIdLength cfg)"
proof -
  have "ids = set cs \<and> (\<forall>c \<in> ids. length c \<le> unat (MaxChainIdLength cfg))"
    using assms
    by (induction cs arbitrary: ids) (auto simp: bounded_chain_id_iff split: option.splits)
  then show "ids = set cs" and "\<forall>c \<in> ids. length c \<le> unat (MaxChainIdLength cfg)" by auto
qed

lemma dapi_genesis_inv: "dapi_genesis_build cfg rs cs = Some st \<Longrightarrow> dapi_inv cfg st"
  by (auto simp: dapi_genesis_build_def dapi_inv_def dest: genesis_chain_ids_bounded split: option.splits)

section \<open>The contract of the staking pallet and what it gives\<close>

text \<open>The two pallets agree: what dapi calls registered is unknown to staking, what it calls active
  (inactive) is active (inactive) there, with the same owner.\<close>

definition expected_status :: "('ac, 'pid) dapi_state \<Rightarrow> 'pid \<Rightarrow> ('ac \<times> bool) option" where
  "expected_status st p = (case sget (providers st) p of None \<Rightarrow> None | Some pv \<Rightarrow>
     (case dp_status pv of Registered \<Rightarrow> None
      | ActiveProvider \<Rightarrow> Some (dp_owner pv, True) | InActive _ \<Rightarrow> Some (dp_owner pv, False)))"

definition in_step ::
    "('w \<Rightarrow> 'pid \<Rightarrow> ('ac \<times> bool) option) \<Rightarrow> 'w \<times> ('ac, 'pid) dapi_state \<Rightarrow> bool" where
  "in_step status = (\<lambda>(w, st). status w = expected_status st)"

lemma expected_insert:
  assumes "providers st' = sinsert p pv (providers st)"
  shows "expected_status st' = (expected_status st)(p := (case dp_status pv of Registered \<Rightarrow> None
      | ActiveProvider \<Rightarrow> Some (dp_owner pv, True) | InActive _ \<Rightarrow> Some (dp_owner pv, False)))"
  using assms by (auto simp: expected_status_def fun_eq_iff)

lemma expected_cong: "providers st' = providers st \<Longrightarrow> expected_status st' = expected_status st"
  by (simp add: expected_status_def fun_eq_iff)

text \<open>
  \<open>status w p\<close>: whether the staking pallet knows \<open>p\<close>, who owns it there, and whether it is active.
  Registering succeeds only for an unknown provider, unregistering exactly for an active one; a
  payment or a withdrawal touches neither.
\<close>

locale provider_registry =
  fixes cfg :: "('ac, 'pid, 'w, 'e) dapi_config"
    and status :: "'w \<Rightarrow> 'pid \<Rightarrow> ('ac \<times> bool) option"
  assumes register_law: "ds_register cfg a p v w = Inr w' \<Longrightarrow>
      status w p = None \<and> status w' = (status w)(p \<mapsto> (a, True))"
    and unregister_law: "ds_unregister cfg p w = Inr w' \<Longrightarrow>
      \<exists>a. status w p = Some (a, True) \<and> status w' = (status w)(p \<mapsto> (a, False))"
    and unregister_total: "status w p = Some (a, True) \<Longrightarrow> \<exists>w'. ds_unregister cfg p w = Inr w'"
    and withdraw_law: "currency_withdraw cfg a v e w = Inr (i, w') \<Longrightarrow> status w' = status w"
    and payment_law: "status (on_project_payment cfg i w) = status w"
begin

lemma exec_in_step:
  assumes "in_step status (w, st)" and "dapi_exec F cfg (o', call) (w, st) = Inr (w', st')"
  shows "in_step status (w', st')"
proof -
  have eq: "status w = expected_status st" using assms(1) by (simp add: in_step_def)
  have "status w' = expected_status st'"
  proof (cases call)
    case (DapiRegisterProvider p t a c)
    then have "dapi_register_provider F cfg o' p t a c (w, st) = Inr (w', st')" using assms(2) by simp
    then show ?thesis
    proof (cases rule: dapi_register_provider_elim)
      case (1 who)
      have "expected_status st' = (expected_status st)(p := None)"
        using expected_insert [of st' p _ st] 1(7) by simp
      with 1(3,6) eq show ?thesis by (simp add: expected_status_def fun_eq_iff)
    qed
  next
    case (DepositProvider p v)
    then have "deposit_provider F cfg o' p v (w, st) = Inr (w', st')" using assms(2) by simp
    then show ?thesis
      by (cases rule: deposit_provider_elim) (simp add: expected_insert eq register_law)
  next
    case (DapiUnregisterProvider p)
    then have "dapi_unregister_provider F cfg o' p (w, st) = Inr (w', st')" using assms(2) by simp
    then show ?thesis
    proof (cases rule: dapi_unregister_provider_elim)
      case (1 pv)
      then show ?thesis
        using unregister_law [OF 1(4)] by (auto simp: expected_insert eq) (auto simp: expected_status_def)
    qed
  next
    case (ReportProviderOffence p r)
    then have "report_provider_offence F cfg o' p r (w, st) = Inr (w', st')" using assms(2) by simp
    then show ?thesis
    proof (cases rule: report_provider_offence_elim)
      case (1 who pv)
      then show ?thesis
        using unregister_law [OF 1(5)] by (auto simp: expected_insert eq) (auto simp: expected_status_def)
    qed
  qed (use assms(2) eq in \<open>auto elim!: register_project_elim deposit_project_elim submit_project_usage_elim
      dest!: withdraw_law root_call_elims simp: payment_law intro!: expected_cong [symmetric]\<close>)
  then show ?thesis by (simp add: in_step_def)
qed

text \<open>While they agree, an owner can always unregister an active provider, and a regulator can always
  take it out.\<close>

lemma owner_can_unregister:
  assumes "in_step status (w, st)" and "sget (providers st) p = Some pv" and "dp_status pv = ActiveProvider"
    and "ensure_signed F o' = Some (dp_owner pv)"
  shows "\<exists>s'. dapi_unregister_provider F cfg o' p (w, st) = Inr s'"
proof -
  have "status w p = Some (dp_owner pv, True)" using assms(1-3) by (simp add: in_step_def expected_status_def)
  then obtain w' where "ds_unregister cfg p w = Inr w'" using unregister_total by blast
  with assms show ?thesis by (simp add: dapi_unregister_provider_def)
qed

lemma regulator_can_report:
  assumes "in_step status (w, st)" and "sget (providers st) p = Some pv" and "dp_status pv = ActiveProvider"
    and "ensure_signed F o' = Some r" and "r \<in> regulators st"
  shows "\<exists>s'. report_provider_offence F cfg o' p reason (w, st) = Inr s'"
proof -
  have "status w p = Some (dp_owner pv, True)" using assms(1-3) by (simp add: in_step_def expected_status_def)
  then obtain w' where "ds_unregister cfg p w = Inr w'" using unregister_total by blast
  with assms show ?thesis by (simp add: report_provider_offence_def)
qed

end

end
