(* ===== verification/Validator_Set.thy ===== *)
theory Validator_Set
  imports Frame
begin

text \<open>
  \<^verbatim>\<open>pallets/validator-set/src/lib.rs\<close>: the fixed (invulnerable) validators, the candidates with
  their deposits, the block each validator last authored, the calls that manage them, and the hooks
  by which the authorship and session pallets drive them (\<open>note_author\<close>, \<open>new_session\<close>).

  The block number and the answer of the session pallet to "is this account registered" are
  arguments of the operations that read them.
\<close>

section \<open>Types, configuration, storage\<close>

definition IdentityValidator_convert :: "'ac \<Rightarrow> 'ac option" where
  "IdentityValidator_convert t = Some t"

record 'ac candidate_info =
  cd_who :: 'ac
  cd_deposit :: u128

text \<open>\<open>ValidatorIdOf\<close> is fixed by the configuration of the session pallet, \<open>UpdateOrigin\<close> and the
  weights by the runtime.\<close>

record ('ac, 'o) validator_config =
  UpdateOrigin :: "'o \<Rightarrow> bool"
  MaxCandidates :: u32
  MinCandidates :: u32
  MaxInvulnerables :: u32
  KickThreshold :: u32
  SlashRatio :: perbill
  ValidatorIdOf :: "'ac \<Rightarrow> 'ac option"
  validator_pot :: 'ac
  weight_note_author :: u64
  weight_new_session :: "u32 \<Rightarrow> u32 \<Rightarrow> u64"

datatype 'ac validator_event =
  NewInvulnerables "'ac list"
| NewDesiredCandidates u32
| NewCandidacyBond u128
| CandidateAdded 'ac u128
| CandidateRemoved 'ac
| CandidateSlashed 'ac

datatype validator_error =
  TooManyCandidates | TooFewCandidates | Unknown | Permission | AlreadyCandidate | NotCandidate
| AlreadyInvulnerable | NoAssociatedValidatorId | ValidatorNotRegistered

record 'ac validator_state =
  invulnerables :: "'ac list"
  candidates :: "'ac candidate_info list"
  last_authored_block :: "('ac, u32) storage"
  desired_candidates :: u32
  candidacy_bond :: u128
  slash_destination :: "'ac option"
  validator_events :: "'ac validator_event list"

type_synonym ('ac, 'cs) validator_result =
  "(validator_error, 'cs \<times> 'ac validator_state) dispatch"

definition validator_deposit_event ::
    "'ac validator_event \<Rightarrow> 'ac validator_state \<Rightarrow> 'ac validator_state" where
  "validator_deposit_event ev st = st\<lparr>validator_events := validator_events st @ [ev]\<rparr>"

text \<open>Genesis; \<open>None\<close> is a failed assertion.\<close>

definition validator_genesis_build ::
    "('ac, 'o) validator_config \<Rightarrow> 'ac list \<Rightarrow> u128 \<Rightarrow> u32 \<Rightarrow> 'ac validator_state option" where
  "validator_genesis_build cfg fixed bond desired =
     (if card (set fixed) = length fixed \<and> MaxInvulnerables cfg \<ge> word_of_nat (length fixed) \<and>
         MaxCandidates cfg \<ge> desired
      then Some \<lparr>invulnerables = fixed, candidates = [], last_authored_block = [],
        desired_candidates = desired, candidacy_bond = bond, slash_destination = None,
        validator_events = []\<rparr>
      else None)"

section \<open>The calls\<close>

text \<open>The loop over the new list: the first account without a session key stops it.\<close>

fun check_registered ::
    "('ac, 'o) validator_config \<Rightarrow> ('ac \<Rightarrow> bool) \<Rightarrow> 'ac list \<Rightarrow> validator_error option" where
  "check_registered cfg registered [] = None"
| "check_registered cfg registered (a # as) =
     (case ValidatorIdOf cfg a of
        None \<Rightarrow> Some NoAssociatedValidatorId
      | Some key \<Rightarrow>
          if \<not> registered key then Some ValidatorNotRegistered
          else check_registered cfg registered as)"

definition set_invulnerables ::
    "('ac, 'o) validator_config \<Rightarrow> ('ac \<Rightarrow> bool) \<Rightarrow> 'o \<Rightarrow> 'ac list \<Rightarrow>
     'cs \<times> 'ac validator_state \<Rightarrow> ('ac, 'cs) validator_result" where
  "set_invulnerables cfg registered origin new = (\<lambda>(cs, st).
     if \<not> UpdateOrigin cfg origin then Inl BadOrigin
     else case check_registered cfg registered new of Some err \<Rightarrow> Inl (ModuleError err)
     | None \<Rightarrow> Inr (cs, validator_deposit_event (NewInvulnerables new) (st\<lparr>invulnerables := new\<rparr>)))"

definition set_desired_candidates ::
    "('ac, 'o) validator_config \<Rightarrow> 'o \<Rightarrow> u32 \<Rightarrow>
     'cs \<times> 'ac validator_state \<Rightarrow> ('ac, 'cs) validator_result" where
  "set_desired_candidates cfg origin mx = (\<lambda>(cs, st).
     if \<not> UpdateOrigin cfg origin then Inl BadOrigin
     else Inr (cs, validator_deposit_event (NewDesiredCandidates mx) (st\<lparr>desired_candidates := mx\<rparr>)))"

definition set_candidacy_bond ::
    "('ac, 'o) validator_config \<Rightarrow> 'o \<Rightarrow> u128 \<Rightarrow>
     'cs \<times> 'ac validator_state \<Rightarrow> ('ac, 'cs) validator_result" where
  "set_candidacy_bond cfg origin bond = (\<lambda>(cs, st).
     if \<not> UpdateOrigin cfg origin then Inl BadOrigin
     else Inr (cs, validator_deposit_event (NewCandidacyBond bond) (st\<lparr>candidacy_bond := bond\<rparr>)))"

definition register_as_candidate ::
    "('ac, 'cs, 'o) frame \<Rightarrow> ('ac, 'o) validator_config \<Rightarrow> ('ac \<Rightarrow> bool) \<Rightarrow> u32 \<Rightarrow> 'o \<Rightarrow>
     'cs \<times> 'ac validator_state \<Rightarrow> ('ac, 'cs) validator_result" where
  "register_as_candidate F cfg registered now origin = (\<lambda>(cs, st).
     case ensure_signed F origin of None \<Rightarrow> Inl BadOrigin | Some who \<Rightarrow>
     if \<not> word_of_nat (length (candidates st)) < desired_candidates st
     then Inl (ModuleError TooManyCandidates)
     else if who \<in> set (invulnerables st) then Inl (ModuleError AlreadyInvulnerable)
     else case ValidatorIdOf cfg who of None \<Rightarrow> Inl (ModuleError NoAssociatedValidatorId) | Some key \<Rightarrow>
     if \<not> registered key then Inl (ModuleError ValidatorNotRegistered)
     else
       (let deposit = candidacy_bond st in
        if list_ex (\<lambda>c. cd_who c = who) (candidates st) then Inl (ModuleError AlreadyCandidate)
        else case reserve F who deposit cs of Inl err \<Rightarrow> Inl (CurrencyError err) | Inr cs' \<Rightarrow>
          Inr (cs', validator_deposit_event (CandidateAdded who deposit)
            (st\<lparr>candidates := candidates st @ [\<lparr>cd_who = who, cd_deposit = deposit\<rparr>],
                last_authored_block := sinsert who (now + KickThreshold cfg) (last_authored_block st)\<rparr>))))"

text \<open>\<^verbatim>\<open>position\<close> and \<^verbatim>\<open>Vec::remove\<close>.\<close>

fun find_index :: "('a \<Rightarrow> bool) \<Rightarrow> 'a list \<Rightarrow> nat option" where
  "find_index P [] = None"
| "find_index P (x # xs) = (if P x then Some 0 else map_option Suc (find_index P xs))"

definition remove_nth :: "nat \<Rightarrow> 'a list \<Rightarrow> 'a list" where
  "remove_nth i xs = take i xs @ drop (Suc i) xs"

definition try_remove_candidate ::
    "('ac, 'cs, 'o) frame \<Rightarrow> ('ac, 'o) validator_config \<Rightarrow> 'ac \<Rightarrow> bool \<Rightarrow>
     'cs \<times> 'ac validator_state \<Rightarrow> ('ac, 'cs) validator_result" where
  "try_remove_candidate F cfg who slash = (\<lambda>(cs, st).
     case find_index (\<lambda>c. cd_who c = who) (candidates st) of None \<Rightarrow> Inl (ModuleError NotCandidate)
     | Some index \<Rightarrow>
       (let deposit = cd_deposit (candidates st ! index);
            (cs1, st1) =
              (if slash then
                 (let slash_amount = perbill_mul F (SlashRatio cfg) deposit;
                      remain = deposit - slash_amount;
                      ((imbalance, _), csa) = slash_reserved F who slash_amount cs;
                      (_, csb) = unreserve F who remain csa;
                      csc = (case slash_destination st of
                               Some dest \<Rightarrow> resolve_creating F dest imbalance csb
                             | None \<Rightarrow> drop_imbalance F imbalance csb)
                  in (csc, validator_deposit_event (CandidateSlashed who) st))
               else (snd (unreserve F who deposit cs), st))
        in Inr (cs1, validator_deposit_event (CandidateRemoved who)
             (st1\<lparr>candidates := remove_nth index (candidates st1),
                  last_authored_block := sremove who (last_authored_block st1)\<rparr>))))"

definition leave_intent ::
    "('ac, 'cs, 'o) frame \<Rightarrow> ('ac, 'o) validator_config \<Rightarrow> 'o \<Rightarrow>
     'cs \<times> 'ac validator_state \<Rightarrow> ('ac, 'cs) validator_result" where
  "leave_intent F cfg origin = (\<lambda>(cs, st).
     case ensure_signed F origin of None \<Rightarrow> Inl BadOrigin | Some who \<Rightarrow>
     if \<not> word_of_nat (length (candidates st)) > MinCandidates cfg
     then Inl (ModuleError TooFewCandidates)
     else try_remove_candidate F cfg who False (cs, st))"

section \<open>Session and authorship hooks\<close>

definition validator_account_id :: "('ac, 'o) validator_config \<Rightarrow> 'ac" where
  "validator_account_id cfg = validator_pot cfg"

definition assemble_validators :: "'ac validator_state \<Rightarrow> 'ac list \<Rightarrow> 'ac list" where
  "assemble_validators st cands = invulnerables st @ cands"

text \<open>The closure of \<^verbatim>\<open>filter_map\<close> runs over the list read before the loop and reads the storage
  anew for every candidate.\<close>

fun kick_stale_candidates ::
    "('ac, 'cs, 'o) frame \<Rightarrow> ('ac, 'o) validator_config \<Rightarrow> u32 \<Rightarrow> 'ac candidate_info list \<Rightarrow>
     'cs \<times> 'ac validator_state \<Rightarrow> 'ac list \<times> ('cs \<times> 'ac validator_state)" where
  "kick_stale_candidates F cfg now [] s = ([], s)"
| "kick_stale_candidates F cfg now (c # cands) s =
     (let last_block = get_or 0 (last_authored_block (snd s)) (cd_who c);
          since_last = saturating_sub now last_block in
      if since_last < KickThreshold cfg \<or> word_of_nat (length (candidates (snd s))) \<le> MinCandidates cfg
      then (let (rest, s') = kick_stale_candidates F cfg now cands s in (cd_who c # rest, s'))
      else (let s1 = (case try_remove_candidate F cfg (cd_who c) True s of Inl _ \<Rightarrow> s | Inr s1 \<Rightarrow> s1)
            in kick_stale_candidates F cfg now cands s1))"

definition note_author ::
    "('ac, 'cs, 'o) frame \<Rightarrow> ('ac, 'o) validator_config \<Rightarrow> u32 \<Rightarrow> 'ac \<Rightarrow>
     'cs \<times> 'ac validator_state \<Rightarrow> u64 \<times> ('cs \<times> 'ac validator_state)" where
  "note_author F cfg now author = (\<lambda>(cs, st).
     let pot = validator_account_id cfg;
         reward = (case checked_sub (free_balance F cs pot) (minimum_balance F) of
                     Some r \<Rightarrow> r | None \<Rightarrow> 0);
         cs' = (case transfer F pot author reward KeepAlive cs of Inl _ \<Rightarrow> cs | Inr cs' \<Rightarrow> cs')
     in (weight_note_author cfg,
         (cs', st\<lparr>last_authored_block := sinsert author now (last_authored_block st)\<rparr>)))"

definition new_session ::
    "('ac, 'cs, 'o) frame \<Rightarrow> ('ac, 'o) validator_config \<Rightarrow> u32 \<Rightarrow> 'cs \<times> 'ac validator_state \<Rightarrow>
     'ac list option \<times> u64 \<times> ('cs \<times> 'ac validator_state)" where
  "new_session F cfg now s =
     (let cands = candidates (snd s);
          candidates_len_before = length cands;
          (active_candidates, s') = kick_stale_candidates F cfg now cands s;
          active_candidates_len = length active_candidates;
          result = assemble_validators (snd s') active_candidates;
          removed = candidates_len_before - active_candidates_len
      in (Some result,
          weight_new_session cfg (word_of_nat candidates_len_before) (word_of_nat removed), s'))"

end
