(* ===== verification/Validator_Inv.thy ===== *)
theory Validator_Inv
  imports Validator_Set
begin

text \<open>
  The invariant of the candidate list, the deposits it stands for, and what a session change does:
  the candidates that are kept, the ones that are kicked, and the validators that are returned.
\<close>

section \<open>Searching and removing\<close>

lemma find_index_None: "find_index P xs = None \<longleftrightarrow> (\<forall>x \<in> set xs. \<not> P x)"
  by (induction xs) auto

lemma find_index_Some:
  assumes "find_index P xs = Some i"
  shows "i < length xs" and "P (xs ! i)"
proof -
  have "i < length xs \<and> P (xs ! i)"
    using assms by (induction xs arbitrary: i) (auto split: if_splits)
  then show "i < length xs" and "P (xs ! i)" by auto
qed

lemma remove_nth_filter:
  assumes "distinct (map f xs)" and "i < length xs"
  shows "remove_nth i xs = filter (\<lambda>x. f x \<noteq> f (xs ! i)) xs"
proof -
  have split: "xs = take i xs @ xs ! i # drop (Suc i) xs"
    using assms(2) by (simp add: id_take_nth_drop [symmetric])
  then have "distinct (map f (take i xs @ xs ! i # drop (Suc i) xs))" using assms(1) by metis
  then have "filter (\<lambda>x. f x \<noteq> f (xs ! i)) (take i xs) = take i xs"
    and "filter (\<lambda>x. f x \<noteq> f (xs ! i)) (drop (Suc i) xs) = drop (Suc i) xs"
    by (auto simp: filter_id_conv image_iff)
  then have "filter (\<lambda>x. f x \<noteq> f (xs ! i)) (take i xs @ xs ! i # drop (Suc i) xs) =
      take i xs @ drop (Suc i) xs"
    by simp
  with split show ?thesis by (metis remove_nth_def)
qed

section \<open>Invariant and deposits\<close>

definition validator_inv :: "'ac validator_state \<Rightarrow> bool" where
  "validator_inv st \<longleftrightarrow> distinct (map cd_who (candidates st))"

definition candidate_owed :: "'ac validator_state \<Rightarrow> 'ac \<Rightarrow> nat" where
  "candidate_owed st a = sum_list (map (\<lambda>c. unat (cd_deposit c)) (filter (\<lambda>c. cd_who c = a) (candidates st)))"

lemma event_access [simp]:
  "invulnerables (validator_deposit_event ev st) = invulnerables st"
  "candidates (validator_deposit_event ev st) = candidates st"
  "last_authored_block (validator_deposit_event ev st) = last_authored_block st"
  "desired_candidates (validator_deposit_event ev st) = desired_candidates st"
  "candidacy_bond (validator_deposit_event ev st) = candidacy_bond st"
  "slash_destination (validator_deposit_event ev st) = slash_destination st"
  by (simp_all add: validator_deposit_event_def)

lemma candidate_owed_cong: "candidates st' = candidates st \<Longrightarrow> candidate_owed st' a = candidate_owed st a"
  by (simp add: candidate_owed_def)

lemma unique_candidate:
  assumes "distinct (map cd_who xs)" and "c \<in> set xs"
  shows "filter (\<lambda>x. cd_who x = cd_who c) xs = [c]"
  using assms by (induction xs) (auto simp: filter_empty_conv image_iff split: if_splits)

lemma candidate_owed_member:
  assumes "validator_inv st" and "c \<in> set (candidates st)"
  shows "candidate_owed st (cd_who c) = unat (cd_deposit c)"
  using unique_candidate [of "candidates st" c] assms by (simp add: candidate_owed_def validator_inv_def)

text \<open>What removing a candidate does.\<close>

definition without_candidate :: "'ac \<Rightarrow> 'ac validator_state \<Rightarrow> 'ac candidate_info list" where
  "without_candidate who st = filter (\<lambda>c. cd_who c \<noteq> who) (candidates st)"

lemma try_remove_candidate_elim:
  assumes "try_remove_candidate F cfg who slash (cs, st) = Inr (cs', st')" and inv: "validator_inv st"
  obtains c where "c \<in> set (candidates st)" and "cd_who c = who"
    and "candidates st' = without_candidate who st"
    and "last_authored_block st' = sremove who (last_authored_block st)"
    and "invulnerables st' = invulnerables st" and "desired_candidates st' = desired_candidates st"
    and "slash_destination st' = slash_destination st"
    and "\<not> slash \<Longrightarrow> cs' = snd (unreserve F who (cd_deposit c) cs)"
    and "slash \<Longrightarrow> cs' = (let ((i, _), csa) = slash_reserved F who (perbill_mul F (SlashRatio cfg) (cd_deposit c)) cs;
        csb = snd (unreserve F who (cd_deposit c - perbill_mul F (SlashRatio cfg) (cd_deposit c)) csa)
        in case slash_destination st of Some dest \<Rightarrow> resolve_creating F dest i csb
           | None \<Rightarrow> drop_imbalance F i csb)"
proof -
  obtain i where i: "find_index (\<lambda>c. cd_who c = who) (candidates st) = Some i"
    using assms(1) by (auto simp: try_remove_candidate_def split: option.splits)
  note idx = find_index_Some [OF i]
  have rem: "remove_nth i (candidates st) = without_candidate who st"
    using remove_nth_filter [of cd_who "candidates st" i] inv idx
    by (simp add: validator_inv_def without_candidate_def)
  show ?thesis
  proof (rule that [of "candidates st ! i"])
    show "candidates st ! i \<in> set (candidates st)" using idx(1) by simp
  qed (use assms(1) i idx(2) rem in \<open>auto simp: try_remove_candidate_def Let_def
      split: if_splits prod.splits option.splits\<close>)
qed

lemma try_remove_candidate_member:
  "c \<in> set (candidates st) \<Longrightarrow> \<exists>s'. try_remove_candidate F cfg (cd_who c) slash (cs, st) = Inr s'"
  by (cases "find_index (\<lambda>x. cd_who x = cd_who c) (candidates st)")
    (auto simp: try_remove_candidate_def Let_def find_index_None split: prod.splits)

lemma without_candidate_inv:
  "validator_inv st \<Longrightarrow> candidates st' = without_candidate who st \<Longrightarrow> validator_inv st'"
  by (simp add: validator_inv_def without_candidate_def distinct_map_filter)

lemma owed_without_candidate:
  assumes "validator_inv st" and "c \<in> set (candidates st)" and "candidates st' = without_candidate (cd_who c) st"
  shows "candidate_owed st a = candidate_owed st' a + (if a = cd_who c then unat (cd_deposit c) else 0)"
proof (cases "a = cd_who c")
  case True
  have "filter (\<lambda>x. cd_who x = a) (candidates st') = []"
    using assms(3) True by (simp add: without_candidate_def filter_empty_conv)
  then show ?thesis
    using candidate_owed_member [OF assms(1,2)] True by (simp add: candidate_owed_def)
next
  case False
  then have "filter (\<lambda>x. cd_who x = a) (candidates st') = filter (\<lambda>x. cd_who x = a) (candidates st)"
    using assms(3) by (auto simp: without_candidate_def intro: filter_cong)
  with False show ?thesis by (simp add: candidate_owed_def)
qed

section \<open>A session change as a relation\<close>

text \<open>The test of the loop: has the candidate authored lately, or are there too few left to kick?\<close>

definition authored_lately ::
    "('ac, 'o) validator_config \<Rightarrow> u32 \<Rightarrow> 'ac validator_state \<Rightarrow> 'ac \<Rightarrow> bool" where
  "authored_lately cfg now st a \<longleftrightarrow>
     saturating_sub now (get_or 0 (last_authored_block st) a) < KickThreshold cfg"

definition too_few :: "('ac, 'o) validator_config \<Rightarrow> 'ac validator_state \<Rightarrow> bool" where
  "too_few cfg st \<longleftrightarrow> word_of_nat (length (candidates st)) \<le> MinCandidates cfg"

text \<open>The loop over a candidate list that agrees with the storage, as a relation: every candidate is
  kept, or is removed from the storage with a slash.\<close>

inductive kick_run ::
    "('ac, 'cs, 'o) frame \<Rightarrow> ('ac, 'o) validator_config \<Rightarrow> u32 \<Rightarrow> 'ac candidate_info list \<Rightarrow>
     'cs \<times> 'ac validator_state \<Rightarrow> 'ac list \<Rightarrow> 'cs \<times> 'ac validator_state \<Rightarrow> bool"
  for F cfg now where
  kick_done: "kick_run F cfg now [] s [] s"
| kick_keep: "kick_run F cfg now cands (cs, st) kept s' \<Longrightarrow>
    authored_lately cfg now st (cd_who c) \<or> too_few cfg st \<Longrightarrow>
    kick_run F cfg now (c # cands) (cs, st) (cd_who c # kept) s'"
| kick_out: "kick_run F cfg now cands (cs1, st1) kept s' \<Longrightarrow>
    \<not> authored_lately cfg now st (cd_who c) \<Longrightarrow> \<not> too_few cfg st \<Longrightarrow> c \<in> set (candidates st) \<Longrightarrow>
    validator_inv st \<Longrightarrow>
    try_remove_candidate F cfg (cd_who c) True (cs, st) = Inr (cs1, st1) \<Longrightarrow>
    kick_run F cfg now (c # cands) (cs, st) kept s'"

inductive_cases kick_run_NilE: "kick_run F cfg now [] s kept s'"
inductive_cases kick_run_ConsE: "kick_run F cfg now (c # cands) s kept s'"

lemma kick_stale_candidates_run:
  assumes "validator_inv (snd s)" and "distinct (map cd_who cands)" and "set cands \<subseteq> set (candidates (snd s))"
  shows "case kick_stale_candidates F cfg now cands s of (kept, s') \<Rightarrow> kick_run F cfg now cands s kept s'"
  using assms
proof (induction cands arbitrary: s)
  case (Cons c cands)
  obtain cs st where s: "s = (cs, st)" by (cases s)
  show ?case
  proof (cases "authored_lately cfg now st (cd_who c) \<or> too_few cfg st")
    case True
    then show ?thesis
      using Cons.IH [of s] Cons.prems
      by (auto simp: s authored_lately_def too_few_def Let_def split: prod.splits intro: kick_keep)
  next
    case False
    have mem: "c \<in> set (candidates st)" and inv: "validator_inv st" using Cons.prems s by auto
    then obtain cs1 st1 where rem: "try_remove_candidate F cfg (cd_who c) True (cs, st) = Inr (cs1, st1)"
      using try_remove_candidate_member [of c st F cfg True cs] by auto
    have st1: "candidates st1 = without_candidate (cd_who c) st"
      by (rule try_remove_candidate_elim [OF rem inv])
    have "set cands \<subseteq> set (candidates st1)"
    proof
      fix x assume x: "x \<in> set cands"
      with Cons.prems(2) have "cd_who x \<noteq> cd_who c" by (metis distinct.simps(2) image_eqI list.set_map list.simps(9))
      with x Cons.prems(3) s show "x \<in> set (candidates st1)" by (auto simp: st1 without_candidate_def)
    qed
    then have "case kick_stale_candidates F cfg now cands (cs1, st1) of (kept, s') \<Rightarrow>
        kick_run F cfg now cands (cs1, st1) kept s'"
      using Cons.prems(2) without_candidate_inv [OF inv st1] by (intro Cons.IH) simp_all
    with False mem inv rem show ?thesis
      by (auto simp: s authored_lately_def too_few_def Let_def split: prod.splits intro: kick_out)
  qed
qed (simp add: kick_done)

lemma kick_run_frame:
  assumes "kick_run F cfg now cands s kept s'" and "validator_inv (snd s)"
  shows "validator_inv (snd s')" and "invulnerables (snd s') = invulnerables (snd s)"
    and "set kept \<subseteq> cd_who ` set cands"
proof -
  have "validator_inv (snd s') \<and> invulnerables (snd s') = invulnerables (snd s) \<and>
      set kept \<subseteq> cd_who ` set cands"
    using assms
  proof (induction rule: kick_run.induct)
    case (kick_out cands cs1 st1 kept s' st c cs)
    have "candidates st1 = without_candidate (cd_who c) st" "invulnerables st1 = invulnerables st"
      by (rule try_remove_candidate_elim [OF kick_out.hyps(6,5)]; assumption)+
    then show ?case
      using kick_out.IH without_candidate_inv [OF kick_out.hyps(5)] by auto
  qed auto
  then show "validator_inv (snd s')" and "invulnerables (snd s') = invulnerables (snd s)"
    and "set kept \<subseteq> cd_who ` set cands" by auto
qed

text \<open>The storage afterwards holds the kept candidates, and the kept ones are returned in order.\<close>

lemma kick_run_candidates:
  assumes "kick_run F cfg now cands s kept s'" and "validator_inv (snd s)" and "distinct (map cd_who cands)"
  shows "candidates (snd s') = filter (\<lambda>x. cd_who x \<in> set kept \<or> cd_who x \<notin> cd_who ` set cands) (candidates (snd s))"
    and "kept = map cd_who (filter (\<lambda>x. cd_who x \<in> set kept) cands)"
proof -
  have "candidates (snd s') = filter (\<lambda>x. cd_who x \<in> set kept \<or> cd_who x \<notin> cd_who ` set cands) (candidates (snd s)) \<and>
      kept = map cd_who (filter (\<lambda>x. cd_who x \<in> set kept) cands)"
    using assms
  proof (induction rule: kick_run.induct)
    case (kick_keep cands cs st kept s' c)
    have "cd_who c \<notin> set kept"
      using kick_run_frame(3) [OF kick_keep.hyps(1)] kick_keep.prems by auto
    have "filter (\<lambda>x. cd_who x = cd_who c \<or> cd_who x \<in> set kept) cands =
        filter (\<lambda>x. cd_who x \<in> set kept) cands"
      using kick_keep.prems(2) by (intro filter_cong) (force simp: image_iff)+
    moreover have "filter (\<lambda>x. cd_who x \<in> set kept \<or> cd_who x \<notin> cd_who ` set cands) (candidates st) =
        filter (\<lambda>x. cd_who x \<in> set (cd_who c # kept) \<or> cd_who x \<notin> cd_who ` set (c # cands)) (candidates st)"
      using kick_keep.prems(2) by (intro filter_cong) auto
    ultimately show ?case using kick_keep by simp
  next
    case (kick_out cands cs1 st1 kept s' st c cs)
    have st1: "candidates st1 = without_candidate (cd_who c) st"
      by (rule try_remove_candidate_elim [OF kick_out.hyps(6,5)])
    have inv1: "validator_inv st1" by (rule without_candidate_inv [OF kick_out.hyps(5) st1])
    have notin: "cd_who c \<notin> set kept"
      using kick_run_frame(3) [OF kick_out.hyps(1)] inv1 kick_out.prems by auto
    have "candidates (snd s') = filter (\<lambda>x. cd_who x \<in> set kept \<or> cd_who x \<notin> cd_who ` set cands) (candidates st1)"
      using kick_out.IH inv1 kick_out.prems by simp
    also have "\<dots> = filter (\<lambda>x. cd_who x \<in> set kept \<or> cd_who x \<notin> cd_who ` set (c # cands)) (candidates st)"
      using notin by (auto simp: st1 without_candidate_def intro: filter_cong)
    finally show ?case using kick_out.IH inv1 kick_out.prems notin by simp
  qed auto
  then show "candidates (snd s') = filter (\<lambda>x. cd_who x \<in> set kept \<or> cd_who x \<notin> cd_who ` set cands) (candidates (snd s))"
    and "kept = map cd_who (filter (\<lambda>x. cd_who x \<in> set kept) cands)" by blast+
qed

text \<open>A candidate that authored lately is kept: the loop forgets only the candidates it removes.\<close>

lemma kick_run_keeps_authors:
  assumes "kick_run F cfg now cands s kept s'" and "validator_inv (snd s)" and "distinct (map cd_who cands)"
    and "c \<in> set cands" and "authored_lately cfg now (snd s) (cd_who c)"
  shows "cd_who c \<in> set kept"
  using assms
proof (induction rule: kick_run.induct)
  case (kick_out cands cs1 st1 kept s' st x cs)
  have st1: "candidates st1 = without_candidate (cd_who x) st"
      "last_authored_block st1 = sremove (cd_who x) (last_authored_block st)"
    by (rule try_remove_candidate_elim [OF kick_out.hyps(6,5)]; assumption)+
  have "c \<in> set cands" using kick_out.prems(3,4) kick_out.hyps(2) by auto
  moreover have "cd_who c \<noteq> cd_who x" using kick_out.prems(4) kick_out.hyps(2) by auto
  ultimately show ?case
    using kick_out.IH kick_out.prems without_candidate_inv [OF kick_out.hyps(5) st1(1)]
    by (simp add: authored_lately_def st1(2))
qed auto

text \<open>The loop never goes below the minimum number of candidates.\<close>

lemma kick_run_minimum:
  assumes "kick_run F cfg now cands s kept s'" and "length (candidates (snd s)) < 2 ^ 32"
  shows "min (unat (MinCandidates cfg)) (length (candidates (snd s))) \<le> length (candidates (snd s'))"
    and "length (candidates (snd s')) \<le> length (candidates (snd s))"
proof -
  have "min (unat (MinCandidates cfg)) (length (candidates (snd s))) \<le> length (candidates (snd s')) \<and>
      length (candidates (snd s')) \<le> length (candidates (snd s))"
    using assms
  proof (induction rule: kick_run.induct)
    case (kick_out cands cs1 st1 kept s' st c cs)
    have st1: "candidates st1 = without_candidate (cd_who c) st"
      by (rule try_remove_candidate_elim [OF kick_out.hyps(6,5)])
    have one: "length (candidates st) = Suc (length (candidates st1))"
      using sum_length_filter_compl [of "\<lambda>x. cd_who x = cd_who c" "candidates st"]
        unique_candidate [of "candidates st" c] kick_out.hyps(4,5)
      by (simp add: st1 without_candidate_def validator_inv_def)
    have "unat (MinCandidates cfg) < length (candidates st)"
      using kick_out.hyps(3) kick_out.prems
      by (simp add: too_few_def not_le word_less_nat_alt unat_of_nat)
    with kick_out one show ?case by simp
  qed auto
  then show "min (unat (MinCandidates cfg)) (length (candidates (snd s))) \<le> length (candidates (snd s'))"
    and "length (candidates (snd s')) \<le> length (candidates (snd s))" by auto
qed

section \<open>Deposits\<close>

text \<open>Slash and unreserve together take exactly the deposit.\<close>

lemma try_remove_candidate_balanced:
  assumes cur: "currency_ok F" and pb: "perbill_ok F" "SlashRatio cfg \<le> perbill_one F"
    and inv: "validator_inv st" and cover: "\<And>a. candidate_owed st a \<le> unat (reserved_balance F cs a)"
    and rem: "try_remove_candidate F cfg who slash (cs, st) = Inr (cs', st')"
  shows "candidate_owed st' a + unat (reserved_balance F cs a) =
    candidate_owed st a + unat (reserved_balance F cs' a)"
  using rem inv
proof (cases rule: try_remove_candidate_elim)
  case (1 c)
  let ?d = "cd_deposit c" and ?x = "perbill_mul F (SlashRatio cfg) (cd_deposit c)"
  have covered: "unat ?d \<le> unat (reserved_balance F cs who)"
    using candidate_owed_member [OF inv 1(1)] cover [of who] 1(2) by simp
  have "?x \<le> ?d" by (rule perbill_mul_le [OF pb])
  then have parts: "unat ?x \<le> unat ?d" "unat (?d - ?x) = unat ?d - unat ?x"
    by (simp_all add: word_le_nat_alt unat_minus_le)
  have "unat (reserved_balance F cs' a) = unat (reserved_balance F cs a) - (if a = who then unat ?d else 0)"
  proof (cases slash)
    case False
    then have "unreserve F who ?d cs = (fst (unreserve F who ?d cs), cs')" using 1(8) by simp
    from unreserveD [OF cur this] show ?thesis .
  next
    case True
    obtain i r csa where a: "slash_reserved F who ?x cs = ((i, r), csa)"
      by (metis prod.collapse)
    obtain r' csb where b: "unreserve F who (?d - ?x) csa = (r', csb)" by (metis prod.collapse)
    have "reserved_balance F cs' a = reserved_balance F csb a"
      using 1(9) True a b cur by (auto split: option.splits)
    with slash_reservedD(1) [OF cur a, of a] unreserveD [OF cur b, of a] parts show ?thesis by auto
  qed
  with owed_without_candidate [OF inv 1(1), of st' a] 1(2,3) covered show ?thesis
    by (auto split: if_splits)
qed

lemma kick_run_balanced:
  assumes cur: "currency_ok F" and pb: "perbill_ok F" "SlashRatio cfg \<le> perbill_one F"
    and run: "kick_run F cfg now cands s kept s'"
    and "\<And>a. candidate_owed (snd s) a \<le> unat (reserved_balance F (fst s) a)"
  shows "candidate_owed (snd s') a + unat (reserved_balance F (fst s) a) =
    candidate_owed (snd s) a + unat (reserved_balance F (fst s') a)"
  using run assms(5)
proof (induction rule: kick_run.induct)
  case (kick_out cands cs1 st1 kept s' st c cs)
  have step: "candidate_owed st1 b + unat (reserved_balance F cs b) =
      candidate_owed st b + unat (reserved_balance F cs1 b)" for b
    by (rule try_remove_candidate_balanced [OF cur pb kick_out.hyps(5) _ kick_out.hyps(6)])
      (use kick_out.prems in simp)
  have "candidate_owed st1 b \<le> unat (reserved_balance F cs1 b)" for b
    using step [of b] kick_out.prems [of b] by simp
  then have "candidate_owed (snd s') a + unat (reserved_balance F cs1 a) =
      candidate_owed st1 a + unat (reserved_balance F (fst s') a)"
    using kick_out.IH by simp
  with step [of a] show ?case by simp
qed auto

end
