(* ===== verification/Validator_Machine.thy ===== *)
theory Validator_Machine
  imports Validator_Inv
begin

text \<open>
  The validator pallet as a state machine, its contract as a pallet that holds reserves, and the
  theorems on session changes and author rewards.
\<close>

section \<open>Entry points\<close>

datatype ('ac, 'o) validator_call =
  SetInvulnerables 'o "'ac list"
| SetDesiredCandidates 'o u32
| SetCandidacyBond 'o u128
| RegisterAsCandidate 'o
| LeaveIntent 'o
| NoteAuthor 'ac
| NewSession

text \<open>A call runs in a block and against the keys the session pallet knows at that moment.\<close>

record 'ac validator_env =
  env_block :: u32
  env_registered :: "'ac \<Rightarrow> bool"

fun validator_exec ::
    "('ac, 'cs, 'o) frame \<Rightarrow> ('ac, 'o) validator_config \<Rightarrow> 'ac validator_env \<times> ('ac, 'o) validator_call \<Rightarrow>
     'cs \<times> 'ac validator_state \<Rightarrow> ('ac, 'cs) validator_result" where
  "validator_exec F cfg (env, SetInvulnerables o' new) s = set_invulnerables cfg (env_registered env) o' new s"
| "validator_exec F cfg (env, SetDesiredCandidates o' n) s = set_desired_candidates cfg o' n s"
| "validator_exec F cfg (env, SetCandidacyBond o' b) s = set_candidacy_bond cfg o' b s"
| "validator_exec F cfg (env, RegisterAsCandidate o') s =
     register_as_candidate F cfg (env_registered env) (env_block env) o' s"
| "validator_exec F cfg (env, LeaveIntent o') s = leave_intent F cfg o' s"
| "validator_exec F cfg (env, NoteAuthor a) s = Inr (snd (note_author F cfg (env_block env) a s))"
| "validator_exec F cfg (env, NewSession) s = Inr (snd (snd (new_session F cfg (env_block env) s)))"

lemma register_as_candidate_elim:
  assumes "register_as_candidate F cfg registered now o' (cs, st) = Inr (cs', st')"
  obtains who where "ensure_signed F o' = Some who"
    and "word_of_nat (length (candidates st)) < desired_candidates st" and "who \<notin> set (invulnerables st)"
    and "\<forall>c \<in> set (candidates st). cd_who c \<noteq> who" and "reserve F who (candidacy_bond st) cs = Inr cs'"
    and "candidates st' = candidates st @ [\<lparr>cd_who = who, cd_deposit = candidacy_bond st\<rparr>]"
    and "last_authored_block st' = sinsert who (now + KickThreshold cfg) (last_authored_block st)"
    and "invulnerables st' = invulnerables st" and "desired_candidates st' = desired_candidates st"
  using assms that
  by (auto simp: register_as_candidate_def Let_def list_ex_iff split: option.splits if_splits sum.splits)

lemma leave_intent_elim:
  assumes "leave_intent F cfg o' (cs, st) = Inr (cs', st')"
  obtains who where "ensure_signed F o' = Some who"
    and "MinCandidates cfg < word_of_nat (length (candidates st))"
    and "try_remove_candidate F cfg who False (cs, st) = Inr (cs', st')"
  using assms that by (auto simp: leave_intent_def split: option.splits if_splits)

lemma new_session_run:
  assumes "validator_inv (snd s)" and "new_session F cfg now s = (vs, w, s')"
  obtains kept where "kick_run F cfg now (candidates (snd s)) s kept s'"
    and "vs = Some (invulnerables (snd s') @ kept)"
    and "w = weight_new_session cfg (word_of_nat (length (candidates (snd s))))
      (word_of_nat (length (candidates (snd s)) - length kept))"
  using kick_stale_candidates_run [of s "candidates (snd s)" F cfg now] assms that
  by (auto simp: new_session_def Let_def assemble_validators_def validator_inv_def split: prod.splits)

lemma note_author_frame:
  "candidates (snd (snd (note_author F cfg now a (cs, st)))) = candidates st"
  "currency_ok F \<Longrightarrow> reserved_balance F (fst (snd (note_author F cfg now a (cs, st)))) b = reserved_balance F cs b"
  by (auto simp: note_author_def Let_def dest: transfer_reserved split: sum.splits)

lemma validator_exec_inv:
  assumes "validator_inv st" and "validator_exec F cfg (env, c) (cs, st) = Inr (cs', st')"
  shows "validator_inv st'"
proof (cases c)
  case (LeaveIntent o')
  then obtain who where "try_remove_candidate F cfg who False (cs, st) = Inr (cs', st')"
    using assms(2) by (auto elim: leave_intent_elim)
  then show ?thesis
    by (rule try_remove_candidate_elim [OF _ assms(1)]) (rule without_candidate_inv [OF assms(1)])
next
  case NewSession
  obtain vs w s' where ns: "new_session F cfg (env_block env) (cs, st) = (vs, w, s')"
    by (cases "new_session F cfg (env_block env) (cs, st)")
  with NewSession assms(2) have "s' = (cs', st')" by simp
  with ns assms(1) show ?thesis
    by (auto elim!: new_session_run [of "(cs, st)", rotated] dest: kick_run_frame(1))
next
  case (NoteAuthor a)
  with assms note_author_frame(1) [of F cfg "env_block env" a cs st] show ?thesis
    by (simp add: validator_inv_def)
qed (use assms in \<open>auto simp: validator_inv_def set_invulnerables_def set_desired_candidates_def
    set_candidacy_bond_def elim!: register_as_candidate_elim split: if_splits option.splits\<close>)

definition validator_call_ok ::
    "('ac, 'cs, 'o) frame \<Rightarrow> ('ac, 'o) validator_config \<Rightarrow> 'ac validator_env \<times> ('ac, 'o) validator_call \<Rightarrow> bool" where
  "validator_call_ok F cfg c \<longleftrightarrow> perbill_ok F \<and> SlashRatio cfg \<le> perbill_one F"

lemma validator_exec_balanced:
  assumes cur: "currency_ok F" and pb: "perbill_ok F" "SlashRatio cfg \<le> perbill_one F"
    and inv: "validator_inv st" and cover: "\<And>a. candidate_owed st a \<le> unat (reserved_balance F cs a)"
    and exec: "validator_exec F cfg (env, c) (cs, st) = Inr (cs', st')"
  shows "candidate_owed st' a + unat (reserved_balance F cs a) =
    candidate_owed st a + unat (reserved_balance F cs' a)"
proof (cases c)
  case (RegisterAsCandidate o')
  then have "register_as_candidate F cfg (env_registered env) (env_block env) o' (cs, st) = Inr (cs', st')"
    using exec by simp
  then show ?thesis
  proof (cases rule: register_as_candidate_elim)
    case (1 who)
    have "candidate_owed st' a = candidate_owed st a + (if a = who then unat (candidacy_bond st) else 0)"
      by (simp add: candidate_owed_def 1(6))
    with reserveD(1) [OF cur 1(5), of a] show ?thesis by simp
  qed
next
  case (LeaveIntent o')
  then obtain who where "try_remove_candidate F cfg who False (cs, st) = Inr (cs', st')"
    using exec by (auto elim: leave_intent_elim)
  then show ?thesis by (rule try_remove_candidate_balanced [OF cur pb inv cover])
next
  case NewSession
  obtain vs w s' where ns: "new_session F cfg (env_block env) (cs, st) = (vs, w, s')"
    by (cases "new_session F cfg (env_block env) (cs, st)")
  with NewSession exec have "s' = (cs', st')" by simp
  moreover obtain kept where "kick_run F cfg (env_block env) (candidates st) (cs, st) kept s'"
    using new_session_run [OF _ ns] inv by auto
  ultimately show ?thesis using kick_run_balanced [OF cur pb] cover by fastforce
next
  case (NoteAuthor b)
  with exec have s': "snd (note_author F cfg (env_block env) b (cs, st)) = (cs', st')" by simp
  with note_author_frame [of F cfg "env_block env" b cs st] cur have "candidates st' = candidates st"
    and "reserved_balance F cs' a = reserved_balance F cs a" by simp_all
  then show ?thesis by (simp add: candidate_owed_cong [of st' st])
qed (use exec in \<open>auto simp: set_invulnerables_def set_desired_candidates_def set_candidacy_bond_def
    candidate_owed_def split: if_splits option.splits\<close>)

interpretation validator_holder: reserving_pallet F validator_inv candidate_owed
    "validator_exec F cfg" "validator_call_ok F cfg" for F cfg
proof (unfold_locales, goal_cases)
  case (1 st c cs cs' st')
  then show ?case by (cases c) (auto dest: validator_exec_inv)
next
  case (2 st c cs cs' st' a)
  then show ?case
    by (cases c) (auto simp: validator_call_ok_def intro: validator_exec_balanced)
qed

end
