(* ===== verification/Validator_Props.thy ===== *)
theory Validator_Props
  imports Validator_Machine
begin

text \<open>
  The theorems on the validator pallet: what a session change returns and keeps, what a candidate
  gets back, what an author is paid.
\<close>

section \<open>A concrete configuration\<close>

definition demo_validator_config :: "(nat, nat option) validator_config" where
  "demo_validator_config = \<lparr>UpdateOrigin = (\<lambda>o'. o' = None), MaxCandidates = 5, MinCandidates = 1,
     MaxInvulnerables = 5, KickThreshold = 10, SlashRatio = 10000000,
     ValidatorIdOf = IdentityValidator_convert, validator_pot = 88, weight_note_author = 0,
     weight_new_session = (\<lambda>_ _. 0)\<rparr>"

text \<open>Two candidates; number 2 authored at block 95, number 3 has not authored since block 20.\<close>

definition demo_validator_state :: "nat validator_state" where
  "demo_validator_state = \<lparr>invulnerables = [1], candidates = [\<lparr>cd_who = 2, cd_deposit = 100\<rparr>,
       \<lparr>cd_who = 3, cd_deposit = 100\<rparr>],
     last_authored_block = [(2, 95), (3, 20)], desired_candidates = 3, candidacy_bond = 100,
     slash_destination = None, validator_events = []\<rparr>"

definition demo_validator_ledger :: ledger where
  "demo_validator_ledger = \<lparr>l_free = [(1, 50), (2, 500), (3, 500), (4, 500), (88, 30)],
     l_reserved = [(2, 100), (3, 100)]\<rparr>"

lemma demo_validator_inv: "validator_inv demo_validator_state"
  by (simp add: validator_inv_def demo_validator_state_def)

section \<open>A session change\<close>

text \<open>The reference for the loop: the first \<open>k\<close> elements with property \<open>P\<close> are left out.\<close>

fun drop_first :: "nat \<Rightarrow> ('a \<Rightarrow> bool) \<Rightarrow> 'a list \<Rightarrow> 'a list" where
  "drop_first k P [] = []"
| "drop_first k P (x # xs) = (if P x \<and> 0 < k then drop_first (k - 1) P xs else x # drop_first k P xs)"

lemma drop_first_0 [simp]: "drop_first 0 P xs = xs"
  by (induction xs) simp_all

lemma drop_first_cong: "(\<And>x. x \<in> set xs \<Longrightarrow> P x = Q x) \<Longrightarrow> drop_first k P xs = drop_first k Q xs"
  by (induction xs arbitrary: k) simp_all

lemma length_drop_first: "length (drop_first k P xs) = length xs - min k (length (filter P xs))"
proof (induction xs arbitrary: k)
  case (Cons x xs)
  have "min k (length (filter P xs)) \<le> length xs" by (rule min.coboundedI2) simp
  with Cons.IH [of k] Cons.IH [of "k - 1"] show ?case by (cases k) (simp_all add: Suc_diff_le)
qed simp

lemma drop_first_filter: "distinct xs \<Longrightarrow> filter (\<lambda>x. x \<in> set (drop_first k P xs)) xs = drop_first k P xs"
proof (induction xs arbitrary: k)
  case (Cons x xs)
  have sub: "set (drop_first k P xs) \<subseteq> set xs" for k by (induction xs arbitrary: k) auto
  have "filter (\<lambda>y. y = x \<or> y \<in> set (drop_first k P xs)) xs = filter (\<lambda>y. y \<in> set (drop_first k P xs)) xs"
    using Cons.prems by (intro filter_cong) auto
  with Cons sub [of "k - 1"] show ?case by auto
qed simp

lemma kick_run_drops:
  assumes "kick_run F cfg now cands s kept s'" and "distinct (map cd_who cands)"
    and "length (candidates (snd s)) < 2 ^ 32"
  shows "kept = map cd_who (drop_first (length (candidates (snd s)) - unat (MinCandidates cfg))
    (\<lambda>c. \<not> authored_lately cfg now (snd s) (cd_who c)) cands)"
  using assms
proof (induction rule: kick_run.induct)
  case (kick_keep cands cs st kept s' c)
  show ?case
  proof (cases "too_few cfg st")
    case True
    then have "length (candidates st) - unat (MinCandidates cfg) = 0"
      using kick_keep.prems by (simp add: too_few_def word_le_nat_alt unat_of_nat)
    with kick_keep show ?thesis by simp
  qed (use kick_keep in simp)
next
  case (kick_out cands cs1 st1 kept s' st c cs)
  have st1: "candidates st1 = without_candidate (cd_who c) st"
      "last_authored_block st1 = sremove (cd_who c) (last_authored_block st)"
    by (rule try_remove_candidate_elim [OF kick_out.hyps(6,5)]; assumption)+
  have one: "length (candidates st) = Suc (length (candidates st1))"
    using sum_length_filter_compl [of "\<lambda>x. cd_who x = cd_who c" "candidates st"]
      unique_candidate [of "candidates st" c] kick_out.hyps(4,5)
    by (simp add: st1 without_candidate_def validator_inv_def)
  have more: "unat (MinCandidates cfg) < length (candidates st)"
    using kick_out.hyps(3) kick_out.prems
    by (simp add: too_few_def not_le word_less_nat_alt unat_of_nat)
  have "authored_lately cfg now st1 (cd_who x) = authored_lately cfg now st (cd_who x)" if "x \<in> set cands" for x
  proof -
    have "cd_who x \<noteq> cd_who c" using that kick_out.prems(1) by (metis distinct.simps(2) image_eqI list.set_map list.simps(9))
    then show ?thesis by (simp add: authored_lately_def st1(2))
  qed
  then have "drop_first k (\<lambda>c. \<not> authored_lately cfg now st1 (cd_who c)) cands =
      drop_first k (\<lambda>c. \<not> authored_lately cfg now st (cd_who c)) cands" for k
    by (intro drop_first_cong) simp
  with kick_out one more show ?case by (simp add: Suc_diff_le [symmetric])
qed simp

lemma new_session_drops:
  assumes inv: "validator_inv st" and len: "length (candidates st) < 2 ^ 32"
    and ns: "new_session F cfg now (cs, st) = (vs, w, (cs', st'))"
  shows "candidates st' = drop_first (length (candidates st) - unat (MinCandidates cfg))
      (\<lambda>c. \<not> authored_lately cfg now st (cd_who c)) (candidates st)" (is "_ = ?d")
    and "vs = Some (invulnerables st' @ map cd_who (candidates st'))" and "invulnerables st' = invulnerables st"
proof -
  obtain kept where run: "kick_run F cfg now (candidates st) (cs, st) kept (cs', st')"
    and vs: "vs = Some (invulnerables st' @ kept)"
    using new_session_run [OF _ ns] inv by auto
  have distinct: "distinct (map cd_who (candidates st))" using inv by (simp add: validator_inv_def)
  have kept: "kept = map cd_who ?d" using kick_run_drops [OF run distinct] len by simp
  have sub: "set ?d \<subseteq> set (candidates st)"
    by (metis drop_first_filter distinct distinct_map filter_is_subset)
  have "candidates st' = filter (\<lambda>x. cd_who x \<in> set kept) (candidates st)"
    using kick_run_candidates(1) [OF run _ distinct] inv by (auto intro: filter_cong)
  also have "\<dots> = filter (\<lambda>x. x \<in> set ?d) (candidates st)"
    using distinct sub by (intro filter_cong refl) (auto simp: kept distinct_map dest: inj_onD)
  also have "\<dots> = ?d" using distinct by (intro drop_first_filter) (simp add: distinct_map)
  finally show d: "candidates st' = ?d" .
  show "vs = Some (invulnerables st' @ map cd_who (candidates st'))" using vs kept d by simp
  show "invulnerables st' = invulnerables st" using kick_run_frame(2) [OF run] inv by simp
qed

text \<open>C10: A session change drops exactly the right candidates: going through the list in order, those
  that did not author a block within the threshold are removed until only \<^verbatim>\<open>MinCandidates\<close> are left; all
  others stay, in order. The validators of the next session are the invulnerable ones followed by the
  candidates that stay. (Candidates are counted in 32 bits.)\<close>

theorem new_session_exact:
  assumes "validator_inv st" and "length (candidates st) < 2 ^ 32"
    and "new_session F cfg now (cs, st) = (vs, w, (cs', st'))"
  shows "candidates st' = drop_first (length (candidates st) - unat (MinCandidates cfg))
      (\<lambda>c. \<not> authored_lately cfg now st (cd_who c)) (candidates st) \<and>
    vs = Some (invulnerables st @ map cd_who (candidates st'))"
  using new_session_drops [OF assms] by simp

theorem new_session_exact_witness:
  "map cd_who (candidates (snd (snd (snd (new_session ledger_frame demo_validator_config 100
     (demo_validator_ledger, demo_validator_state)))))) = [2]"
proof -
  let ?r = "new_session ledger_frame demo_validator_config 100 (demo_validator_ledger, demo_validator_state)"
  have "candidates (snd (snd (snd ?r))) = drop_first (length (candidates demo_validator_state) - unat (MinCandidates demo_validator_config))
      (\<lambda>c. \<not> authored_lately demo_validator_config 100 demo_validator_state (cd_who c)) (candidates demo_validator_state)"
    using new_session_exact [OF demo_validator_inv, of ledger_frame demo_validator_config 100
        demo_validator_ledger "fst ?r" "fst (snd ?r)" "fst (snd (snd ?r))" "snd (snd (snd ?r))"]
    by (simp add: demo_validator_state_def)
  moreover have "map cd_who (drop_first (length (candidates demo_validator_state) - unat (MinCandidates demo_validator_config))
      (\<lambda>c. \<not> authored_lately demo_validator_config 100 demo_validator_state (cd_who c)) (candidates demo_validator_state)) = [2]"
    by code_simp
  ultimately show ?thesis by simp
qed

section \<open>Joining and leaving\<close>

text \<open>C29: Registering as a candidate and leaving again is a round trip: the candidate list and the free
  and the reserved balance of every account are what they were before. (The two balances of an account
  together fit the balance type.)\<close>

theorem register_leave_roundtrip:
  assumes cur: "currency_ok F" and inv: "validator_inv st"
    and reg: "register_as_candidate F cfg registered now o' (cs, st) = Inr (cs1, st1)"
    and leave: "leave_intent F cfg o' (cs1, st1) = Inr (cs2, st2)"
    and total: "\<And>a. unat (free_balance F cs a) + unat (reserved_balance F cs a) < 2 ^ 128"
  shows "candidates st2 = candidates st \<and>
    (\<forall>a. free_balance F cs2 a = free_balance F cs a \<and> reserved_balance F cs2 a = reserved_balance F cs a)"
  using reg
proof (cases rule: register_as_candidate_elim)
  case (1 who)
  let ?c = "\<lparr>cd_who = who, cd_deposit = candidacy_bond st\<rparr>"
  have inv1: "validator_inv st1" using 1(4,6) inv by (auto simp: validator_inv_def)
  have rem: "try_remove_candidate F cfg who False (cs1, st1) = Inr (cs2, st2)"
    using leave 1(1) by (auto elim: leave_intent_elim)
  show ?thesis
    using rem inv1
  proof (cases rule: try_remove_candidate_elim)
    case c: (1 c)
    have "c = ?c" using c(1,2) 1(4,6) by auto
    then have un: "unreserve F who (candidacy_bond st) cs1 = (fst (unreserve F who (candidacy_bond st) cs1), cs2)"
      using c(8) by simp
    have "candidates st2 = candidates st"
      using c(3) 1(4,6) by (simp add: without_candidate_def filter_id_conv)
    moreover have "unat (reserved_balance F cs2 a) = unat (reserved_balance F cs a)" for a
      using unreserveD [OF cur un, of a] reserveD(1) [OF cur 1(5), of a] by simp
    moreover have "unat (free_balance F cs2 a) = unat (free_balance F cs a)" for a
    proof (cases "a = who")
      case True
      note moved = reserveD(1) [OF cur 1(5), of who] reserve_free(1) [OF cur 1(5)] reserve_free(2) [OF cur 1(5), of who]
      have "unat (free_balance F cs1 who) + unat (reserved_balance F cs1 who) < 2 ^ 128"
        using moved total [of who] by simp
      then show ?thesis using unreserve_free [OF cur un] moved True by simp
    next
      case False
      then show ?thesis using unreserve_others [OF cur un] reserve_free(2) [OF cur 1(5), of a] by simp
    qed
    ultimately show ?thesis by (simp add: word_unat_eq_iff)
  qed
qed

theorem register_leave_roundtrip_witness:
  "\<exists>cs1 st1 cs2 st2. register_as_candidate ledger_frame demo_validator_config (\<lambda>_. True) 100 (Some 4)
       (demo_validator_ledger, demo_validator_state) = Inr (cs1, st1) \<and>
     leave_intent ledger_frame demo_validator_config (Some 4) (cs1, st1) = Inr (cs2, st2) \<and>
     candidates st2 = candidates demo_validator_state \<and>
     free_balance ledger_frame cs2 4 = free_balance ledger_frame demo_validator_ledger 4"
proof -
  let ?reg = "register_as_candidate ledger_frame demo_validator_config (\<lambda>_. True) 100 (Some 4)
       (demo_validator_ledger, demo_validator_state)"
  have "\<not> isl ?reg" by code_simp
  then obtain cs1 st1 where reg: "?reg = Inr (cs1, st1)" by (cases ?reg) auto
  have "case ?reg of Inl _ \<Rightarrow> False | Inr s \<Rightarrow> \<not> isl (leave_intent ledger_frame demo_validator_config (Some 4) s)"
    by code_simp
  then obtain cs2 st2 where leave: "leave_intent ledger_frame demo_validator_config (Some 4) (cs1, st1) = Inr (cs2, st2)"
    using reg by (cases "leave_intent ledger_frame demo_validator_config (Some 4) (cs1, st1)") auto
  have total: "unat (free_balance ledger_frame demo_validator_ledger a) +
      unat (reserved_balance ledger_frame demo_validator_ledger a) < 2 ^ 128" for a
    by (simp add: ledger_frame_def demo_validator_ledger_def ledger_free_def ledger_reserved_def get_or_def sget_def)
  from register_leave_roundtrip [OF ledger_currency_ok demo_validator_inv reg leave total] reg leave
  show ?thesis by blast
qed

text \<open>A successful registration keeps the number of candidates within \<^verbatim>\<open>DesiredCandidates\<close>, and
  the new candidate is neither invulnerable nor a candidate already.\<close>

theorem register_within_desired:
  assumes "length (candidates st) < 2 ^ 32"
    and "register_as_candidate F cfg registered now o' (cs, st) = Inr (cs', st')"
  shows "length (candidates st') \<le> unat (desired_candidates st) \<and>
    (\<exists>who. ensure_signed F o' = Some who \<and> who \<notin> set (invulnerables st) \<and>
      who \<notin> cd_who ` set (candidates st) \<and> who \<in> cd_who ` set (candidates st'))"
  using assms(2)
proof (cases rule: register_as_candidate_elim)
  case (1 who)
  have "length (candidates st) < unat (desired_candidates st)"
    using 1(2) assms(1) by (simp add: word_less_nat_alt unat_of_nat)
  with 1 show ?thesis by auto
qed

theorem register_within_desired_witness:
  "\<exists>cs' st'. register_as_candidate ledger_frame demo_validator_config (\<lambda>_. True) 100 (Some 4)
       (demo_validator_ledger, demo_validator_state) = Inr (cs', st') \<and> length (candidates st') \<le> 3"
proof -
  let ?reg = "register_as_candidate ledger_frame demo_validator_config (\<lambda>_. True) 100 (Some 4)
       (demo_validator_ledger, demo_validator_state)"
  have "\<not> isl ?reg" by code_simp
  then obtain cs1 st1 where reg: "?reg = Inr (cs1, st1)" by (cases ?reg) auto
  have "length (candidates st1) \<le> unat (desired_candidates demo_validator_state)"
    using register_within_desired [OF _ reg] by (simp add: demo_validator_state_def)
  with reg show ?thesis by (simp add: demo_validator_state_def)
qed

section \<open>Duplicate validators\<close>



section \<open>Author rewards\<close>

text \<open>C39: The author of a block gets everything in the pot above the existential deposit, the pot
  keeps exactly that deposit, no other balance and no reserve changes, and the block is recorded as the
  author's last. (The pot exists, the author is not the pot and the currency accepts the transfer.)\<close>

theorem author_paid_the_pot:
  assumes cur: "currency_ok F" and "minimum_balance F \<le> free_balance F cs (validator_pot cfg)"
    and "author \<noteq> validator_pot cfg"
    and ok: "\<not> isl (transfer F (validator_pot cfg) author
      (free_balance F cs (validator_pot cfg) - minimum_balance F) KeepAlive cs)"
    and noted: "note_author F cfg now author (cs, st) = (w, (cs', st'))"
  shows "free_balance F cs' (validator_pot cfg) = minimum_balance F \<and>
    unat (free_balance F cs' author) = unat (free_balance F cs author) +
      (unat (free_balance F cs (validator_pot cfg)) - unat (minimum_balance F)) \<and>
    (\<forall>b. b \<noteq> author \<longrightarrow> b \<noteq> validator_pot cfg \<longrightarrow> free_balance F cs' b = free_balance F cs b) \<and>
    (\<forall>b. reserved_balance F cs' b = reserved_balance F cs b) \<and>
    sget (last_authored_block st') author = Some now"
proof -
  let ?pot = "validator_pot cfg" and ?v = "free_balance F cs (validator_pot cfg) - minimum_balance F"
  have v: "unat ?v = unat (free_balance F cs ?pot) - unat (minimum_balance F)"
    using assms(2) by (simp add: unat_minus_le)
  obtain cs1 where tr: "transfer F ?pot author ?v KeepAlive cs = Inr cs1"
    using ok by (cases "transfer F ?pot author ?v KeepAlive cs") auto
  then have s': "cs' = cs1" "st' = st\<lparr>last_authored_block := sinsert author now (last_authored_block st)\<rparr>"
    using noted assms(2) by (auto simp: note_author_def Let_def checked_sub_def validator_account_id_def)
  have "unat (free_balance F cs1 ?pot) = unat (free_balance F cs ?pot) - unat ?v"
    and "unat (free_balance F cs1 author) = unat (free_balance F cs author) + unat ?v"
    and "\<forall>b. b \<noteq> author \<longrightarrow> b \<noteq> ?pot \<longrightarrow> free_balance F cs1 b = free_balance F cs b"
    and "\<forall>b. reserved_balance F cs1 b = reserved_balance F cs b"
    using cur tr assms(3) unfolding currency_ok_def transfer_ok_def by blast+
  moreover have "unat (minimum_balance F) \<le> unat (free_balance F cs ?pot)"
    using assms(2) by (simp add: word_le_nat_alt)
  ultimately show ?thesis using s' v by (simp add: word_unat_eq_iff)
qed

theorem author_paid_the_pot_witness:
  "free_balance ledger_frame (fst (snd (note_author ledger_frame demo_validator_config 100 1
     (demo_validator_ledger, demo_validator_state)))) 88 = 2"
proof -
  let ?r = "note_author ledger_frame demo_validator_config 100 1 (demo_validator_ledger, demo_validator_state)"
  have "minimum_balance ledger_frame \<le> free_balance ledger_frame demo_validator_ledger (validator_pot demo_validator_config)"
    and "\<not> isl (transfer ledger_frame (validator_pot demo_validator_config) 1
      (free_balance ledger_frame demo_validator_ledger (validator_pot demo_validator_config) -
        minimum_balance ledger_frame) KeepAlive demo_validator_ledger)"
    by code_simp+
  then show ?thesis
    using author_paid_the_pot [OF ledger_currency_ok, of demo_validator_ledger demo_validator_config 1 100
        demo_validator_state "fst ?r" "fst (snd ?r)" "snd (snd ?r)"]
    by (simp add: demo_validator_config_def ledger_frame_def)
qed

end
