(* ===== verification/Weights.thy ===== *)
theory Weights
  imports Dapi Validator_Props
begin

text \<open>
  The weight functions of the four pallets (\<^verbatim>\<open>weights.rs\<close>), in both implementations of the trait
  \<^verbatim>\<open>WeightInfo\<close>: \<^verbatim>\<open>SubstrateWeight<T>\<close>, which asks the runtime for the database weights, and
  \<^verbatim>\<open>()\<close>, which uses those of RocksDB. One constructor stands for each function of the trait, with
  its parameters. The weights that the calls of the dapi pallet are annotated with follow.
\<close>

section \<open>The weight functions\<close>

text \<open>\<^verbatim>\<open>RuntimeDbWeight\<close>: the cost of \<open>n\<close> reads and of \<open>n\<close> writes.\<close>

record db_weight =
  db_read_weight :: "u64 \<Rightarrow> u64"
  db_write_weight :: "u64 \<Rightarrow> u64"

text \<open>\<^verbatim>\<open>base.saturating_add(x).saturating_add(y)\<close> and so on.\<close>

definition add_all :: "u64 \<Rightarrow> u64 list \<Rightarrow> u64" where
  "add_all base xs = foldl saturating_add base xs"

datatype staking_weight_fn =
  staking_w_set_blocks_per_era
| staking_w_provider_bond_more
| staking_w_provider_bond_less
| staking_w_delegate
| staking_w_delegator_unstake
| staking_w_withdraw_unbonded
| staking_w_claim_provider
| staking_w_claim_delegator
| staking_w_provider_withdraw_unregistered
| staking_w_delegator_withdraw_unregistered

fun staking_SubstrateWeight :: "db_weight \<Rightarrow> staking_weight_fn \<Rightarrow> u64" where
  "staking_SubstrateWeight D staking_w_set_blocks_per_era =
     add_all 10000000 [db_read_weight D 1, db_write_weight D 1]"
| "staking_SubstrateWeight D staking_w_provider_bond_more =
     add_all 27000000 [db_read_weight D 5, db_write_weight D 3]"
| "staking_SubstrateWeight D staking_w_provider_bond_less =
     add_all 21000000 [db_read_weight D 5, db_write_weight D 3]"
| "staking_SubstrateWeight D staking_w_delegate =
     add_all 32000000 [db_read_weight D 5, db_write_weight D 3]"
| "staking_SubstrateWeight D staking_w_delegator_unstake =
     add_all 27000000 [db_read_weight D 6, db_write_weight D 4]"
| "staking_SubstrateWeight D staking_w_withdraw_unbonded =
     add_all 25000000 [db_read_weight D 2, db_write_weight D 1]"
| "staking_SubstrateWeight D staking_w_claim_provider =
     add_all 20000000 [db_read_weight D 4, db_write_weight D 1]"
| "staking_SubstrateWeight D staking_w_claim_delegator =
     add_all 23000000 [db_read_weight D 5, db_write_weight D 1]"
| "staking_SubstrateWeight D staking_w_provider_withdraw_unregistered =
     add_all 27000000 [db_read_weight D 4, db_write_weight D 2]"
| "staking_SubstrateWeight D staking_w_delegator_withdraw_unregistered =
     add_all 28000000 [db_read_weight D 4, db_write_weight D 2]"

fun staking_UnitWeight :: "db_weight \<Rightarrow> staking_weight_fn \<Rightarrow> u64" where
  "staking_UnitWeight D staking_w_set_blocks_per_era =
     add_all 10000000 [db_read_weight D 1, db_write_weight D 1]"
| "staking_UnitWeight D staking_w_provider_bond_more =
     add_all 27000000 [db_read_weight D 5, db_write_weight D 3]"
| "staking_UnitWeight D staking_w_provider_bond_less =
     add_all 21000000 [db_read_weight D 5, db_write_weight D 3]"
| "staking_UnitWeight D staking_w_delegate =
     add_all 32000000 [db_read_weight D 5, db_write_weight D 3]"
| "staking_UnitWeight D staking_w_delegator_unstake =
     add_all 27000000 [db_read_weight D 6, db_write_weight D 4]"
| "staking_UnitWeight D staking_w_withdraw_unbonded =
     add_all 25000000 [db_read_weight D 2, db_write_weight D 1]"
| "staking_UnitWeight D staking_w_claim_provider =
     add_all 20000000 [db_read_weight D 4, db_write_weight D 1]"
| "staking_UnitWeight D staking_w_claim_delegator =
     add_all 23000000 [db_read_weight D 5, db_write_weight D 1]"
| "staking_UnitWeight D staking_w_provider_withdraw_unregistered =
     add_all 27000000 [db_read_weight D 4, db_write_weight D 2]"
| "staking_UnitWeight D staking_w_delegator_withdraw_unregistered =
     add_all 28000000 [db_read_weight D 4, db_write_weight D 2]"

datatype dapi_weight_fn =
  dapi_w_register_project
| dapi_w_deposit_project
| dapi_w_deposit_provider
| dapi_w_unregister_provider
| dapi_w_add_chain_id
| dapi_w_remove_chain_id
| dapi_w_add_regulator
| dapi_w_remove_regulator

fun dapi_SubstrateWeight :: "db_weight \<Rightarrow> dapi_weight_fn \<Rightarrow> u64" where
  "dapi_SubstrateWeight D dapi_w_register_project =
     add_all 39000000 [db_read_weight D 5, db_write_weight D 4]"
| "dapi_SubstrateWeight D dapi_w_deposit_project =
     add_all 30000000 [db_read_weight D 4, db_write_weight D 4]"
| "dapi_SubstrateWeight D dapi_w_deposit_provider =
     add_all 29000000 [db_read_weight D 5, db_write_weight D 5]"
| "dapi_SubstrateWeight D dapi_w_unregister_provider =
     add_all 22000000 [db_read_weight D 5, db_write_weight D 3]"
| "dapi_SubstrateWeight D dapi_w_add_chain_id =
     add_all 10000000 [db_read_weight D 1, db_write_weight D 1]"
| "dapi_SubstrateWeight D dapi_w_remove_chain_id =
     add_all 11000000 [db_read_weight D 1, db_write_weight D 1]"
| "dapi_SubstrateWeight D dapi_w_add_regulator =
     add_all 10000000 [db_read_weight D 1, db_write_weight D 1]"
| "dapi_SubstrateWeight D dapi_w_remove_regulator =
     add_all 11000000 [db_read_weight D 1, db_write_weight D 1]"

fun dapi_UnitWeight :: "db_weight \<Rightarrow> dapi_weight_fn \<Rightarrow> u64" where
  "dapi_UnitWeight D dapi_w_register_project =
     add_all 39000000 [db_read_weight D 5, db_write_weight D 4]"
| "dapi_UnitWeight D dapi_w_deposit_project =
     add_all 30000000 [db_read_weight D 4, db_write_weight D 4]"
| "dapi_UnitWeight D dapi_w_deposit_provider =
     add_all 29000000 [db_read_weight D 5, db_write_weight D 5]"
| "dapi_UnitWeight D dapi_w_unregister_provider =
     add_all 22000000 [db_read_weight D 5, db_write_weight D 3]"
| "dapi_UnitWeight D dapi_w_add_chain_id =
     add_all 10000000 [db_read_weight D 1, db_write_weight D 1]"
| "dapi_UnitWeight D dapi_w_remove_chain_id =
     add_all 11000000 [db_read_weight D 1, db_write_weight D 1]"
| "dapi_UnitWeight D dapi_w_add_regulator =
     add_all 10000000 [db_read_weight D 1, db_write_weight D 1]"
| "dapi_UnitWeight D dapi_w_remove_regulator =
     add_all 11000000 [db_read_weight D 1, db_write_weight D 1]"

datatype validator_weight_fn =
  validator_w_set_invulnerables u32
| validator_w_set_desired_candidates
| validator_w_set_candidacy_bond
| validator_w_register_as_candidate u32
| validator_w_leave_intent u32
| validator_w_note_author
| validator_w_new_session u32 u32

fun validator_SubstrateWeight :: "db_weight \<Rightarrow> validator_weight_fn \<Rightarrow> u64" where
  "validator_SubstrateWeight D (validator_w_set_invulnerables b) =
     add_all 8432000 [saturating_mul 3302000 (ucast b),
       db_read_weight D (saturating_mul 1 (ucast b)),
       db_write_weight D 1]"
| "validator_SubstrateWeight D validator_w_set_desired_candidates =
     add_all 8000000 [db_write_weight D 1]"
| "validator_SubstrateWeight D validator_w_set_candidacy_bond =
     add_all 8000000 [db_write_weight D 1]"
| "validator_SubstrateWeight D (validator_w_register_as_candidate c) =
     add_all 33149000 [saturating_mul 58000 (ucast c), db_read_weight D 5, db_write_weight D 2]"
| "validator_SubstrateWeight D (validator_w_leave_intent c) =
     add_all 22624000 [saturating_mul 62000 (ucast c), db_read_weight D 1, db_write_weight D 2]"
| "validator_SubstrateWeight D validator_w_note_author =
     add_all 30000000 [db_read_weight D 3, db_write_weight D 4]"
| "validator_SubstrateWeight D (validator_w_new_session r c) =
     add_all 0 [saturating_mul 7415000 (ucast r),
       saturating_mul 25726000 (ucast c),
       db_read_weight D (saturating_mul 2 (ucast c)),
       db_write_weight D (saturating_mul 1 (ucast r)),
       db_write_weight D (saturating_mul 1 (ucast c))]"

fun validator_UnitWeight :: "db_weight \<Rightarrow> validator_weight_fn \<Rightarrow> u64" where
  "validator_UnitWeight D (validator_w_set_invulnerables b) =
     add_all 8432000 [saturating_mul 3302000 (ucast b),
       db_read_weight D (saturating_mul 1 (ucast b)),
       db_write_weight D 1]"
| "validator_UnitWeight D validator_w_set_desired_candidates =
     add_all 8000000 [db_write_weight D 1]"
| "validator_UnitWeight D validator_w_set_candidacy_bond =
     add_all 8000000 [db_write_weight D 1]"
| "validator_UnitWeight D (validator_w_register_as_candidate c) =
     add_all 33149000 [saturating_mul 58000 (ucast c), db_read_weight D 5, db_write_weight D 2]"
| "validator_UnitWeight D (validator_w_leave_intent c) =
     add_all 22624000 [saturating_mul 62000 (ucast c), db_read_weight D 1, db_write_weight D 2]"
| "validator_UnitWeight D validator_w_note_author =
     add_all 30000000 [db_read_weight D 3, db_write_weight D 4]"
| "validator_UnitWeight D (validator_w_new_session r c) =
     add_all 0 [saturating_mul 7415000 (ucast r),
       saturating_mul 25726000 (ucast c),
       db_read_weight D (saturating_mul 2 (ucast c)),
       db_write_weight D (saturating_mul 1 (ucast r)),
       db_write_weight D (saturating_mul 1 (ucast c))]"

datatype reward_weight_fn =
  reward_w_set_config

fun reward_SubstrateWeight :: "db_weight \<Rightarrow> reward_weight_fn \<Rightarrow> u64" where
  "reward_SubstrateWeight D reward_w_set_config =
     add_all 9000000 [db_write_weight D 1]"

fun reward_UnitWeight :: "db_weight \<Rightarrow> reward_weight_fn \<Rightarrow> u64" where
  "reward_UnitWeight D reward_w_set_config =
     add_all 9000000 [db_write_weight D 1]"

section \<open>What the calls of the dapi pallet cost\<close>

text \<open>The annotation \<^verbatim>\<open>#[pallet::weight(..)]\<close> of every call: its weight and whether a fee is paid.\<close>

definition dapi_call_weight :: "db_weight \<Rightarrow> ('ac, 'pid) dapi_call \<Rightarrow> u64 \<times> bool" where
  "dapi_call_weight D c = (case c of
     RegisterProject _ _ _ \<Rightarrow> (dapi_SubstrateWeight D dapi_w_register_project, True)
   | DepositProject _ _ \<Rightarrow> (dapi_SubstrateWeight D dapi_w_deposit_project, True)
   | SubmitProjectUsage _ _ \<Rightarrow> (0, False)
   | DapiRegisterProvider _ _ _ _ \<Rightarrow> (0, False)
   | DepositProvider _ _ \<Rightarrow> (dapi_SubstrateWeight D dapi_w_deposit_provider, True)
   | DapiUnregisterProvider _ \<Rightarrow> (dapi_SubstrateWeight D dapi_w_unregister_provider, True)
   | ReportProviderOffence _ _ \<Rightarrow> (0, False)
   | AddRegulator _ \<Rightarrow> (dapi_SubstrateWeight D dapi_w_add_regulator, True)
   | RemoveRegulator _ \<Rightarrow> (dapi_SubstrateWeight D dapi_w_remove_regulator, True)
   | AddChainId _ \<Rightarrow> (dapi_SubstrateWeight D dapi_w_add_chain_id, True)
   | RemoveChainId _ \<Rightarrow> (dapi_SubstrateWeight D dapi_w_remove_chain_id, True))"

section \<open>Theorems\<close>

text \<open>The two implementations agree on every function of every pallet when the runtime's
  database weights are those of RocksDB: the weights used in tests are the weights charged.\<close>

theorem weight_implementations_agree:
  "staking_SubstrateWeight D = staking_UnitWeight D \<and> dapi_SubstrateWeight D = dapi_UnitWeight D \<and>
   validator_SubstrateWeight D = validator_UnitWeight D \<and> reward_SubstrateWeight D = reward_UnitWeight D"
proof (intro conjI ext)
  show "staking_SubstrateWeight D x = staking_UnitWeight D x" for x by (cases x) simp_all
  show "dapi_SubstrateWeight D x = dapi_UnitWeight D x" for x by (cases x) simp_all
  show "validator_SubstrateWeight D x = validator_UnitWeight D x" for x by (cases x) simp_all
  show "reward_SubstrateWeight D x = reward_UnitWeight D x" for x by (cases x) simp_all
qed

text \<open>C37: The calls that pay no fee are exactly the ones the signed extension keeps to regulators:
  a transaction that costs nothing is admitted from a regulator only.\<close>

theorem free_calls_are_guarded:
  "(\<not> snd (dapi_call_weight D c)) = (\<forall>st who. PreValidate_validate st who (Some c) =
     (if who \<in> regulators st then Inr () else Inl BadSigner))"
proof -
  have "\<not> snd (dapi_call_weight D c) \<longleftrightarrow> regulator_call c"
    by (cases c) (simp_all add: dapi_call_weight_def regulator_call_def)
  moreover have "PreValidate_validate \<lparr>projects = [], providers = [], regulators = {}, chain_ids = {},
      dapi_events = []\<rparr> undefined (Some c) = Inr ()" if "\<not> regulator_call c"
    using that by (simp add: PreValidate_validate_def)
  ultimately show ?thesis
    by (auto simp: PreValidate_validate_def) (metis Inl_Inr_False dapi_state.select_convs(3) empty_iff)
qed

text \<open>Sums of weights as sums of numbers, while they stay in range.\<close>

lemma add_all_exact:
  assumes "unat b + sum_list (map unat xs) < 2 ^ 64"
  shows "unat (add_all b xs) = unat b + sum_list (map unat xs)"
  using assms unfolding add_all_def
proof (induction xs arbitrary: b)
  case (Cons x xs)
  then have "unat (saturating_add b x) = unat b + unat x" by (simp add: unat_saturating_add)
  with Cons show ?case by simp
qed simp

lemma saturating_mul_exact:
  fixes a b :: "'a::len word"
  shows "unat a * unat b < 2 ^ LENGTH('a) \<Longrightarrow> unat (saturating_mul a b) = unat a * unat b"
  by (simp add: unat_saturating_mul)

text \<open>The weight of a session change for a number of candidates as large as the runtimes allow.\<close>

lemma new_session_weight_value:
  assumes "db_read_weight D = saturating_mul 25000000" and "db_write_weight D = saturating_mul 100000000"
    and "unat r \<le> 1000" and "unat c \<le> 1000"
  shows "unat (validator_SubstrateWeight D (validator_w_new_session r c)) =
    107415000 * unat r + 175726000 * unat c"
proof -
  have u: "unat (ucast r :: u64) = unat r" "unat (ucast c :: u64) = unat c"
    using assms(3,4) by (simp_all add: unsigned_ucast_eq take_bit_nat_eq_self)
  have "unat (saturating_mul 7415000 (ucast r) :: u64) = 7415000 * unat r"
    "unat (saturating_mul 25726000 (ucast c) :: u64) = 25726000 * unat c"
    "unat (saturating_mul 2 (ucast c) :: u64) = 2 * unat c"
    "unat (saturating_mul 1 (ucast c) :: u64) = unat c"
    "unat (saturating_mul 1 (ucast r) :: u64) = unat r"
    using assms(3,4) u by (simp_all add: saturating_mul_exact)
  moreover from this have "unat (saturating_mul 25000000 (saturating_mul 2 (ucast c) :: u64)) = 50000000 * unat c"
    "unat (saturating_mul 100000000 (saturating_mul 1 (ucast r) :: u64)) = 100000000 * unat r"
    "unat (saturating_mul 100000000 (saturating_mul 1 (ucast c) :: u64)) = 100000000 * unat c"
    using assms(3,4) by (simp_all add: saturating_mul_exact)
  ultimately show ?thesis
    using assms(3,4) by (simp add: add_all_exact assms(1,2))
qed

text \<open>The weight charged for a session change is too low: the pallet passes the number of
  candidates and the number removed where the weight function was measured with the number removed
  first and the number of candidates second. With at least one candidate and nobody removed the
  registered weight is less than the measured one.\<close>

theorem new_session_weight_swapped:
  assumes inv: "validator_inv st" and ns: "new_session F cfg now (cs, st) = (vs, w, (cs', st'))"
    and weights: "weight_new_session cfg = (\<lambda>r c. validator_SubstrateWeight D (validator_w_new_session r c))"
    and D: "db_read_weight D = saturating_mul 25000000" "db_write_weight D = saturating_mul 100000000"
    and size: "0 < length (candidates st)" "length (candidates st) \<le> 1000"
    and none: "length (candidates st') = length (candidates st)"
  shows "w < validator_SubstrateWeight D (validator_w_new_session 0 (word_of_nat (length (candidates st))))"
proof -
  let ?n = "length (candidates st)"
  obtain kept where run: "kick_run F cfg now (candidates st) (cs, st) kept (cs', st')"
    and w: "w = weight_new_session cfg (word_of_nat ?n) (word_of_nat (?n - length kept))"
    using new_session_run [OF _ ns] inv by auto
  have distinct: "distinct (map cd_who (candidates st))" using inv by (simp add: validator_inv_def)
  note cands = kick_run_candidates [OF run, simplified, OF inv distinct]
  have "candidates st' = filter (\<lambda>x. cd_who x \<in> set kept) (candidates st)"
    using cands(1) by (auto intro: filter_cong)
  with cands(2) have "length kept = length (candidates st')" by (metis length_map)
  then have w': "w = validator_SubstrateWeight D (validator_w_new_session (word_of_nat ?n) 0)"
    using w weights none by simp
  have n: "unat (word_of_nat ?n :: u32) = ?n" using size(2) by (simp add: unat_of_nat)
  then have "unat w = 107415000 * ?n"
    and "unat (validator_SubstrateWeight D (validator_w_new_session 0 (word_of_nat ?n))) = 175726000 * ?n"
    unfolding w' using size(2) by (subst new_session_weight_value [OF D]; simp)+
  with size(1) show ?thesis by (simp add: word_less_nat_alt)
qed

definition demo_db_weight :: db_weight where
  "demo_db_weight = \<lparr>db_read_weight = saturating_mul 25000000, db_write_weight = saturating_mul 100000000\<rparr>"

definition demo_weight_config :: "(nat, nat option) validator_config" where
  "demo_weight_config = demo_validator_config\<lparr>weight_new_session :=
     (\<lambda>r c. validator_SubstrateWeight demo_db_weight (validator_w_new_session r c))\<rparr>"

theorem new_session_weight_swapped_witness:
  "fst (snd (new_session ledger_frame demo_weight_config 25 (demo_validator_ledger, demo_validator_state)))
     < validator_SubstrateWeight demo_db_weight (validator_w_new_session 0 2)"
proof -
  let ?r = "new_session ledger_frame demo_weight_config 25 (demo_validator_ledger, demo_validator_state)"
  have "length (candidates (snd (snd (snd ?r)))) = 2" by code_simp
  then show ?thesis
    using new_session_weight_swapped [OF demo_validator_inv, of ledger_frame demo_weight_config 25
        demo_validator_ledger "fst ?r" "fst (snd ?r)" "fst (snd (snd ?r))" "snd (snd (snd ?r))" demo_db_weight]
    by (simp add: demo_weight_config_def demo_db_weight_def demo_validator_state_def
        del: validator_SubstrateWeight.simps)
qed

end
