(* ===== verification/Block_Reward.thy ===== *)
theory Block_Reward
  imports Frame
begin

text \<open>
  \<^verbatim>\<open>pallets/block-reward/src/lib.rs\<close>: every block issues a fixed reward and splits it between the
  validators and the providers by a configured distribution. The beneficiaries are reached through
  the trait \<^verbatim>\<open>BeneficiaryPayout\<close>, two fields of the configuration here; what the pallet may expect
  of them is the locale \<open>beneficiaries\<close>.
\<close>

section \<open>The distribution\<close>

record distribution_config =
  providers_percent :: perbill
  validators_percent :: perbill

definition DistributionConfig_default :: "('ac, 'cs, 'o) frame \<Rightarrow> distribution_config" where
  "DistributionConfig_default F =
     \<lparr>providers_percent = perbill_from_percent F 50, validators_percent = perbill_from_percent F 50\<rparr>"

text \<open>The loop of \<^verbatim>\<open>is_valid\<close>; \<open>None\<close> is the early return.\<close>

fun accumulate :: "('ac, 'cs, 'o) frame \<Rightarrow> perbill \<Rightarrow> perbill list \<Rightarrow> perbill option" where
  "accumulate F accumulator [] = Some accumulator"
| "accumulate F accumulator (percentage # rest) =
     (case perbill_checked_add F accumulator percentage of
        Some result \<Rightarrow> accumulate F result rest
      | None \<Rightarrow> None)"

definition distribution_is_valid :: "('ac, 'cs, 'o) frame \<Rightarrow> distribution_config \<Rightarrow> bool" where
  "distribution_is_valid F c =
     (case accumulate F (perbill_zero F) [providers_percent c, validators_percent c] of
        None \<Rightarrow> False
      | Some accumulator \<Rightarrow> perbill_one F = accumulator)"

section \<open>The pallet\<close>

record 'w reward_pallet_config =
  RewardAmount :: u128
  currency_issue :: "u128 \<Rightarrow> 'w \<Rightarrow> u128 \<times> 'w"
  payout_validators :: "u128 \<Rightarrow> 'w \<Rightarrow> 'w"
  payout_providers :: "u128 \<Rightarrow> 'w \<Rightarrow> 'w"

datatype reward_event = DistributionConfigChanged distribution_config

datatype reward_error = InvalidDistributionConfig

record reward_state =
  reward_config :: distribution_config
  reward_events :: "reward_event list"

definition reward_genesis_build ::
    "('ac, 'cs, 'o) frame \<Rightarrow> distribution_config \<Rightarrow> reward_state option" where
  "reward_genesis_build F c =
     (if distribution_is_valid F c then Some \<lparr>reward_config = c, reward_events = []\<rparr> else None)"

definition set_config ::
    "('ac, 'cs, 'o) frame \<Rightarrow> 'o \<Rightarrow> distribution_config \<Rightarrow> 'w \<times> reward_state \<Rightarrow>
     (reward_error, 'w \<times> reward_state) dispatch" where
  "set_config F origin c = (\<lambda>(w, st).
     if \<not> ensure_root F origin then Inl BadOrigin
     else if \<not> distribution_is_valid F c then Inl (ModuleError InvalidDistributionConfig)
     else Inr (w, st\<lparr>reward_config := c,
                     reward_events := reward_events st @ [DistributionConfigChanged c]\<rparr>))"

definition distribute_rewards ::
    "('ac, 'cs, 'o) frame \<Rightarrow> 'w reward_pallet_config \<Rightarrow> u128 \<Rightarrow> 'w \<times> reward_state \<Rightarrow> 'w \<times> reward_state" where
  "distribute_rewards F cfg block_reward = (\<lambda>(w, st).
     let provider_balance = perbill_mul F (providers_percent (reward_config st)) block_reward;
         (providers_imbalance, validators_imbalance) = imbalance_split F block_reward provider_balance;
         w1 = payout_validators cfg validators_imbalance w;
         w2 = payout_providers cfg providers_imbalance w1
     in (w2, st))"

definition on_timestamp_set ::
    "('ac, 'cs, 'o) frame \<Rightarrow> 'w reward_pallet_config \<Rightarrow> 'w \<times> reward_state \<Rightarrow> 'w \<times> reward_state" where
  "on_timestamp_set F cfg = (\<lambda>(w, st).
     let (inflation, w1) = currency_issue cfg (RewardAmount cfg) w
     in distribute_rewards F cfg inflation (w1, st))"

section \<open>Validity\<close>

definition reward_inv :: "('ac, 'cs, 'o) frame \<Rightarrow> reward_state \<Rightarrow> bool" where
  "reward_inv F st \<longleftrightarrow> distribution_is_valid F (reward_config st)"

lemma distribution_is_valid_iff:
  assumes pb: "perbill_ok F"
  shows "distribution_is_valid F c \<longleftrightarrow>
    unat (providers_percent c) + unat (validators_percent c) = 1000000000"
proof -
  have F: "perbill_zero F = 0" "perbill_one F = 1000000000" using pb by (auto simp: perbill_ok_def)
  have add: "perbill_checked_add F x y = (if unat x + unat y \<le> 1000000000 then Some (x + y) else None)" for x y
    using pb unfolding perbill_ok_def F by simp
  have "(1000000000 = providers_percent c + validators_percent c) \<longleftrightarrow>
      unat (providers_percent c) + unat (validators_percent c) = 1000000000"
    if "unat (providers_percent c) + unat (validators_percent c) \<le> 1000000000"
    using that by (simp add: word_unat_eq_iff unat_plus_fits eq_commute)
  then show ?thesis by (auto simp: distribution_is_valid_def F add)
qed

lemma valid_providers_percent:
  assumes "perbill_ok F" and "distribution_is_valid F c"
  shows "providers_percent c \<le> perbill_one F"
  using assms by (simp add: distribution_is_valid_iff) (simp add: perbill_ok_def word_le_nat_alt)

lemma set_config_elim:
  assumes "set_config F o' c (w, st) = Inr (w', st')"
  shows "ensure_root F o'" and "distribution_is_valid F c" and "w' = w" and "reward_config st' = c"
  using assms by (auto simp: set_config_def split: if_splits)

section \<open>The beneficiaries\<close>

text \<open>
  What the two payouts do: each adds its amount to its own account of the beneficiaries' wealth and
  leaves the other's alone, while the accounts are in a state \<open>ready\<close> to receive and have room.
\<close>

locale beneficiaries =
  fixes cfg :: "'w reward_pallet_config"
    and ready :: "'w \<Rightarrow> bool"
    and validators_have :: "'w \<Rightarrow> nat"
    and providers_have :: "'w \<Rightarrow> nat"
  assumes pay_validators: "ready w \<Longrightarrow> validators_have w + unat v < 2 ^ 128 \<Longrightarrow>
      ready (payout_validators cfg v w) \<and>
      validators_have (payout_validators cfg v w) = validators_have w + unat v \<and>
      providers_have (payout_validators cfg v w) = providers_have w"
    and pay_providers: "ready w \<Longrightarrow> providers_have w + unat v < 2 ^ 128 \<Longrightarrow>
      ready (payout_providers cfg v w) \<and>
      providers_have (payout_providers cfg v w) = providers_have w + unat v \<and>
      validators_have (payout_providers cfg v w) = validators_have w"
    and issue_keeps: "ready w \<Longrightarrow> currency_issue cfg v w = (i, w') \<Longrightarrow>
      ready w' \<and> validators_have w' = validators_have w \<and> providers_have w' = providers_have w"
begin

lemma distribute_exact:
  assumes "currency_ok F" and "perbill_ok F" and "providers_percent (reward_config st) \<le> perbill_one F"
    and "ready w" and "validators_have w + unat r < 2 ^ 128" and "providers_have w + unat r < 2 ^ 128"
    and "distribute_rewards F cfg r (w, st) = (w', st')"
  shows "providers_have w' = providers_have w + unat (perbill_mul F (providers_percent (reward_config st)) r)"
    and "validators_have w' + unat (perbill_mul F (providers_percent (reward_config st)) r) =
      validators_have w + unat r"
    and "ready w'"
proof -
  let ?p = "perbill_mul F (providers_percent (reward_config st)) r"
  obtain x y where split: "imbalance_split F r ?p = (x, y)" by (cases "imbalance_split F r ?p")
  have "?p \<le> r" by (rule perbill_mul_le [OF assms(2,3)])
  then have le: "unat ?p \<le> unat r" by (simp add: word_le_nat_alt)
  then have xy: "unat x = unat ?p" "unat y = unat r - unat ?p"
    using imbalance_splitD [OF assms(1) split] by simp_all
  define w1 where "w1 = payout_validators cfg y w"
  have w1: "ready w1" "validators_have w1 = validators_have w + unat y" "providers_have w1 = providers_have w"
    using pay_validators [OF assms(4), of y] assms(5) xy unfolding w1_def by simp_all
  have "w' = payout_providers cfg x w1"
    using assms(7) split by (simp add: distribute_rewards_def w1_def)
  then have "ready w'" "providers_have w' = providers_have w + unat x" "validators_have w' = validators_have w1"
    using pay_providers [OF w1(1), of x] assms(6) w1(3) xy le by simp_all
  with w1 xy le show "ready w'"
    and "providers_have w' = providers_have w + unat ?p"
    and "validators_have w' + unat ?p = validators_have w + unat r" by simp_all
qed

lemma block_reward_conserved:
  assumes "currency_ok F" and "perbill_ok F" and "providers_percent (reward_config st) \<le> perbill_one F"
    and "ready w" and issue: "currency_issue cfg (RewardAmount cfg) w = (i, w0)"
    and "validators_have w + unat i < 2 ^ 128" and "providers_have w + unat i < 2 ^ 128"
    and "on_timestamp_set F cfg (w, st) = (w', st')"
  shows "validators_have w' + providers_have w' = validators_have w + providers_have w + unat i"
proof -
  have w0: "ready w0" "validators_have w0 = validators_have w" "providers_have w0 = providers_have w"
    using issue_keeps [OF assms(4) issue] by auto
  have "distribute_rewards F cfg i (w0, st) = (w', st')"
    using assms(8) issue by (simp add: on_timestamp_set_def)
  with assms(6,7) w0 distribute_exact [OF assms(1-3) w0(1), of i w' st'] show ?thesis by simp
qed

end

end
