(* ===== verification/Runtime_Config.thy ===== *)
theory Runtime_Config
  imports Staking_Limits Dapi_Inv Weights Block_Reward
begin

text \<open>
  \<^verbatim>\<open>runtime/keiko/src/lib.rs\<close> and \<^verbatim>\<open>runtime/local/src/lib.rs\<close>: the constants and the configuration
  each of the two runtimes gives the pallets, the handlers that connect them (fees, block rewards,
  project payments), and the filter on transactions; and \<^verbatim>\<open>common/src/lib.rs\<close>, the provider and
  project ids.

  The accounts of the pallet ids, the database weights and the base weight of an extrinsic come from
  the framework: they are parameters.
\<close>

section \<open>Ids and accounts\<close>

text \<open>Thirty-six bytes.\<close>

datatype massbit_id = MassbitId "u8 list"

definition MassbitId_default :: massbit_id where
  "MassbitId_default = MassbitId (replicate 36 1)"

text \<open>\<open>pallet_account\<close> is \<^verbatim>\<open>PalletId(..).into_account_truncating()\<close>.\<close>

record 'ac platform =
  pallet_account :: "string \<Rightarrow> 'ac"
  DbWeight :: db_weight
  ExtrinsicBaseWeight :: u64

section \<open>Dispatchable calls\<close>

text \<open>The \<^verbatim>\<open>Call\<close> enums of the staking and the validator pallet, without the origin.\<close>

datatype staking_dispatch =
  Call_set_blocks_per_era u32
| Call_provider_bond_more massbit_id u128
| Call_provider_bond_less massbit_id u128
| Call_delegate massbit_id u128
| Call_delegator_unstake massbit_id u128
| Call_withdraw_unbonded
| Call_claim_provider massbit_id era_index
| Call_claim_delegator massbit_id
| Call_provider_withdraw_unregistered massbit_id
| Call_delegator_withdraw_unregistered massbit_id

fun staking_call_of :: "'o \<Rightarrow> staking_dispatch \<Rightarrow> ('ac, massbit_id, 'o) staking_call" where
  "staking_call_of o' (Call_set_blocks_per_era n) = SetBlocksPerEra o' n"
| "staking_call_of o' (Call_provider_bond_more p v) = ProviderBondMore o' p v"
| "staking_call_of o' (Call_provider_bond_less p v) = ProviderBondLess o' p v"
| "staking_call_of o' (Call_delegate p v) = Delegate o' p v"
| "staking_call_of o' (Call_delegator_unstake p v) = DelegatorUnstake o' p v"
| "staking_call_of o' Call_withdraw_unbonded = WithdrawUnbonded o'"
| "staking_call_of o' (Call_claim_provider p e) = ClaimProvider o' p e"
| "staking_call_of o' (Call_claim_delegator p) = ClaimDelegator o' p"
| "staking_call_of o' (Call_provider_withdraw_unregistered p) = ProviderWithdrawUnregistered o' p"
| "staking_call_of o' (Call_delegator_withdraw_unregistered p) = DelegatorWithdrawUnregistered o' p"

datatype 'ac validator_dispatch =
  Call_set_invulnerables "'ac list"
| Call_set_desired_candidates u32
| Call_set_candidacy_bond u128
| Call_register_as_candidate
| Call_leave_intent

fun validator_call_of :: "'o \<Rightarrow> 'ac validator_dispatch \<Rightarrow> ('ac, 'o) validator_call" where
  "validator_call_of o' (Call_set_invulnerables as) = SetInvulnerables o' as"
| "validator_call_of o' (Call_set_desired_candidates n) = SetDesiredCandidates o' n"
| "validator_call_of o' (Call_set_candidacy_bond v) = SetCandidacyBond o' v"
| "validator_call_of o' Call_register_as_candidate = RegisterAsCandidate o'"
| "validator_call_of o' Call_leave_intent = LeaveIntent o'"

text \<open>The runtime's \<^verbatim>\<open>Call\<close>; the pallets that are not part of the repository are one constructor.\<close>

datatype 'ac runtime_call =
  DapiCall "('ac, massbit_id) dapi_call"
| DapiStakingCall staking_dispatch
| ValidatorSetCall "'ac validator_dispatch"
| BlockRewardCall distribution_config
| OtherCall

section \<open>Shared pieces of the handlers\<close>

text \<open>\<^verbatim>\<open>OnUnbalanced::on_unbalanced\<close>: a zero imbalance is dropped, any other goes to the handler.\<close>

definition on_unbalanced :: "('ac, 'cs, 'o) frame \<Rightarrow> (u128 \<Rightarrow> 'cs \<Rightarrow> 'cs) \<Rightarrow> u128 \<Rightarrow> 'cs \<Rightarrow> 'cs" where
  "on_unbalanced F handler amount cs = (if amount = 0 then drop_imbalance F amount cs else handler amount cs)"

text \<open>The storage the staking pallet and the currency share, and the currency acting on its part.\<close>

type_synonym ('ac, 'cs) staking_world = "'cs \<times> ('ac, massbit_id) staking_state"

definition lift_currency :: "('cs \<Rightarrow> 'cs) \<Rightarrow> ('ac, 'cs) staking_world \<Rightarrow> ('ac, 'cs) staking_world" where
  "lift_currency f = (\<lambda>(cs, st). (f cs, st))"

definition lift_withdraw ::
    "('ac, 'cs, 'o) frame \<Rightarrow> 'ac \<Rightarrow> u128 \<Rightarrow> existence_requirement \<Rightarrow> ('ac, 'cs) staking_world \<Rightarrow>
     nat + (u128 \<times> ('ac, 'cs) staking_world)" where
  "lift_withdraw F a v e = (\<lambda>(cs, st).
     case withdraw F a v e cs of Inl err \<Rightarrow> Inl err | Inr (i, cs') \<Rightarrow> Inr (i, (cs', st)))"

definition lift_issue ::
    "('ac, 'cs, 'o) frame \<Rightarrow> u128 \<Rightarrow> ('ac, 'cs) staking_world \<Rightarrow> u128 \<times> ('ac, 'cs) staking_world" where
  "lift_issue F v = (\<lambda>(cs, st). let (i, cs') = issue F v cs in (i, (cs', st)))"

text \<open>A linear fee: \<^verbatim>\<open>WeightToFeeCoefficient\<close>.\<close>

record fee_coefficient =
  fc_degree :: u8
  fc_negative :: bool
  fc_frac :: perbill
  fc_integer :: u128

section \<open>The keiko runtime\<close>

definition keiko_MILLIKEI :: u128 where
  "keiko_MILLIKEI = 1000000000000000"

definition keiko_KEI :: u128 where
  "keiko_KEI = 1000 * keiko_MILLIKEI"

definition keiko_MILLISECS_PER_BLOCK :: u64 where
  "keiko_MILLISECS_PER_BLOCK = 12000"

definition keiko_MINUTES :: u32 where
  "keiko_MINUTES = 60000 div ucast keiko_MILLISECS_PER_BLOCK"

definition keiko_HOURS :: u32 where
  "keiko_HOURS = keiko_MINUTES * 60"

definition keiko_DAYS :: u32 where
  "keiko_DAYS = keiko_HOURS * 24"

definition keiko_BaseFilter_contains :: "'ac runtime_call \<Rightarrow> bool" where
  "keiko_BaseFilter_contains call = (case call of
     ValidatorSetCall Call_register_as_candidate \<Rightarrow> False
   | ValidatorSetCall Call_leave_intent \<Rightarrow> False
   | _ \<Rightarrow> True)"

definition keiko_WeightToFee_polynomial :: "('ac, 'cs, 'o) frame \<Rightarrow> 'ac platform \<Rightarrow> fee_coefficient list" where
  "keiko_WeightToFee_polynomial F P =
     (let p = keiko_MILLIKEI;
          q = 10 * ucast (ExtrinsicBaseWeight P)
      in [\<lparr>fc_degree = 1, fc_negative = False, fc_frac = perbill_from_rational F (p mod q) q,
           fc_integer = p div q\<rparr>])"

definition keiko_SessionPeriod :: u32 where
  "keiko_SessionPeriod = 1 * keiko_HOURS"

definition keiko_validator_config :: "('ac, 'cs, 'o) frame \<Rightarrow> 'ac platform \<Rightarrow> ('ac, 'o) validator_config" where
  "keiko_validator_config F P = \<lparr>
     UpdateOrigin = ensure_root F,
     MaxCandidates = 200,
     MinCandidates = 1,
     MaxInvulnerables = 20,
     KickThreshold = keiko_SessionPeriod,
     SlashRatio = perbill_from_percent F 1,
     ValidatorIdOf = IdentityValidator_convert,
     validator_pot = pallet_account P ''valdtset'',
     weight_note_author = validator_SubstrateWeight (DbWeight P) validator_w_note_author,
     weight_new_session = (\<lambda>r c. validator_SubstrateWeight (DbWeight P) (validator_w_new_session r c))\<rparr>"

definition keiko_ToValidatorPot_on_nonzero :: "('ac, 'cs, 'o) frame \<Rightarrow> 'ac platform \<Rightarrow> u128 \<Rightarrow> 'cs \<Rightarrow> 'cs" where
  "keiko_ToValidatorPot_on_nonzero F P amount cs =
     (let pot = pallet_account P ''valdtset'' in resolve_creating F pot amount cs)"

text \<open>The first imbalance is the fee, the second the tip; what else the iterator holds is dropped.\<close>

fun keiko_DealWithFees :: "('ac, 'cs, 'o) frame \<Rightarrow> 'ac platform \<Rightarrow> u128 list \<Rightarrow> 'cs \<Rightarrow> 'cs" where
  "keiko_DealWithFees F P [] cs = cs"
| "keiko_DealWithFees F P [fees] cs =
     on_unbalanced F (keiko_ToValidatorPot_on_nonzero F P) fees cs"
| "keiko_DealWithFees F P (fees # tips # rest) cs =
     foldl (\<lambda>cs i. drop_imbalance F i cs)
       (on_unbalanced F (keiko_ToValidatorPot_on_nonzero F P) (imbalance_merge F fees tips) cs) rest"

definition keiko_staking_config :: "('ac, 'cs, 'o) frame \<Rightarrow> 'ac platform \<Rightarrow> 'ac staking_config" where
  "keiko_staking_config F P = \<lparr>
     DefaultBlocksPerEra = 7200,
     ProviderRewardsPercentage = perbill_from_percent F 100,
     MinProviderStake = 100 * keiko_KEI,
     MaxDelegatorsPerProvider = 10,
     MinDelegatorStake = 10 * keiko_KEI,
     MaxEraStakeValues = 5,
     UnbondingPeriod = 2,
     MaxUnlockingChunks = 2,
     pot = pallet_account P ''dapistak''\<rparr>"

definition keiko_payout_validators ::
    "('ac, 'cs, 'o) frame \<Rightarrow> 'ac platform \<Rightarrow> u128 \<Rightarrow> ('ac, 'cs) staking_world \<Rightarrow> ('ac, 'cs) staking_world" where
  "keiko_payout_validators F P reward =
     lift_currency (on_unbalanced F (keiko_ToValidatorPot_on_nonzero F P) reward)"

definition keiko_payout_providers ::
    "('ac, 'cs, 'o) frame \<Rightarrow> 'ac platform \<Rightarrow> u128 \<Rightarrow> ('ac, 'cs) staking_world \<Rightarrow> ('ac, 'cs) staking_world" where
  "keiko_payout_providers F P reward = handle_imbalance F (keiko_staking_config F P) reward"

definition keiko_reward_config ::
    "('ac, 'cs, 'o) frame \<Rightarrow> 'ac platform \<Rightarrow> ('ac, 'cs) staking_world reward_pallet_config" where
  "keiko_reward_config F P = \<lparr>
     RewardAmount = 1000 * keiko_MILLIKEI,
     currency_issue = lift_issue F,
     payout_validators = keiko_payout_validators F P,
     payout_providers = keiko_payout_providers F P\<rparr>"

definition keiko_OnProjectPayment ::
    "('ac, 'cs, 'o) frame \<Rightarrow> 'ac platform \<Rightarrow> u128 \<Rightarrow> ('ac, 'cs) staking_world \<Rightarrow> ('ac, 'cs) staking_world" where
  "keiko_OnProjectPayment F P amount w =
     (if amount = 0 then lift_currency (drop_imbalance F amount) w
      else handle_imbalance F (keiko_staking_config F P) amount w)"

definition keiko_dapi_config ::
    "('ac, 'cs, 'o) frame \<Rightarrow> 'ac platform \<Rightarrow> ('ac, massbit_id, ('ac, 'cs) staking_world, staking_error) dapi_config" where
  "keiko_dapi_config F P = \<lparr>
     MaxChainIdLength = 64,
     ds_register = register_provider F (keiko_staking_config F P),
     ds_unregister = unregister_provider,
     currency_withdraw = lift_withdraw F,
     on_project_payment = keiko_OnProjectPayment F P\<rparr>"

section \<open>The local runtime\<close>

definition local_MILLIMBTL :: u128 where
  "local_MILLIMBTL = 1000000000000000"

definition local_MBTL :: u128 where
  "local_MBTL = 1000 * local_MILLIMBTL"

definition local_MILLISECS_PER_BLOCK :: u64 where
  "local_MILLISECS_PER_BLOCK = 12000"

definition local_MINUTES :: u32 where
  "local_MINUTES = 60000 div ucast local_MILLISECS_PER_BLOCK"

definition local_HOURS :: u32 where
  "local_HOURS = local_MINUTES * 60"

definition local_DAYS :: u32 where
  "local_DAYS = local_HOURS * 24"

definition local_BaseFilter_contains :: "'ac runtime_call \<Rightarrow> bool" where
  "local_BaseFilter_contains call = (case call of
     ValidatorSetCall Call_leave_intent \<Rightarrow> False
   | _ \<Rightarrow> True)"

definition local_WeightToFee_polynomial :: "('ac, 'cs, 'o) frame \<Rightarrow> 'ac platform \<Rightarrow> fee_coefficient list" where
  "local_WeightToFee_polynomial F P =
     (let p = local_MILLIMBTL;
          q = 10 * ucast (ExtrinsicBaseWeight P)
      in [\<lparr>fc_degree = 1, fc_negative = False, fc_frac = perbill_from_rational F (p mod q) q,
           fc_integer = p div q\<rparr>])"

definition local_SessionPeriod :: u32 where
  "local_SessionPeriod = 2 * local_MINUTES"

definition local_validator_config :: "('ac, 'cs, 'o) frame \<Rightarrow> 'ac platform \<Rightarrow> ('ac, 'o) validator_config" where
  "local_validator_config F P = \<lparr>
     UpdateOrigin = ensure_root F,
     MaxCandidates = 200,
     MinCandidates = 1,
     MaxInvulnerables = 20,
     KickThreshold = local_SessionPeriod,
     SlashRatio = perbill_from_percent F 1,
     ValidatorIdOf = IdentityValidator_convert,
     validator_pot = pallet_account P ''valdtset'',
     weight_note_author = validator_SubstrateWeight (DbWeight P) validator_w_note_author,
     weight_new_session = (\<lambda>r c. validator_SubstrateWeight (DbWeight P) (validator_w_new_session r c))\<rparr>"

definition local_ToValidatorPot_on_nonzero :: "('ac, 'cs, 'o) frame \<Rightarrow> 'ac platform \<Rightarrow> u128 \<Rightarrow> 'cs \<Rightarrow> 'cs" where
  "local_ToValidatorPot_on_nonzero F P amount cs =
     (let pot = pallet_account P ''valdtset'' in resolve_creating F pot amount cs)"

text \<open>The first imbalance is the fee, the second the tip; what else the iterator holds is dropped.\<close>

fun local_DealWithFees :: "('ac, 'cs, 'o) frame \<Rightarrow> 'ac platform \<Rightarrow> u128 list \<Rightarrow> 'cs \<Rightarrow> 'cs" where
  "local_DealWithFees F P [] cs = cs"
| "local_DealWithFees F P [fees] cs =
     on_unbalanced F (local_ToValidatorPot_on_nonzero F P) fees cs"
| "local_DealWithFees F P (fees # tips # rest) cs =
     foldl (\<lambda>cs i. drop_imbalance F i cs)
       (on_unbalanced F (local_ToValidatorPot_on_nonzero F P) (imbalance_merge F fees tips) cs) rest"

definition local_staking_config :: "('ac, 'cs, 'o) frame \<Rightarrow> 'ac platform \<Rightarrow> 'ac staking_config" where
  "local_staking_config F P = \<lparr>
     DefaultBlocksPerEra = 7200,
     ProviderRewardsPercentage = perbill_from_percent F 80,
     MinProviderStake = 90 * local_MBTL,
     MaxDelegatorsPerProvider = 10,
     MinDelegatorStake = 10 * local_MBTL,
     MaxEraStakeValues = 5,
     UnbondingPeriod = 2,
     MaxUnlockingChunks = 2,
     pot = pallet_account P ''dapistak''\<rparr>"

definition local_payout_validators ::
    "('ac, 'cs, 'o) frame \<Rightarrow> 'ac platform \<Rightarrow> u128 \<Rightarrow> ('ac, 'cs) staking_world \<Rightarrow> ('ac, 'cs) staking_world" where
  "local_payout_validators F P reward =
     lift_currency (on_unbalanced F (local_ToValidatorPot_on_nonzero F P) reward)"

definition local_payout_providers ::
    "('ac, 'cs, 'o) frame \<Rightarrow> 'ac platform \<Rightarrow> u128 \<Rightarrow> ('ac, 'cs) staking_world \<Rightarrow> ('ac, 'cs) staking_world" where
  "local_payout_providers F P reward = handle_imbalance F (local_staking_config F P) reward"

definition local_reward_config ::
    "('ac, 'cs, 'o) frame \<Rightarrow> 'ac platform \<Rightarrow> ('ac, 'cs) staking_world reward_pallet_config" where
  "local_reward_config F P = \<lparr>
     RewardAmount = 1000 * local_MILLIMBTL,
     currency_issue = lift_issue F,
     payout_validators = local_payout_validators F P,
     payout_providers = local_payout_providers F P\<rparr>"

definition local_OnProjectPayment ::
    "('ac, 'cs, 'o) frame \<Rightarrow> 'ac platform \<Rightarrow> u128 \<Rightarrow> ('ac, 'cs) staking_world \<Rightarrow> ('ac, 'cs) staking_world" where
  "local_OnProjectPayment F P amount w =
     (if amount = 0 then lift_currency (drop_imbalance F amount) w
      else handle_imbalance F (local_staking_config F P) amount w)"

definition local_dapi_config ::
    "('ac, 'cs, 'o) frame \<Rightarrow> 'ac platform \<Rightarrow> ('ac, massbit_id, ('ac, 'cs) staking_world, staking_error) dapi_config" where
  "local_dapi_config F P = \<lparr>
     MaxChainIdLength = 64,
     ds_register = register_provider F (local_staking_config F P),
     ds_unregister = unregister_provider,
     currency_withdraw = lift_withdraw F,
     on_project_payment = local_OnProjectPayment F P\<rparr>"

end
