(* ===== verification/Runtime.thy ===== *)
theory Runtime
  imports Runtime_Config
begin

text \<open>
  The composed runtimes: the storage of all pallets over one currency, the dispatch of a call, the
  hooks of a block, and the chain as a state machine. The pallets that are not part of the
  repository act on the currency through one kind of step, under the contract every pallet with
  reserves keeps.
\<close>

section \<open>Composition\<close>

text \<open>\<^verbatim>\<open>construct_runtime!\<close>: what the runtime puts behind the associated types of the pallets, the
  call filter and the handler of fees.\<close>

record ('ac, 'cs, 'o) runtime =
  rt_filter :: "'ac runtime_call \<Rightarrow> bool"
  rt_staking :: "'ac staking_config"
  rt_dapi :: "('ac, massbit_id, ('ac, 'cs) staking_world, staking_error) dapi_config"
  rt_validators :: "('ac, 'o) validator_config"
  rt_reward :: "('ac, 'cs) staking_world reward_pallet_config"
  rt_fees :: "u128 list \<Rightarrow> 'cs \<Rightarrow> 'cs"

definition keiko_runtime :: "('ac, 'cs, 'o) frame \<Rightarrow> 'ac platform \<Rightarrow> ('ac, 'cs, 'o) runtime" where
  "keiko_runtime F P = \<lparr>
     rt_filter = keiko_BaseFilter_contains,
     rt_staking = keiko_staking_config F P,
     rt_dapi = keiko_dapi_config F P,
     rt_validators = keiko_validator_config F P,
     rt_reward = keiko_reward_config F P,
     rt_fees = keiko_DealWithFees F P\<rparr>"

definition local_runtime :: "('ac, 'cs, 'o) frame \<Rightarrow> 'ac platform \<Rightarrow> ('ac, 'cs, 'o) runtime" where
  "local_runtime F P = \<lparr>
     rt_filter = local_BaseFilter_contains,
     rt_staking = local_staking_config F P,
     rt_dapi = local_dapi_config F P,
     rt_validators = local_validator_config F P,
     rt_reward = local_reward_config F P,
     rt_fees = local_DealWithFees F P\<rparr>"

text \<open>The storage; \<open>rs_env\<close> is the block number of the system pallet and the keys of the session
  pallet, \<open>rs_others\<close> what the pallets outside the repository (the deposits of identities) say they
  keep in the reserve of an account.\<close>

record ('ac, 'cs) runtime_state =
  rs_env :: "'ac validator_env"
  rs_currency :: 'cs
  rs_staking :: "('ac, massbit_id) staking_state"
  rs_dapi :: "('ac, massbit_id) dapi_state"
  rs_validators :: "'ac validator_state"
  rs_reward :: reward_state
  rs_others :: "'ac \<Rightarrow> nat"

text \<open>Why a call was not executed or failed.\<close>

datatype runtime_error =
  CallFiltered
| InvalidTransaction invalid_transaction
| StakingFailed "staking_error dispatch_error"
| DapiFailed "(staking_error + dapi_error) dispatch_error"
| ValidatorsFailed "validator_error dispatch_error"
| RewardFailed "reward_error dispatch_error"

definition in_staking ::
    "(('ac, 'cs) staking_world \<Rightarrow> (staking_error, ('ac, 'cs) staking_world) dispatch) \<Rightarrow>
     ('ac, 'cs) runtime_state \<Rightarrow> runtime_error + ('ac, 'cs) runtime_state" where
  "in_staking f s = (case f (rs_currency s, rs_staking s) of
     Inl err \<Rightarrow> Inl (StakingFailed err)
   | Inr (cs, st) \<Rightarrow> Inr (s\<lparr>rs_currency := cs, rs_staking := st\<rparr>))"

definition in_dapi ::
    "(('ac, 'cs) staking_world \<times> ('ac, massbit_id) dapi_state \<Rightarrow>
       (staking_error + dapi_error, ('ac, 'cs) staking_world \<times> ('ac, massbit_id) dapi_state) dispatch) \<Rightarrow>
     ('ac, 'cs) runtime_state \<Rightarrow> runtime_error + ('ac, 'cs) runtime_state" where
  "in_dapi f s = (case f ((rs_currency s, rs_staking s), rs_dapi s) of
     Inl err \<Rightarrow> Inl (DapiFailed err)
   | Inr ((cs, st), d) \<Rightarrow> Inr (s\<lparr>rs_currency := cs, rs_staking := st, rs_dapi := d\<rparr>))"

definition in_validators ::
    "('cs \<times> 'ac validator_state \<Rightarrow> ('ac, 'cs) validator_result) \<Rightarrow>
     ('ac, 'cs) runtime_state \<Rightarrow> runtime_error + ('ac, 'cs) runtime_state" where
  "in_validators f s = (case f (rs_currency s, rs_validators s) of
     Inl err \<Rightarrow> Inl (ValidatorsFailed err)
   | Inr (cs, v) \<Rightarrow> Inr (s\<lparr>rs_currency := cs, rs_validators := v\<rparr>))"

definition in_reward ::
    "(('ac, 'cs) staking_world \<times> reward_state \<Rightarrow> (reward_error, ('ac, 'cs) staking_world \<times> reward_state) dispatch) \<Rightarrow>
     ('ac, 'cs) runtime_state \<Rightarrow> runtime_error + ('ac, 'cs) runtime_state" where
  "in_reward f s = (case f ((rs_currency s, rs_staking s), rs_reward s) of
     Inl err \<Rightarrow> Inl (RewardFailed err)
   | Inr ((cs, st), r) \<Rightarrow> Inr (s\<lparr>rs_currency := cs, rs_staking := st, rs_reward := r\<rparr>))"

text \<open>The dispatch of a call to its pallet. What a call of another pallet does is the step \<open>Foreign\<close>
  below.\<close>

definition runtime_dispatch ::
    "('ac, 'cs, 'o) frame \<Rightarrow> ('ac, 'cs, 'o) runtime \<Rightarrow> 'o \<Rightarrow> 'ac runtime_call \<Rightarrow>
     ('ac, 'cs) runtime_state \<Rightarrow> runtime_error + ('ac, 'cs) runtime_state" where
  "runtime_dispatch F R o' call s = (case call of
     DapiCall c \<Rightarrow> in_dapi (dapi_exec F (rt_dapi R) (o', c)) s
   | DapiStakingCall c \<Rightarrow> in_staking (staking_exec F (rt_staking R) (staking_call_of o' c)) s
   | ValidatorSetCall c \<Rightarrow>
       in_validators (validator_exec F (rt_validators R) (rs_env s, validator_call_of o' c)) s
   | BlockRewardCall c \<Rightarrow> in_reward (set_config F o' c) s
   | OtherCall \<Rightarrow> Inr s)"

text \<open>The call the signed extension sees.\<close>

definition is_sub_type :: "'ac runtime_call \<Rightarrow> ('ac, massbit_id) dapi_call option" where
  "is_sub_type call = (case call of DapiCall c \<Rightarrow> Some c | _ \<Rightarrow> None)"

text \<open>A signed transaction, from the extension of the repository on: the extension, then the filter, then
  the call. \<^verbatim>\<open>PreValidateRegulatorCalls\<close> is the last of the eight extensions of \<^verbatim>\<open>SignedExtra\<close>.\<close>

definition apply_extrinsic ::
    "('ac, 'cs, 'o) frame \<Rightarrow> ('ac, 'cs, 'o) runtime \<Rightarrow> 'o \<Rightarrow> 'ac \<Rightarrow> 'ac runtime_call \<Rightarrow>
     ('ac, 'cs) runtime_state \<Rightarrow> runtime_error + ('ac, 'cs) runtime_state" where
  "apply_extrinsic F R o' who call s =
     (case PreValidate_pre_dispatch (rs_dapi s) who (is_sub_type call) of
        Inl err \<Rightarrow> Inl (InvalidTransaction err)
      | Inr _ \<Rightarrow> if rt_filter R call then runtime_dispatch F R o' call s else Inl CallFiltered)"

text \<open>The seven extensions before it are the framework's (version, genesis, mortality, nonce, weight, and
  the payment of the fee). \<open>pre\<close> stands for them: given the signer, the call and the state it refuses the
  transaction, or admits it with the balances that are left when the fee is paid; they change nothing else
  of the state.\<close>

definition apply_signed ::
    "('ac \<Rightarrow> 'ac runtime_call \<Rightarrow> ('ac, 'cs) runtime_state \<Rightarrow> 'refusal + 'cs) \<Rightarrow>
     ('ac, 'cs, 'o) frame \<Rightarrow> ('ac, 'cs, 'o) runtime \<Rightarrow> 'o \<Rightarrow> 'ac \<Rightarrow> 'ac runtime_call \<Rightarrow>
     ('ac, 'cs) runtime_state \<Rightarrow> ('refusal + runtime_error) + ('ac, 'cs) runtime_state" where
  "apply_signed pre F R o' who call s =
     (case pre who call s of
        Inl refusal \<Rightarrow> Inl (Inl refusal)
      | Inr cs \<Rightarrow>
          (case apply_extrinsic F R o' who call (s\<lparr>rs_currency := cs\<rparr>) of
             Inl err \<Rightarrow> Inl (Inr err)
           | Inr s' \<Rightarrow> Inr s'))"

section \<open>Steps\<close>

text \<open>
  \<^item> \<open>Transaction o' a c\<close>: \<open>a\<close> signed the call \<open>c\<close> and the framework's extensions admitted it (what they
    took from its balance is a step \<open>Foreign\<close> before it); \<open>Inner o' c\<close>: a call another pallet dispatches for an
    origin through the filter (a batch); \<open>Unfiltered o' c\<close>: one dispatched around the filter (sudo).
  \<^item> \<open>BlockInit\<close>: the next block begins; \<open>TimestampSet\<close>, \<open>Authored a\<close>, \<open>SessionEnd\<close>: the hooks of the
    timestamp, authorship and session pallets; \<open>FeesCharged is\<close>: fee and tip of a transaction go to
    their destination.
  \<^item> \<open>Foreign cs keys held\<close>: another pallet changed the balances, the session keys or its deposits.
\<close>

datatype ('ac, 'cs, 'o) runtime_step =
  Transaction 'o 'ac "'ac runtime_call"
| Inner 'o "'ac runtime_call"
| Unfiltered 'o "'ac runtime_call"
| BlockInit
| TimestampSet
| Authored 'ac
| SessionEnd
| FeesCharged "u128 list"
| Foreign 'cs "'ac \<Rightarrow> bool" "'ac \<Rightarrow> nat"

fun runtime_exec ::
    "('ac, 'cs, 'o) frame \<Rightarrow> ('ac, 'cs, 'o) runtime \<Rightarrow> ('ac, 'cs, 'o) runtime_step \<Rightarrow>
     ('ac, 'cs) runtime_state \<Rightarrow> runtime_error + ('ac, 'cs) runtime_state" where
  "runtime_exec F R (Transaction o' a c) s = apply_extrinsic F R o' a c s"
| "runtime_exec F R (Inner o' c) s =
     (if rt_filter R c then runtime_dispatch F R o' c s else Inl CallFiltered)"
| "runtime_exec F R (Unfiltered o' c) s = runtime_dispatch F R o' c s"
| "runtime_exec F R BlockInit s =
     (let n = env_block (rs_env s) + 1
      in in_staking (staking_exec F (rt_staking R) (OnInitialize n))
           (s\<lparr>rs_env := (rs_env s)\<lparr>env_block := n\<rparr>\<rparr>))"
| "runtime_exec F R TimestampSet s = in_reward (\<lambda>w. Inr (on_timestamp_set F (rt_reward R) w)) s"
| "runtime_exec F R (Authored a) s =
     in_validators (validator_exec F (rt_validators R) (rs_env s, NoteAuthor a)) s"
| "runtime_exec F R SessionEnd s =
     in_validators (validator_exec F (rt_validators R) (rs_env s, NewSession)) s"
| "runtime_exec F R (FeesCharged is) s = Inr (s\<lparr>rs_currency := rt_fees R is (rs_currency s)\<rparr>)"
| "runtime_exec F R (Foreign cs keys held) s =
     Inr (s\<lparr>rs_currency := cs, rs_env := (rs_env s)\<lparr>env_registered := keys\<rparr>, rs_others := held\<rparr>)"

text \<open>A step that fails leaves the storage as it was. \<open>ok\<close> says which steps a theorem admits in which
  state.\<close>

inductive runtime_run ::
    "('ac, 'cs, 'o) frame \<Rightarrow> ('ac, 'cs, 'o) runtime \<Rightarrow>
     (('ac, 'cs) runtime_state \<Rightarrow> ('ac, 'cs, 'o) runtime_step \<Rightarrow> bool) \<Rightarrow>
     ('ac, 'cs) runtime_state \<Rightarrow> ('ac, 'cs) runtime_state \<Rightarrow> bool"
  for F R ok where
  chain_start: "runtime_run F R ok s s"
| chain_step: "runtime_run F R ok s t \<Longrightarrow> ok t e \<Longrightarrow> runtime_exec F R e t = Inr u \<Longrightarrow> runtime_run F R ok s u"

lemma runtime_run_invariant:
  assumes "runtime_run F R ok s t" and "P s"
    and "\<And>t e u. P t \<Longrightarrow> ok t e \<Longrightarrow> runtime_exec F R e t = Inr u \<Longrightarrow> P u"
  shows "P t"
  using assms by induction auto

end
