(* ===== verification/Runtime_Inv.thy ===== *)
theory Runtime_Inv
  imports Runtime
begin

text \<open>
  What the pallets of a runtime keep together. The locale \<open>wired_runtime\<close> says how the configuration
  of a runtime connects them; both runtimes interpret it. From it follow the contract the dapi
  pallet expects of the staking pallet and the one the block rewards expect of their beneficiaries,
  both as sublocales, and the invariants of whole chains.
\<close>

section \<open>What the staking pallet may do within one step\<close>

text \<open>A step of the runtime reaches the staking pallet and the currency through a few calls: entry
  points of the pallet, and operations of the currency that leave the reserves alone.\<close>

inductive staking_moves ::
    "('ac, 'cs, 'o) frame \<Rightarrow> 'ac staking_config \<Rightarrow> (('ac, massbit_id, 'o) staking_call \<Rightarrow> bool) \<Rightarrow>
     ('ac, 'cs) staking_world \<Rightarrow> ('ac, 'cs) staking_world \<Rightarrow> bool"
  for F cfg allowed where
  moves_refl: "staking_moves F cfg allowed w w"
| moves_currency: "staking_moves F cfg allowed w (cs, st) \<Longrightarrow>
    (\<And>a. reserved_balance F cs' a = reserved_balance F cs a) \<Longrightarrow> staking_moves F cfg allowed w (cs', st)"
| moves_exec: "staking_moves F cfg allowed w t \<Longrightarrow> allowed c \<Longrightarrow> staking_exec F cfg c t = Inr u \<Longrightarrow>
    staking_moves F cfg allowed w u"

lemma staking_moves_mono:
  assumes "staking_moves F cfg allowed w w'" and "\<And>c. allowed c \<Longrightarrow> allowed' c"
  shows "staking_moves F cfg allowed' w w'"
  using assms by induction (auto intro: staking_moves.intros)

lemma staking_moves_inv:
  assumes "staking_moves F cfg allowed w w'" and "staking_inv (snd w)"
  shows "staking_inv (snd w')"
  using assms by induction (auto dest: staking_exec_inv)

lemma staking_moves_cover:
  assumes "staking_moves F cfg (staking_call_ok cfg) w w'" and "currency_ok F" and "staking_inv (snd w)"
    and "\<And>a. owed (snd w) a + others a \<le> unat (reserved_balance F (fst w) a)"
  shows "owed (snd w') a + others a \<le> unat (reserved_balance F (fst w') a)"
  using assms
proof (induction arbitrary: a)
  case (moves_exec w t c u)
  have "staking_inv (snd t)" using moves_exec.hyps(1) moves_exec.prems(2) by (rule staking_moves_inv)
  then show ?case
    using staking_holder.cover_kept [of F "snd t" cfg c "fst t" "fst u" "snd u" others a]
      moves_exec by simp
qed auto

text \<open>Who registered a provider, and whether it is active, as the staking pallet sees it.\<close>

definition staking_status :: "('ac, 'cs) staking_world \<Rightarrow> massbit_id \<Rightarrow> ('ac \<times> bool) option" where
  "staking_status = (\<lambda>(cs, st) p.
     map_option (\<lambda>i. (pm_owner i, pm_status i = Active)) (sget (provider_info st) p))"

definition status_neutral :: "('ac, 'pid, 'o) staking_call \<Rightarrow> bool" where
  "status_neutral c = (case c of RegisterProvider _ _ _ \<Rightarrow> False | UnregisterProvider _ \<Rightarrow> False | _ \<Rightarrow> True)"

lemma on_initialize_provider_info:
  "provider_info (snd (staking_on_initialize F cfg n st)) = provider_info st"
  by (auto simp: staking_on_initialize_def Let_def rotate_provider_era_info_def snapshot_era_rewards_def
      split: prod.splits)

lemma handle_imbalance_provider_info:
  "provider_info (snd (handle_imbalance F cfg i w)) = provider_info (snd w)"
  by (cases w) (simp add: handle_imbalance_def)

lemma staking_exec_status:
  assumes "staking_exec F cfg c (cs, st) = Inr (cs', st')" and "status_neutral c"
  shows "staking_status (cs', st') = staking_status (cs, st)"
proof (cases "\<exists>o' p. c = ProviderWithdrawUnregistered o' p")
  case True
  then show ?thesis
    using assms(1)
    by (auto simp: provider_withdraw_unregistered_def staking_status_def fun_eq_iff Let_def
        split: option.splits if_splits provider_status.splits prod.splits)
next
  case False
  have "provider_info st' = provider_info st"
    using assms False
    by (cases c) (auto elim!: staking_elims simp: status_neutral_def on_initialize_provider_info
        handle_imbalance_def split: if_splits)
  then show ?thesis by (simp add: staking_status_def)
qed


lemma staking_moves_status:
  assumes "staking_moves F cfg status_neutral w w'"
  shows "staking_status w' = staking_status w"
  using assms
proof induction
  case (moves_exec w t c u)
  then show ?case using staking_exec_status [of F cfg c "fst t" "snd t" "fst u" "snd u"] by simp
qed (auto simp: staking_status_def)

lemma moves_handler:
  assumes "staking_moves F cfg allowed w t" and "\<And>v. allowed (HandleImbalance v)"
  shows "staking_moves F cfg allowed w (handle_imbalance F cfg v t)"
  by (rule moves_exec [OF assms(1), where c = "HandleImbalance v"]) (simp_all add: assms(2))

lemma moves_currency_only:
  assumes "staking_moves F cfg allowed w t" and "snd u = snd t"
    and "\<And>a. reserved_balance F (fst u) a = reserved_balance F (fst t) a"
  shows "staking_moves F cfg allowed w u"
  using moves_currency [of F cfg allowed w "fst t" "snd t" "fst u"] assms
  by (metis prod.collapse)

lemma snd_lifts [simp]:
  "snd (lift_currency f w) = snd w" "snd (snd (lift_issue F v w)) = snd w"
  by (cases w; simp add: lift_currency_def lift_issue_def split: prod.splits)+

text \<open>What the dapi pallet makes the staking pallet do.\<close>

definition dapi_may :: "('ac, massbit_id, 'o) staking_call \<Rightarrow> bool" where
  "dapi_may c = (case c of RegisterProvider _ _ _ \<Rightarrow> True | UnregisterProvider _ \<Rightarrow> True
     | HandleImbalance _ \<Rightarrow> True | _ \<Rightarrow> False)"

section \<open>How a runtime connects the pallets\<close>

text \<open>
  \<open>vpot\<close> is the account of the validator pallet. Registration goes to the staking pallet, payments of
  projects and the providers' part of the block reward to its imbalance handler, the validators'
  part and the fees to the pot; the bounds are those the theorems on single pallets ask for.
\<close>

locale wired_runtime =
  fixes F :: "('ac, 'cs, 'o) frame" and R :: "('ac, 'cs, 'o) runtime" and vpot :: 'ac
  assumes register_wired: "ds_register (rt_dapi R) = register_provider F (rt_staking R)"
    and unregister_wired: "ds_unregister (rt_dapi R) = unregister_provider"
    and withdraw_wired: "currency_withdraw (rt_dapi R) = lift_withdraw F"
    and payment_wired: "on_project_payment (rt_dapi R) i w =
      (if i = 0 then lift_currency (drop_imbalance F i) w else handle_imbalance F (rt_staking R) i w)"
    and issue_wired: "currency_issue (rt_reward R) = lift_issue F"
    and validators_wired: "payout_validators (rt_reward R) v =
      lift_currency (on_unbalanced F (resolve_creating F vpot) v)"
    and providers_wired: "payout_providers (rt_reward R) v = handle_imbalance F (rt_staking R) v"
    and fees_keep: "currency_ok F \<Longrightarrow> reserved_balance F (rt_fees R is cs) a = reserved_balance F cs a"
    and stake_positive: "MinDelegatorStake (rt_staking R) \<noteq> 0"
    and slash_fraction: "perbill_ok F \<Longrightarrow> SlashRatio (rt_validators R) \<le> perbill_one F"
begin

lemma lift_keeps:
  assumes "currency_ok F"
  shows "reserved_balance F (fst (lift_currency (drop_imbalance F i) w)) a = reserved_balance F (fst w) a"
    and "reserved_balance F (fst (lift_currency (on_unbalanced F (resolve_creating F vpot) i) w)) a =
      reserved_balance F (fst w) a"
    and "reserved_balance F (fst (snd (lift_issue F i w))) a = reserved_balance F (fst w) a"
  using assms
  by (cases w; simp add: lift_currency_def on_unbalanced_def lift_issue_def split: prod.splits;
      metis issue_balances(1) snd_conv)+

lemma payment_moves:
  assumes cur: "currency_ok F" and "\<And>v. allowed (HandleImbalance v)"
    and wd: "currency_withdraw (rt_dapi R) a v e w = Inr (i, w1)"
  shows "staking_moves F (rt_staking R) allowed w (on_project_payment (rt_dapi R) i w1)"
proof -
  have w1: "snd w1 = snd w" "\<And>b. reserved_balance F (fst w1) b = reserved_balance F (fst w) b"
    using wd by (cases w; auto simp: withdraw_wired lift_withdraw_def dest: withdrawD(3) [OF cur]
        split: sum.splits)+
  then have m: "staking_moves F (rt_staking R) allowed w w1" by (rule moves_currency_only [OF moves_refl])
  show ?thesis
  proof (cases "i = 0")
    case True
    then show ?thesis
      using moves_currency_only [OF m, of "lift_currency (drop_imbalance F i) w1"] lift_keeps(1) [OF cur]
      by (simp add: payment_wired)
  next
    case False
    then show ?thesis
      using moves_handler [OF m assms(2)] by (simp add: payment_wired)
  qed
qed

lemma dapi_moves:
  assumes "currency_ok F" and "dapi_exec F (rt_dapi R) (o', c) (w, d) = Inr (w', d')"
  shows "staking_moves F (rt_staking R) dapi_may w w'"
proof -
  have pay: "staking_moves F (rt_staking R) dapi_may w (on_project_payment (rt_dapi R) i w1)"
    if "currency_withdraw (rt_dapi R) a v e w = Inr (i, w1)" for a v e i w1
    by (rule payment_moves [OF assms(1) _ that]) (simp add: dapi_may_def)
  have reg: "staking_moves F (rt_staking R) dapi_may w w'"
    if "ds_register (rt_dapi R) a p v w = Inr w'" for a p v
    by (rule moves_exec [OF moves_refl, of _ "RegisterProvider a p v"])
      (use that in \<open>simp_all add: dapi_may_def register_wired\<close>)
  have unreg: "staking_moves F (rt_staking R) dapi_may w w'"
    if "ds_unregister (rt_dapi R) p w = Inr w'" for p
    by (rule moves_exec [OF moves_refl, of _ "UnregisterProvider p"])
      (use that in \<open>simp_all add: dapi_may_def unregister_wired\<close>)
  show ?thesis
    using assms(2) by (cases c)
      (auto elim!: dapi_elims dest!: root_call_elims intro: moves_refl reg unreg pay)
qed

lemma reward_moves:
  assumes cur: "currency_ok F" and "\<And>v. allowed (HandleImbalance v)"
    and "on_timestamp_set F (rt_reward R) (w, r) = (w', r')"
  shows "staking_moves F (rt_staking R) allowed w w'" and "r' = r"
proof -
  obtain i w1 where i: "lift_issue F (RewardAmount (rt_reward R)) w = (i, w1)"
    by (cases "lift_issue F (RewardAmount (rt_reward R)) w")
  obtain x y where xy: "imbalance_split F i (perbill_mul F (providers_percent (reward_config r)) i) = (x, y)"
    by (cases "imbalance_split F i (perbill_mul F (providers_percent (reward_config r)) i)")
  define w2 where "w2 = lift_currency (on_unbalanced F (resolve_creating F vpot) y) w1"
  have "staking_moves F (rt_staking R) allowed w w1"
    using lift_keeps(3) [OF cur, of "RewardAmount (rt_reward R)" w] snd_lifts(2) [of F "RewardAmount (rt_reward R)" w] i
    by (intro moves_currency_only [OF moves_refl]) simp_all
  then have m: "staking_moves F (rt_staking R) allowed w w2"
    by (rule moves_currency_only) (simp_all add: w2_def lift_keeps [OF cur])
  have w': "w' = handle_imbalance F (rt_staking R) x w2" and "r' = r"
    using assms(3) i xy
    by (auto simp: on_timestamp_set_def distribute_rewards_def issue_wired validators_wired providers_wired w2_def)
  from w' show "staking_moves F (rt_staking R) allowed w w'" using moves_handler [OF m assms(2)] by simp
  show "r' = r" by fact
qed

end

text \<open>The contract the dapi pallet expects of the staking pallet.\<close>

sublocale wired_runtime \<subseteq> registry: provider_registry "rt_dapi R" staking_status
proof (unfold_locales, goal_cases)
  case (1 a p v w w')
  then show ?case
    by (cases w; cases w')
      (auto simp: register_wired staking_status_def fun_eq_iff ProviderMetadata_new_def elim!: register_provider_elim)
next
  case (2 p w w')
  then show ?case
    by (cases w; cases w')
      (auto simp: unregister_wired staking_status_def fun_eq_iff elim!: unregister_provider_elim)
next
  case (3 w p a)
  then show ?case
    by (cases w) (auto simp: unregister_wired unregister_provider_def staking_status_def Let_def)
next
  case (4 a v e w i w')
  then show ?case
    by (cases w) (auto simp: withdraw_wired lift_withdraw_def staking_status_def split: sum.splits)
next
  case (5 i w)
  then show ?case
    using handle_imbalance_provider_info [of F "rt_staking R" i w]
    by (auto simp: payment_wired staking_status_def fun_eq_iff split_def)
qed

text \<open>
  The contracts the block reward expects of its beneficiaries, once for the money in the two pots and
  once for the provider rewards that the staking pallet has on its books. Both pots exist and are
  different accounts.
\<close>

definition vpot_ready :: "('ac, 'cs, 'o) frame \<Rightarrow> 'ac \<Rightarrow> 'ac \<Rightarrow> ('ac, 'cs) staking_world \<Rightarrow> bool" where
  "vpot_ready F vpot spot = (\<lambda>(cs, st). currency_ok F \<and> vpot \<noteq> spot \<and>
     minimum_balance F \<le> free_balance F cs vpot)"

definition pots_ready :: "('ac, 'cs, 'o) frame \<Rightarrow> 'ac \<Rightarrow> 'ac \<Rightarrow> ('ac, 'cs) staking_world \<Rightarrow> bool" where
  "pots_ready F vpot spot w \<longleftrightarrow> vpot_ready F vpot spot w \<and> minimum_balance F \<le> free_balance F (fst w) spot"

definition pot_has :: "('ac, 'cs, 'o) frame \<Rightarrow> 'ac \<Rightarrow> ('ac, 'cs) staking_world \<Rightarrow> nat" where
  "pot_has F a = (\<lambda>(cs, st). unat (free_balance F cs a))"

definition accumulated :: "('ac, 'cs) staking_world \<Rightarrow> nat" where
  "accumulated = (\<lambda>(cs, st). unat (reward_accumulator st))"

lemma resolve_exact:
  assumes "currency_ok F" and "minimum_balance F \<le> free_balance F cs a"
    and "unat (free_balance F cs a) + unat v < 2 ^ 128"
  shows "unat (free_balance F (resolve_creating F a v cs) b) =
    unat (free_balance F cs b) + (if b = a then unat v else 0)"
    and "minimum_balance F \<le> free_balance F (resolve_creating F a v cs) a"
proof -
  have *: "unat (free_balance F (resolve_creating F a v cs) a) = unat (free_balance F cs a) + unat v"
    and "b \<noteq> a \<Longrightarrow> free_balance F (resolve_creating F a v cs) b = free_balance F cs b"
    using assms unfolding currency_ok_def resolve_ok_def by blast+
  then show "unat (free_balance F (resolve_creating F a v cs) b) =
    unat (free_balance F cs b) + (if b = a then unat v else 0)" by simp
  show "minimum_balance F \<le> free_balance F (resolve_creating F a v cs) a"
    using assms(2) * by (simp add: word_le_nat_alt)
qed

lemma pay_vpot:
  assumes "vpot_ready F vpot spot w" and "pot_has F vpot w + unat v < 2 ^ 128"
  defines "w' \<equiv> lift_currency (on_unbalanced F (resolve_creating F vpot) v) w"
  shows "vpot_ready F vpot spot w'" and "pot_has F vpot w' = pot_has F vpot w + unat v"
    and "free_balance F (fst w') spot = free_balance F (fst w) spot" and "snd w' = snd w"
proof -
  obtain cs st where w: "w = (cs, st)" by (cases w)
  have cur: "currency_ok F" and ne: "vpot \<noteq> spot" and min: "minimum_balance F \<le> free_balance F cs vpot"
    using assms(1) w by (auto simp: vpot_ready_def)
  have "unat (free_balance F cs vpot) + unat v < 2 ^ 128" using assms(2) w by (simp add: pot_has_def)
  note r = resolve_exact [OF cur min this]
  have "vpot_ready F vpot spot w' \<and> pot_has F vpot w' = pot_has F vpot w + unat v \<and>
      free_balance F (fst w') spot = free_balance F (fst w) spot"
    using cur ne min r(1) [of spot] r(1) [of vpot] r(2)
    by (auto simp: w'_def w lift_currency_def on_unbalanced_def vpot_ready_def pot_has_def unsigned_word_eqI)
  then show "vpot_ready F vpot spot w'" and "pot_has F vpot w' = pot_has F vpot w + unat v"
    and "free_balance F (fst w') spot = free_balance F (fst w) spot" by auto
  show "snd w' = snd w" by (simp add: w'_def)
qed

lemma pay_staking:
  fixes v :: u128
  assumes "vpot_ready F vpot (pot cfg) w"
  defines "w' \<equiv> handle_imbalance F cfg v w"
  shows "vpot_ready F vpot (pot cfg) w'" and "pot_has F vpot w' = pot_has F vpot w"
    and "accumulated w + unat v < 2 ^ 128 \<Longrightarrow> accumulated w' = accumulated w + unat v"
    and "minimum_balance F \<le> free_balance F (fst w) (pot cfg) \<Longrightarrow> pot_has F (pot cfg) w + unat v < 2 ^ 128 \<Longrightarrow>
      pot_has F (pot cfg) w' = pot_has F (pot cfg) w + unat v \<and> minimum_balance F \<le> free_balance F (fst w') (pot cfg)"
proof -
  obtain cs st where w: "w = (cs, st)" by (cases w)
  have cur: "currency_ok F" and ne: "vpot \<noteq> pot cfg" and min: "minimum_balance F \<le> free_balance F cs vpot"
    using assms(1) w by (auto simp: vpot_ready_def)
  have keep: "free_balance F (resolve_creating F (pot cfg) v cs) vpot = free_balance F cs vpot"
    using cur ne unfolding currency_ok_def resolve_ok_def by blast
  show "vpot_ready F vpot (pot cfg) w'" and "pot_has F vpot w' = pot_has F vpot w"
    using cur ne min keep
    by (simp_all add: w'_def w handle_imbalance_def staking_account_id_def vpot_ready_def pot_has_def)
  show "accumulated w + unat v < 2 ^ 128 \<Longrightarrow> accumulated w' = accumulated w + unat v"
    by (simp add: w'_def w handle_imbalance_def accumulated_def unat_saturating_add)
  show "pot_has F (pot cfg) w' = pot_has F (pot cfg) w + unat v \<and> minimum_balance F \<le> free_balance F (fst w') (pot cfg)"
    if "minimum_balance F \<le> free_balance F (fst w) (pot cfg)" "pot_has F (pot cfg) w + unat v < 2 ^ 128"
    using that resolve_exact [OF cur, of cs "pot cfg" v]
    by (simp add: w'_def w handle_imbalance_def staking_account_id_def pot_has_def)
qed

lemma issue_pots:
  assumes "vpot_ready F vpot spot w" and "lift_issue F v w = (i, w')"
  shows "vpot_ready F vpot spot w'" and "pot_has F a w' = pot_has F a w"
    and "free_balance F (fst w') a = free_balance F (fst w) a" and "snd w' = snd w"
proof -
  have cur: "currency_ok F" using assms(1) by (cases w) (simp add: vpot_ready_def)
  obtain cs st where w: "w = (cs, st)" by (cases w)
  then have "w' = (snd (issue F v cs), st)" using assms(2) by (simp add: lift_issue_def split: prod.splits)
  then show "vpot_ready F vpot spot w'" and "pot_has F a w' = pot_has F a w"
    and "free_balance F (fst w') a = free_balance F (fst w) a" and "snd w' = snd w"
    using assms(1) cur by (simp_all add: w vpot_ready_def pot_has_def)
qed

lemma accumulated_cong: "snd w' = snd w \<Longrightarrow> accumulated w' = accumulated w"
  by (cases w; cases w') (simp add: accumulated_def)

sublocale wired_runtime \<subseteq> money: beneficiaries "rt_reward R" "pots_ready F vpot (pot (rt_staking R))"
    "pot_has F vpot" "pot_has F (pot (rt_staking R))"
proof (unfold_locales, goal_cases)
  case (1 w v)
  then show ?case using pay_vpot [of F vpot "pot (rt_staking R)" w v]
    by (simp add: validators_wired pots_ready_def pot_has_def split_def)
next
  case (2 w v)
  then show ?case using pay_staking [of F vpot "rt_staking R" w v]
    by (simp add: providers_wired pots_ready_def)
next
  case (3 w v i w')
  then show ?case using issue_pots [of F vpot "pot (rt_staking R)" w v i w']
    by (simp add: issue_wired pots_ready_def)
qed

sublocale wired_runtime \<subseteq> book: beneficiaries "rt_reward R" "vpot_ready F vpot (pot (rt_staking R))"
    "pot_has F vpot" accumulated
proof (unfold_locales, goal_cases)
  case (1 w v)
  then show ?case using pay_vpot(1,2) [of F vpot "pot (rt_staking R)" w v]
      accumulated_cong [OF snd_lifts(1), of "on_unbalanced F (resolve_creating F vpot) v" w]
    by (simp add: validators_wired)
next
  case (2 w v)
  then show ?case using pay_staking [of F vpot "rt_staking R" w v] by (simp add: providers_wired)
next
  case (3 w v i w')
  then have "accumulated w' = accumulated w" using issue_pots(4) by (intro accumulated_cong) (simp add: issue_wired)
  with 3 show ?case using issue_pots(1,2) [of F vpot "pot (rt_staking R)" w v i w'] by (simp add: issue_wired)
qed

section \<open>What a step of the chain did\<close>

definition rs_world :: "('ac, 'cs) runtime_state \<Rightarrow> ('ac, 'cs) staking_world" where
  "rs_world s = (rs_currency s, rs_staking s)"

text \<open>The calls a transaction or a hook can make to the staking pallet itself.\<close>

definition staking_entry :: "('ac, massbit_id, 'o) staking_call \<Rightarrow> bool" where
  "staking_entry c \<longleftrightarrow> (\<exists>o' d. c = staking_call_of o' d) \<or> (\<exists>n. c = OnInitialize n)"

lemma staking_entry_neutral: "staking_entry c \<Longrightarrow> status_neutral c"
proof -
  have "status_neutral (staking_call_of o' d)" for o' :: 'o and d :: staking_dispatch
    by (cases d) (simp_all add: status_neutral_def)
  then show "staking_entry c \<Longrightarrow> status_neutral c" by (auto simp: staking_entry_def status_neutral_def)
qed

text \<open>The components a step leaves alone.\<close>

definition same_dapi :: "('ac, 'cs) runtime_state \<Rightarrow> ('ac, 'cs) runtime_state \<Rightarrow> bool" where
  "same_dapi s s' \<longleftrightarrow> rs_dapi s' = rs_dapi s"

definition same_validators :: "('ac, 'cs) runtime_state \<Rightarrow> ('ac, 'cs) runtime_state \<Rightarrow> bool" where
  "same_validators s s' \<longleftrightarrow> rs_validators s' = rs_validators s"

definition same_reward :: "('ac, 'cs) runtime_state \<Rightarrow> ('ac, 'cs) runtime_state \<Rightarrow> bool" where
  "same_reward s s' \<longleftrightarrow> rs_reward s' = rs_reward s"

lemmas same_defs = same_dapi_def same_validators_def same_reward_def

lemma in_staking_elim:
  assumes "in_staking f s = Inr s'"
  shows "f (rs_world s) = Inr (rs_world s')"
    and "same_dapi s s'" "same_validators s s'" "same_reward s s'" "rs_others s' = rs_others s"
  using assms by (auto simp: in_staking_def rs_world_def same_defs split: sum.splits)

lemma in_dapi_elim:
  assumes "in_dapi f s = Inr s'"
  shows "f (rs_world s, rs_dapi s) = Inr (rs_world s', rs_dapi s')"
    and "same_validators s s'" "same_reward s s'" "rs_others s' = rs_others s"
  using assms by (auto simp: in_dapi_def rs_world_def same_defs split: sum.splits)

lemma in_validators_elim:
  assumes "in_validators f s = Inr s'"
  shows "f (rs_currency s, rs_validators s) = Inr (rs_currency s', rs_validators s')"
    and "same_dapi s s'" "rs_staking s' = rs_staking s" "same_reward s s'" "rs_others s' = rs_others s"
  using assms by (auto simp: in_validators_def same_defs split: sum.splits)

lemma in_reward_elim:
  assumes "in_reward f s = Inr s'"
  shows "f (rs_world s, rs_reward s) = Inr (rs_world s', rs_reward s')"
    and "same_dapi s s'" "same_validators s s'" "rs_others s' = rs_others s"
  using assms by (auto simp: in_reward_def rs_world_def same_defs split: sum.splits)

text \<open>The kinds of successful steps, each with the call it made.\<close>

datatype ('ac, 'o) step_kind =
  DapiStep 'o "('ac, massbit_id) dapi_call"
| StakingStep "('ac, massbit_id, 'o) staking_call"
| ValidatorStep "('ac, 'o) validator_call"
| RewardStep 'o distribution_config
| IssueStep
| CurrencyStep
| IdleStep

fun step_did ::
    "('ac, 'cs, 'o) frame \<Rightarrow> ('ac, 'cs, 'o) runtime \<Rightarrow> ('ac, 'o) step_kind \<Rightarrow>
     ('ac, 'cs) runtime_state \<Rightarrow> ('ac, 'cs) runtime_state \<Rightarrow> bool" where
  "step_did F R (DapiStep o' c) s s' \<longleftrightarrow> same_validators s s' \<and> same_reward s s' \<and>
     dapi_exec F (rt_dapi R) (o', c) (rs_world s, rs_dapi s) = Inr (rs_world s', rs_dapi s')"
| "step_did F R (StakingStep c) s s' \<longleftrightarrow> same_dapi s s' \<and> same_validators s s' \<and> same_reward s s' \<and>
     staking_entry c \<and> staking_exec F (rt_staking R) c (rs_world s) = Inr (rs_world s')"
| "step_did F R (ValidatorStep c) s s' \<longleftrightarrow> same_dapi s s' \<and> same_reward s s' \<and> rs_staking s' = rs_staking s \<and>
     validator_exec F (rt_validators R) (rs_env s, c) (rs_currency s, rs_validators s) =
       Inr (rs_currency s', rs_validators s')"
| "step_did F R (RewardStep o' c) s s' \<longleftrightarrow> same_dapi s s' \<and> same_validators s s' \<and>
     set_config F o' c (rs_world s, rs_reward s) = Inr (rs_world s', rs_reward s')"
| "step_did F R IssueStep s s' \<longleftrightarrow> same_dapi s s' \<and> same_validators s s' \<and>
     on_timestamp_set F (rt_reward R) (rs_world s, rs_reward s) = (rs_world s', rs_reward s')"
| "step_did F R CurrencyStep s s' \<longleftrightarrow> same_dapi s s' \<and> same_validators s s' \<and> same_reward s s' \<and>
     rs_staking s' = rs_staking s \<and> (\<exists>is. rs_currency s' = rt_fees R is (rs_currency s))"
| "step_did F R IdleStep s s' \<longleftrightarrow> s' = s"

fun kind_of :: "'o \<Rightarrow> 'ac runtime_call \<Rightarrow> ('ac, 'o) step_kind" where
  "kind_of o' (DapiCall c) = DapiStep o' c"
| "kind_of o' (DapiStakingCall c) = StakingStep (staking_call_of o' c)"
| "kind_of o' (ValidatorSetCall c) = ValidatorStep (validator_call_of o' c)"
| "kind_of o' (BlockRewardCall c) = RewardStep o' c"
| "kind_of o' OtherCall = IdleStep"

fun step_kind_of :: "('ac, 'cs) runtime_state \<Rightarrow> ('ac, 'cs, 'o) runtime_step \<Rightarrow> ('ac, 'o) step_kind" where
  "step_kind_of s (Transaction o' a c) = kind_of o' c"
| "step_kind_of s (Inner o' c) = kind_of o' c"
| "step_kind_of s (Unfiltered o' c) = kind_of o' c"
| "step_kind_of s BlockInit = StakingStep (OnInitialize (env_block (rs_env s) + 1))"
| "step_kind_of s TimestampSet = IssueStep"
| "step_kind_of s (Authored a) = ValidatorStep (NoteAuthor a)"
| "step_kind_of s SessionEnd = ValidatorStep NewSession"
| "step_kind_of s (FeesCharged is) = CurrencyStep"
| "step_kind_of s (Foreign cs keys held) = IdleStep"

definition foreign_step :: "('ac, 'cs, 'o) runtime_step \<Rightarrow> bool" where
  "foreign_step e = (case e of Foreign _ _ _ \<Rightarrow> True | _ \<Rightarrow> False)"

lemmas in_elims = in_staking_elim in_dapi_elim in_validators_elim in_reward_elim

lemma dispatch_did:
  assumes "runtime_dispatch F R o' c s = Inr s'"
  shows "step_did F R (kind_of o' c) s s' \<and> rs_others s' = rs_others s"
proof (cases c)
  case (DapiStakingCall d)
  then show ?thesis using assms
    by (auto simp: runtime_dispatch_def staking_entry_def dest: in_elims)
qed (use assms in \<open>auto simp: runtime_dispatch_def dest: in_elims\<close>)

lemma runtime_exec_did:
  assumes "runtime_exec F R e s = Inr s'" and "\<not> foreign_step e"
  shows "step_did F R (step_kind_of s e) s s' \<and> rs_others s' = rs_others s"
proof (cases e)
  case (Transaction o' a c)
  then show ?thesis
    using assms(1) by (auto simp: apply_extrinsic_def split: sum.splits if_splits dest: dispatch_did)
next
  case BlockInit
  then show ?thesis using assms(1) in_staking_elim [of _ _ s']
    by (auto simp: Let_def staking_entry_def same_defs rs_world_def)
next
  case TimestampSet
  then show ?thesis using assms(1) by (auto dest: in_elims)
qed (use assms in \<open>auto simp: foreign_step_def same_defs split: if_splits dest: dispatch_did in_elims\<close>)

section \<open>Invariants of whole chains\<close>

definition chain_inv ::
    "('ac, 'cs, 'o) frame \<Rightarrow> ('ac, 'cs, 'o) runtime \<Rightarrow> ('ac, 'cs) runtime_state \<Rightarrow> bool" where
  "chain_inv F R s \<longleftrightarrow> staking_inv (rs_staking s) \<and> validator_inv (rs_validators s) \<and>
     dapi_inv (rt_dapi R) (rs_dapi s) \<and> in_step staking_status (rs_world s, rs_dapi s) \<and>
     reward_inv F (rs_reward s)"

text \<open>The reserve of every account covers what the pallets owe it, all together.\<close>

definition covered :: "('ac, 'cs, 'o) frame \<Rightarrow> ('ac, 'cs) runtime_state \<Rightarrow> bool" where
  "covered F s \<longleftrightarrow> (\<forall>a. owed (rs_staking s) a + candidate_owed (rs_validators s) a + rs_others s a
     \<le> unat (reserved_balance F (rs_currency s) a))"

text \<open>
  The steps the theorems admit. The origin of a transaction is that of its signer; no sum in the
  check of \<open>provider_bond_less\<close> wraps around (the code accepts a call in which it does, so this excludes
  chains that can happen; see \<open>bond_less_wraps\<close>); the pallets outside the repository change a reserve by
  what they change in their own deposits.
\<close>

definition call_fits :: "('ac, 'cs, 'o) runtime \<Rightarrow> 'ac runtime_call \<Rightarrow> bool" where
  "call_fits R c = (case c of
     DapiStakingCall (Call_provider_bond_less p v) \<Rightarrow>
       unat v + unat (MinProviderStake (rt_staking R)) < 2 ^ 128
   | _ \<Rightarrow> True)"

definition step_ok ::
    "('ac, 'cs, 'o) frame \<Rightarrow> ('ac, 'cs, 'o) runtime \<Rightarrow> ('ac, 'cs) runtime_state \<Rightarrow>
     ('ac, 'cs, 'o) runtime_step \<Rightarrow> bool" where
  "step_ok F R s e = (case e of
     Transaction o' a c \<Rightarrow> ensure_signed F o' = Some a \<and> \<not> ensure_root F o' \<and> call_fits R c
   | Inner o' c \<Rightarrow> \<not> ensure_root F o' \<and> call_fits R c
   | Unfiltered o' c \<Rightarrow> call_fits R c
   | Foreign cs keys held \<Rightarrow> (\<forall>a. held a + unat (reserved_balance F (rs_currency s) a) =
       rs_others s a + unat (reserved_balance F cs a))
   | _ \<Rightarrow> True)"

lemma call_fits_sum: "call_fits R (DapiStakingCall d) \<Longrightarrow> bond_sum_fits (rt_staking R) (staking_call_of o' d)"
  by (cases d) (simp_all add: call_fits_def bond_sum_fits_def)

lemma step_fits_sum:
  assumes "step_ok F R s e" and "step_kind_of s e = StakingStep c"
  shows "bond_sum_fits (rt_staking R) c"
proof -
  have *: "bond_sum_fits (rt_staking R) c" if "call_fits R d" "kind_of o' d = StakingStep c" for o' d
    using that by (cases d) (auto simp: call_fits_sum)
  show ?thesis using assms * by (cases e) (auto simp: step_ok_def bond_sum_fits_def)
qed

lemma foreign_step_elim:
  assumes "runtime_exec F R e s = Inr s'" and "foreign_step e"
  shows "rs_staking s' = rs_staking s" "same_dapi s s'" "same_validators s s'" "same_reward s s'"
    and "step_ok F R s e \<Longrightarrow> rs_others s' a + unat (reserved_balance F (rs_currency s) a) =
      rs_others s a + unat (reserved_balance F (rs_currency s') a)"
  using assms by (cases e; auto simp: foreign_step_def same_defs step_ok_def)+

lemma in_step_cong:
  assumes "in_step staking_status (rs_world s, rs_dapi s)" and "same_dapi s s'"
    and "staking_status (rs_world s') = staking_status (rs_world s)"
  shows "in_step staking_status (rs_world s', rs_dapi s')"
  using assms by (simp add: in_step_def same_defs)

lemma in_step_keep:
  assumes "in_step staking_status (rs_world s, rs_dapi s)" and "same_dapi s s'" and "rs_staking s' = rs_staking s"
  shows "in_step staking_status (rs_world s', rs_dapi s')"
  using assms by (simp add: in_step_def same_defs staking_status_def rs_world_def)

context wired_runtime begin

lemma staking_call_okI: "bond_sum_fits (rt_staking R) c \<Longrightarrow> staking_call_ok (rt_staking R) c"
  by (simp add: staking_call_ok_def stake_positive)

lemma step_moves:
  assumes "currency_ok F" and "step_did F R k s s'" and "\<And>c. k = StakingStep c \<Longrightarrow> bond_sum_fits (rt_staking R) c"
    and "\<And>c. k \<noteq> ValidatorStep c"
  shows "staking_moves F (rt_staking R) (staking_call_ok (rt_staking R)) (rs_world s) (rs_world s')"
proof (cases k)
  case (DapiStep o' c)
  then have "staking_moves F (rt_staking R) dapi_may (rs_world s) (rs_world s')"
    using assms(2) by (auto intro: dapi_moves [OF assms(1)])
  then show ?thesis
    by (rule staking_moves_mono)
      (auto simp: dapi_may_def bond_sum_fits_def intro!: staking_call_okI split: staking_call.splits)
next
  case (StakingStep c)
  with assms(2,3) show ?thesis by (auto intro: moves_exec [OF moves_refl] staking_call_okI)
next
  case (RewardStep o' c)
  with assms(2) set_config_elim(3) show ?thesis by (metis moves_refl step_did.simps(4))
next
  case IssueStep
  with assms(2) show ?thesis
    by (auto intro!: reward_moves(1) [OF assms(1)] staking_call_okI simp: bond_sum_fits_def)
next
  case CurrencyStep
  with assms(2) show ?thesis
    by (auto simp: rs_world_def fees_keep [OF assms(1)] intro!: moves_currency_only [OF moves_refl])
qed (use assms(2,4) in \<open>auto intro: moves_refl\<close>)

lemma exec_covered:
  assumes cur: "currency_ok F" and pb: "perbill_ok F" and "chain_inv F R s" and cov: "covered F s"
    and "step_ok F R s e" and exec: "runtime_exec F R e s = Inr s'"
  shows "covered F s'"
proof (cases "foreign_step e")
  case True
  note f = foreign_step_elim(1-4) [OF exec True]
  have "rs_others s' a + unat (reserved_balance F (rs_currency s) a) =
      rs_others s a + unat (reserved_balance F (rs_currency s') a)" for a
    using foreign_step_elim(5) [OF exec True assms(5)] .
  with cov f show ?thesis unfolding covered_def same_defs by (smt (verit) add.commute add.left_commute add_le_cancel_left)
next
  case False
  have did: "step_did F R (step_kind_of s e) s s'" and oth: "rs_others s' = rs_others s"
    using runtime_exec_did [OF exec False] by auto
  show ?thesis
  proof (cases "\<exists>c. step_kind_of s e = ValidatorStep c")
    case True
    then obtain c where "step_did F R (ValidatorStep c) s s'" using did by auto
    then have ex: "validator_exec F (rt_validators R) (rs_env s, c) (rs_currency s, rs_validators s) =
        Inr (rs_currency s', rs_validators s')" and st: "rs_staking s' = rs_staking s" by auto
    have "candidate_owed (rs_validators s') a + (owed (rs_staking s) a + rs_others s a)
        \<le> unat (reserved_balance F (rs_currency s') a)" for a
      by (rule validator_holder.cover_kept [OF cur _ _ ex])
        (use assms(3) cov pb slash_fraction in \<open>auto simp: chain_inv_def covered_def validator_call_ok_def ac_simps\<close>)
    then show ?thesis by (simp add: covered_def st oth ac_simps)
  next
    case False
    have "staking_moves F (rt_staking R) (staking_call_ok (rt_staking R)) (rs_world s) (rs_world s')"
      using step_moves [OF cur did] step_fits_sum [OF assms(5)] False by auto
    from staking_moves_cover [OF this cur, where others = "\<lambda>a. candidate_owed (rs_validators s) a + rs_others s a"]
    have "owed (rs_staking s') a + (candidate_owed (rs_validators s) a + rs_others s a)
        \<le> unat (reserved_balance F (rs_currency s') a)" for a
      using assms(3) cov by (simp add: chain_inv_def covered_def rs_world_def ac_simps)
    moreover have "rs_validators s' = rs_validators s"
      using did False by (cases "step_kind_of s e") (auto simp: same_defs)
    ultimately show ?thesis by (simp add: covered_def oth ac_simps)
  qed
qed

lemma step_status:
  assumes "currency_ok F" and "step_did F R k s s'" and "in_step staking_status (rs_world s, rs_dapi s)"
  shows "in_step staking_status (rs_world s', rs_dapi s')"
proof (cases k)
  case (DapiStep o' c)
  with assms(2,3) show ?thesis by (auto intro: registry.exec_in_step)
next
  case (StakingStep c)
  then have "staking_status (rs_world s') = staking_status (rs_world s)"
    using assms(2) by (auto simp: rs_world_def intro: staking_exec_status staking_entry_neutral)
  with assms(2,3) StakingStep show ?thesis by (auto intro: in_step_cong)
next
  case IssueStep
  then have "staking_moves F (rt_staking R) status_neutral (rs_world s) (rs_world s')"
    using assms(2) by (auto intro: reward_moves(1) [OF assms(1)] simp: status_neutral_def)
  with assms(2,3) IssueStep show ?thesis by (auto intro: in_step_cong dest: staking_moves_status)
next
  case (RewardStep o' c)
  with assms(2) have "rs_world s' = rs_world s" by (auto dest: set_config_elim(3))
  with assms(2,3) RewardStep show ?thesis by (simp add: same_defs)
qed (use assms(2,3) in \<open>auto intro: in_step_keep\<close>)

lemma step_validator_inv:
  assumes "step_did F R k s s'" and "validator_inv (rs_validators s)"
  shows "validator_inv (rs_validators s')"
  using assms by (cases k) (auto simp: same_defs dest: validator_exec_inv)

lemma step_dapi_inv:
  assumes "step_did F R k s s'" and "dapi_inv (rt_dapi R) (rs_dapi s)"
  shows "dapi_inv (rt_dapi R) (rs_dapi s')"
proof (cases k)
  case (DapiStep o' c)
  with assms(1) show ?thesis by (auto intro: dapi_exec_inv [OF assms(2)])
qed (use assms in \<open>auto simp: same_defs\<close>)

lemma step_reward_inv:
  assumes "currency_ok F" and "step_did F R k s s'" and "reward_inv F (rs_reward s)"
  shows "reward_inv F (rs_reward s')"
proof (cases k)
  case (RewardStep o' c)
  with assms(2) show ?thesis by (auto simp: reward_inv_def dest: set_config_elim)
next
  case IssueStep
  with assms(2) have "rs_reward s' = rs_reward s" by (auto intro: reward_moves(2) [OF assms(1), of "\<lambda>_. True"])
  with assms(3) show ?thesis by simp
qed (use assms in \<open>auto simp: same_defs\<close>)

lemma exec_chain_inv:
  assumes cur: "currency_ok F" and "chain_inv F R s" and "step_ok F R s e"
    and exec: "runtime_exec F R e s = Inr s'"
  shows "chain_inv F R s'"
proof (cases "foreign_step e")
  case True
  note f = foreign_step_elim(1-4) [OF exec True]
  have "in_step staking_status (rs_world s', rs_dapi s')"
    using assms(2) f by (auto simp: chain_inv_def intro: in_step_keep)
  with assms(2) f show ?thesis by (simp add: chain_inv_def same_defs)
next
  case False
  define k where "k = step_kind_of s e"
  have did: "step_did F R k s s'" using runtime_exec_did [OF exec False] by (simp add: k_def)
  have "staking_inv (rs_staking s')"
  proof (cases "\<exists>c. k = ValidatorStep c")
    case True
    with did assms(2) show ?thesis by (auto simp: chain_inv_def)
  next
    case False
    have "staking_moves F (rt_staking R) (staking_call_ok (rt_staking R)) (rs_world s) (rs_world s')"
      using step_moves [OF cur did] step_fits_sum [OF assms(3)] False by (auto simp: k_def)
    with assms(2) show ?thesis by (auto simp: chain_inv_def rs_world_def dest: staking_moves_inv)
  qed
  moreover have "in_step staking_status (rs_world s', rs_dapi s')"
    using step_status [OF cur did] assms(2) by (simp add: chain_inv_def)
  ultimately show ?thesis
    using step_validator_inv [OF did] step_dapi_inv [OF did] step_reward_inv [OF cur did] assms(2)
    by (simp add: chain_inv_def)
qed

text \<open>Along every chain.\<close>

lemma run_inv:
  assumes "runtime_run F R (step_ok F R) s s'" and "currency_ok F" and "chain_inv F R s"
  shows "chain_inv F R s'"
  using assms(1,3) by (rule runtime_run_invariant) (rule exec_chain_inv [OF assms(2)])

lemma run_covered:
  assumes "runtime_run F R (step_ok F R) s s'" and "currency_ok F" and "perbill_ok F"
    and "chain_inv F R s" and "covered F s"
  shows "chain_inv F R s' \<and> covered F s'"
  by (rule runtime_run_invariant [OF assms(1), where P = "\<lambda>s. chain_inv F R s \<and> covered F s"])
    (use assms(2-5) in \<open>auto intro: exec_chain_inv exec_covered\<close>)

end

section \<open>The two runtimes\<close>

lemma fees_keep_reserves:
  assumes "currency_ok F"
  shows "reserved_balance F (keiko_DealWithFees F P is cs) a = reserved_balance F cs a"
    and "reserved_balance F (local_DealWithFees F P is cs) a = reserved_balance F cs a"
proof -
  have drops: "reserved_balance F (foldl (\<lambda>cs i. drop_imbalance F i cs) cs is) a = reserved_balance F cs a" for cs "is"
    by (induction "is" arbitrary: cs) (simp_all add: assms)
  show "reserved_balance F (keiko_DealWithFees F P is cs) a = reserved_balance F cs a"
    by (cases "(F, P, is, cs)" rule: keiko_DealWithFees.cases)
      (simp_all add: drops assms on_unbalanced_def keiko_ToValidatorPot_on_nonzero_def)
  show "reserved_balance F (local_DealWithFees F P is cs) a = reserved_balance F cs a"
    by (cases "(F, P, is, cs)" rule: local_DealWithFees.cases)
      (simp_all add: drops assms on_unbalanced_def local_ToValidatorPot_on_nonzero_def)
qed

lemma one_percent: "perbill_ok F \<Longrightarrow> perbill_from_percent F 1 \<le> perbill_one F"
  by (auto simp: perbill_ok_def word_le_nat_alt)

interpretation keiko: wired_runtime F "keiko_runtime F P" "pallet_account P ''valdtset''" for F P
  by unfold_locales
    (simp_all add: keiko_runtime_def keiko_dapi_config_def keiko_OnProjectPayment_def keiko_reward_config_def
      keiko_payout_validators_def keiko_payout_providers_def keiko_ToValidatorPot_on_nonzero_def [abs_def]
      keiko_staking_config_def keiko_validator_config_def keiko_KEI_def keiko_MILLIKEI_def
      fees_keep_reserves one_percent fun_eq_iff)

interpretation local: wired_runtime F "local_runtime F P" "pallet_account P ''valdtset''" for F P
  by unfold_locales
    (simp_all add: local_runtime_def local_dapi_config_def local_OnProjectPayment_def local_reward_config_def
      local_payout_validators_def local_payout_providers_def local_ToValidatorPot_on_nonzero_def [abs_def]
      local_staking_config_def local_validator_config_def local_MBTL_def local_MILLIMBTL_def
      fees_keep_reserves one_percent fun_eq_iff)

end
