(* ===== verification/Payout_Props.thy ===== *)
theory Payout_Props
  imports Reward_Props Runtime_Inv
begin

text \<open>
  What the pallet has paid for an era, over whole runs: the \<open>Payout\<close> events of the era never add up to
  more than what was collected in it, apart from less than one unit of rounding per payment.

  The proof keeps an account of every era that has ended: the payments made and those still due are
  covered by the recorded reward. A payment counts with all but its last unit, which is the unit that
  rounding may have added.
\<close>

section \<open>Payments made and payments due\<close>

definition payout_of :: "era_index \<Rightarrow> ('ac, 'pid) staking_event \<Rightarrow> u128 option" where
  "payout_of e ev = (case ev of Payout _ _ e' v \<Rightarrow> if e' = e then Some v else None | _ \<Rightarrow> None)"

definition payouts :: "('ac, 'pid) staking_state \<Rightarrow> era_index \<Rightarrow> u128 list" where
  "payouts st e = List.map_filter (payout_of e) (staking_events st)"

definition collected :: "('ac, 'pid) staking_state \<Rightarrow> era_index \<Rightarrow> nat" where
  "collected st e = unat (em_rewards (get_or EraMetadata_default (era_state st) e))"

text \<open>The recipients of a provider: \<open>None\<close> is the owner, \<open>Some a\<close> the delegator \<open>a\<close>.\<close>

definition may_claim :: "('ac, 'pid) staking_state \<Rightarrow> 'pid \<Rightarrow> era_index \<Rightarrow> bool" where
  "may_claim st p e = (case sget (provider_info st) p of None \<Rightarrow> False | Some info \<Rightarrow> claimable_status (pm_status info) e)"

definition due ::
    "('ac, 'cs, 'o) frame \<Rightarrow> 'ac staking_config \<Rightarrow> ('ac, 'pid) staking_state \<Rightarrow> era_index \<Rightarrow> 'ac option \<times> 'pid \<Rightarrow> nat" where
  "due F cfg st e = (\<lambda>(who, p).
     if \<not> may_claim st p e then 0
     else case who of
       None \<Rightarrow> if pe_reward_claimed (provider_era_or_default st p e) \<or> pe_total (provider_era_or_default st p e) = 0 then 0
         else unat (provider_payout F cfg st p e)
     | Some a \<Rightarrow> if staked_at (delegation_of st a p) e = 0 then 0
         else unat (delegator_payout F cfg st (staked_at (delegation_of st a p) e) p e))"

definition account_covered ::
    "('ac, 'cs, 'o) frame \<Rightarrow> 'ac staking_config \<Rightarrow> ('ac, 'pid) staking_state \<Rightarrow> era_index \<Rightarrow> bool" where
  "account_covered F cfg st e \<longleftrightarrow> (\<forall>T. finite T \<longrightarrow>
     (\<Sum>v \<leftarrow> payouts st e. unat v - 1) + (\<Sum>x \<in> T. due F cfg st e x - 1) \<le> collected st e)"

lemma account_coveredD: "account_covered F cfg st e \<Longrightarrow> finite T \<Longrightarrow>
    (\<Sum>v \<leftarrow> payouts st e. unat v - 1) + (\<Sum>x \<in> T. due F cfg st e x - 1) \<le> collected st e"
  by (simp add: account_covered_def)

lemma sum_list_all_but_one: "(\<Sum>v \<leftarrow> vs. unat v) \<le> (\<Sum>v \<leftarrow> vs. unat v - 1) + length (vs :: u128 list)"
  by (induction vs) auto

section \<open>Steps\<close>

text \<open>What else the account relies on: providers leave in the running era at the latest, entries belong
  to known providers, and nothing is paid for the running era.\<close>

definition ledger_wf :: "('ac, 'pid) staking_state \<Rightarrow> bool" where
  "ledger_wf st \<longleftrightarrow>
     (\<forall>p info u. sget (provider_info st) p = Some info \<longrightarrow> pm_status info = Inactive u \<longrightarrow> u \<le> current_era st) \<and>
     (\<forall>p e. (p, e) \<in> skeys (provider_era_info st) \<longrightarrow> p \<in> skeys (provider_info st)) \<and>
     (\<forall>a p e v. Payout a p e v \<in> set (staking_events st) \<longrightarrow> e < current_era st)"

lemma ledger_wfD:
  assumes "ledger_wf st"
  shows "sget (provider_info st) p = Some info \<Longrightarrow> pm_status info = Inactive u \<Longrightarrow> u \<le> current_era st"
    and "sget (provider_info st) p = None \<Longrightarrow> sget (provider_era_info st) (p, e) = None"
    and "current_era st \<le> e \<Longrightarrow> payouts st e = []"
proof -
  show "payouts st e = []" if "current_era st \<le> e"
  proof -
    have "payout_of e ev = None" if "ev \<in> set (staking_events st)" for ev
    proof (cases ev)
      case (Payout a p x v)
      with that have "x < current_era st" using assms unfolding ledger_wf_def by blast
      with Payout \<open>current_era st \<le> e\<close> show ?thesis by (auto simp: payout_of_def)
    qed (simp_all add: payout_of_def)
    then show ?thesis by (simp add: payouts_def map_filter_def filter_empty_conv)
  qed
  show "sget (provider_era_info st) (p, e) = None" if "sget (provider_info st) p = None"
  proof -
    have "(p, e) \<notin> skeys (provider_era_info st)"
      using assms that unfolding ledger_wf_def skeys_iff by (metis option.distinct(1))
    then show ?thesis by (simp add: skeys_iff)
  qed
qed (use assms in \<open>auto simp: ledger_wf_def\<close>)

text \<open>The record of a past era keeps everything but the flag, which is only set.\<close>

definition past_kept :: "('ac, 'pid) staking_state \<Rightarrow> ('ac, 'pid) staking_state \<Rightarrow> era_index \<Rightarrow> bool" where
  "past_kept st st' e \<longleftrightarrow> sget (era_state st') e = sget (era_state st) e \<and>
     (\<forall>p. let pe = provider_era_or_default st p e; pe' = provider_era_or_default st' p e in
        pe_total pe' = pe_total pe \<and> pe_bond pe' = pe_bond pe \<and> (pe_reward_claimed pe \<longrightarrow> pe_reward_claimed pe'))"

lemma staking_exec_past:
  assumes inv: "staking_inv st" and exec: "staking_exec F cfg c (cs, st) = Inr (cs', st')"
    and e: "e < current_era st" and era: "current_era st \<noteq> - 1"
  shows "past_kept st st' e"
proof (cases "\<exists>n. c = OnInitialize n \<and> should_update (era st) n")
  case True
  then obtain n where n: "should_update (era st) n" "snd (staking_on_initialize F cfg n st) = st'" using exec by auto
  have "e \<noteq> current_era st + 1" "e \<noteq> current_era st" using e word_less_Suc_iff [OF era, of "current_era st"] by auto
  then show ?thesis
    by (simp add: past_kept_def Let_def provider_era_or_default_def get_or_def
        on_initialize_access(9,10) [OF n(1) staking_invD(1) [OF inv] n(2)])
next
  case False
  with exec e show ?thesis
    by (cases c)
      (auto elim!: staking_elims simp: handle_imbalance_def past_kept_def Let_def provider_era_or_default_def on_initialize_idle
        era_staked_add_def era_staked_sub_def)
qed

lemma past_kept_payouts:
  assumes "past_kept st st' e"
  shows "provider_payout F cfg st' p e = provider_payout F cfg st p e"
    and "delegator_payout F cfg st' v p e = delegator_payout F cfg st v p e"
    and "collected st' e = collected st e"
  using assms
  by (simp_all add: past_kept_def Let_def provider_payout_def delegator_payout_def split_provider_delegators_rewards_def
      collected_def get_or_def)

lemma may_claim_kept:
  assumes "ledger_wf st" and exec: "staking_exec F cfg c (cs, st) = Inr (cs', st')" and e: "e < current_era st"
    and "sget (provider_info st) p \<noteq> None" and "may_claim st' p e"
  shows "may_claim st p e"
  using exec assms(4,5) e
  by (cases c) (auto elim!: staking_elims simp: handle_imbalance_def may_claim_def claimable_status_def
      on_initialize_provider_info split: option.splits if_splits provider_status.splits)

lemma staked_at_kept:
  assumes "staking_inv st" and exec: "staking_exec F cfg c (cs, st) = Inr (cs', st')" and e: "e < current_era st"
  shows "staked_at (delegation_of st' a p) e \<in> {0, staked_at (delegation_of st a p) e}"
  using exec
proof (cases rule: staking_exec_delegation [where a = a and p = p])
  case (staked v)
  then show ?thesis using dh.stake_keeps_settled [OF staking_invD(2,3) [OF assms(1)] staked e] by simp
next
  case (unstaked v)
  then show ?thesis using dh.unstake_keeps_settled [OF staking_invD(2,3) [OF assms(1)] unstaked e] by simp
next
  case (claimed h v)
  then show ?thesis using claim_delegator_claim(5) [OF assms(1) claimed(1-3), of e] by simp
qed simp_all

text \<open>No step adds to what is due for a past era.\<close>

lemma due_kept:
  assumes inv: "staking_inv st" "ledger_wf st" and exec: "staking_exec F cfg c (cs, st) = Inr (cs', st')"
    and e: "e < current_era st" and era: "current_era st \<noteq> - 1"
  shows "due F cfg st' e x \<le> due F cfg st e x"
proof -
  obtain who p where x: "x = (who, p)" by (cases x)
  note past = staking_exec_past [OF inv(1) exec e era]
  note pay = past_kept_payouts [OF past]
  show ?thesis
  proof (cases "sget (provider_info st) p")
    case None
    have "provider_era_or_default st p e = ProviderEraMetadata_default"
      using ledger_wfD(2) [OF inv(2) None] by (simp add: provider_era_or_default_def get_or_def)
    then have "pe_total (provider_era_or_default st' p e) = 0"
      using past by (simp add: past_kept_def Let_def ProviderEraMetadata_default_def)
    moreover have "staked_at (delegation_of st' a p) e = 0" for a
    proof -
      have "sget (delegation_info st) (a, p) = None"
        using staking_invD(4) [OF inv(1), of a p] None by (cases "sget (delegation_info st) (a, p)") (auto simp: skeys_iff)
      then have "staked_at (delegation_of st a p) e = 0" by (simp add: delegation_of_def get_or_def)
      then show ?thesis using staked_at_kept [OF inv(1) exec e, of a p] by simp
    qed
    ultimately show ?thesis by (simp add: x due_def split: option.splits)
  next
    case (Some info)
    then have "may_claim st' p e \<Longrightarrow> may_claim st p e" using may_claim_kept [OF inv(2) exec e] by auto
    moreover have "staked_at (delegation_of st' a p) e \<in> {0, staked_at (delegation_of st a p) e}" for a
      by (rule staked_at_kept [OF inv(1) exec e])
    ultimately show ?thesis
      using past by (fastforce simp: x due_def pay past_kept_def Let_def split: option.splits)
  qed
qed

section \<open>The account of a past era\<close>

lemma events_access [simp]:
  "staking_events (staking_deposit_event ev st) = staking_events st @ [ev]"
  "staking_events (put_provider_era p e i st) = staking_events st"
  "staking_events (era_staked_add e v st) = staking_events st"
  "staking_events (era_staked_sub e v st) = staking_events st"
  "staking_events (update_delegation_info a p d st) = staking_events st"
  "staking_events (update_unbonding_info a u st) = staking_events st"
  by (simp_all add: staking_deposit_event_def put_provider_era_def era_staked_add_def era_staked_sub_def
      update_delegation_info_def update_unbonding_info_def)

lemma payouts_append:
  "staking_events st' = staking_events st @ evs \<Longrightarrow> payouts st' e = payouts st e @ List.map_filter (payout_of e) evs"
  by (simp add: payouts_def map_filter_def)

text \<open>A step pays nothing, or pays one recipient what is due.\<close>

lemma staking_exec_payouts:
  assumes inv: "staking_inv st" and exec: "staking_exec F cfg c (cs, st) = Inr (cs', st')"
  obtains (silent) evs where "staking_events st' = staking_events st @ evs" and "\<And>e. List.map_filter (payout_of e) evs = []"
    and "\<And>a p e v. Payout a p e v \<notin> set evs"
  | (paid) a p h v x where "staking_events st' = staking_events st @ [Payout a p h v]" and "h < current_era st"
    and "current_era st' = current_era st" and "due F cfg st h x = unat v" and "due F cfg st' h x = 0"
proof -
  consider (provider) o' p h where "c = ClaimProvider o' p h" | (delegator) o' p where "c = ClaimDelegator o' p"
    | (other) "\<And>o' p h. c \<noteq> ClaimProvider o' p h" "\<And>o' p. c \<noteq> ClaimDelegator o' p" by blast
  then show ?thesis
  proof cases
    case (provider o' p h)
    with exec have "claim_provider F cfg o' p h (cs, st) = Inr (cs', st')" by simp
    then show ?thesis
    proof (cases rule: claim_provider_elim)
      case (1 info em reward i cs1)
      then have "due F cfg st h (None, p) = unat reward" "due F cfg st' h (None, p) = 0"
        by (simp_all add: due_def may_claim_def provider_payout_def get_or_def)
      then show ?thesis using 1 by (intro paid) auto
    qed
  next
    case (delegator o' p)
    with exec have "claim_delegator F cfg o' p (cs, st) = Inr (cs', st')" by simp
    then show ?thesis
    proof (cases rule: claim_delegator_elim)
      case (1 who e staked d' info em reward i cs1)
      note d' = claim_delegator_claim(4,5) [OF inv 1(2,3,6)]
      then have "due F cfg st e (Some who, p) = unat reward" "due F cfg st' e (Some who, p) = 0"
        using 1 by (auto simp: due_def may_claim_def delegator_payout_def get_or_def Let_def)
      then show ?thesis using 1 by (intro paid) auto
    qed
  next
    case other
    with exec have "\<exists>evs. staking_events st' = staking_events st @ evs \<and> (\<forall>ev \<in> set evs. \<forall>a p e v. ev \<noteq> Payout a p e v)"
      by (cases c) (auto elim!: staking_elims simp: handle_imbalance_def staking_on_initialize_def Let_def
          rotate_provider_era_info_def snapshot_era_rewards_def split: prod.splits)
    then obtain evs where evs: "staking_events st' = staking_events st @ evs" "\<forall>ev \<in> set evs. \<forall>a p e v. ev \<noteq> Payout a p e v"
      by blast
    then have "payout_of e ev = None" if "ev \<in> set evs" for e ev
      using that by (auto simp: payout_of_def split: staking_event.splits)
    with evs show ?thesis by (intro silent) (auto simp: map_filter_def filter_empty_conv)
  qed
qed

lemma account_step:
  assumes inv: "staking_inv st" "ledger_wf st" and exec: "staking_exec F cfg c (cs, st) = Inr (cs', st')"
    and e: "e < current_era st" and era: "current_era st \<noteq> - 1" and acc: "account_covered F cfg st e"
  shows "account_covered F cfg st' e"
  unfolding account_covered_def
proof (intro allI impI)
  fix T :: "('a option \<times> 'b) set"
  assume T: "finite T"
  note le = due_kept [OF inv exec e era]
  have R: "collected st' e = collected st e" by (rule past_kept_payouts(3) [OF staking_exec_past [OF inv(1) exec e era]])
  have sum: "(\<Sum>x \<in> A. due F cfg st' e x - 1) \<le> (\<Sum>x \<in> A. due F cfg st e x - 1)" for A
    by (rule sum_mono) (simp add: diff_le_mono le)
  show "(\<Sum>v \<leftarrow> payouts st' e. unat v - 1) + (\<Sum>x \<in> T. due F cfg st' e x - 1) \<le> collected st' e"
    using inv(1) exec
  proof (cases rule: staking_exec_payouts)
    case (silent evs)
    then have "payouts st' e = payouts st e" using payouts_append [OF silent(1)] by simp
    with sum [of T] account_coveredD [OF acc T] R show ?thesis by simp
  next
    case (paid a p h v x)
    note ps = payouts_append [OF paid(1), of e]
    show ?thesis
    proof (cases "h = e")
      case True
      have "(\<Sum>x \<in> T. due F cfg st' e x - 1) = (\<Sum>x \<in> T - {x}. due F cfg st' e x - 1)"
        using T paid(5) True by (intro sum.mono_neutral_right) auto
      also have "\<dots> \<le> (\<Sum>x \<in> T - {x}. due F cfg st e x - 1)" by (rule sum)
      finally have "(\<Sum>x \<in> T. due F cfg st' e x - 1) + (unat v - 1) \<le> (\<Sum>x \<in> insert x T. due F cfg st e x - 1)"
        using T paid(4) True by (simp add: sum.insert_remove)
      moreover have "payouts st' e = payouts st e @ [v]" using ps True by (simp add: map_filter_def payout_of_def)
      ultimately show ?thesis using account_coveredD [OF acc, of "insert x T"] T R by simp
    next
      case False
      then have "payouts st' e = payouts st e" using ps by (simp add: map_filter_def payout_of_def)
      with sum [of T] account_coveredD [OF acc T] R show ?thesis by simp
    qed
  qed
qed

lemma ledger_keys_step:
  assumes inv: "staking_inv st" "ledger_wf st" and exec: "staking_exec F cfg c (cs, st) = Inr (cs', st')"
    and key: "(p, e) \<in> skeys (provider_era_info st')"
  shows "p \<in> skeys (provider_info st')"
proof -
  have old: "q \<in> skeys (provider_info st)" if "(q, x) \<in> skeys (provider_era_info st)" for q x
    using inv(2) that by (auto simp: ledger_wf_def)
  have known: "q \<in> skeys (provider_info st)" if "sget (provider_info st) q = Some i" for q i
    using that by (auto simp: skeys_iff)
  show "p \<in> skeys (provider_info st')"
  proof (cases "\<exists>n. c = OnInitialize n \<and> should_update (era st) n")
    case True
    then obtain n where n: "should_update (era st) n" "snd (staking_on_initialize F cfg n st) = st'" using exec by auto
    note acc = on_initialize_access(3,9) [OF n(1) staking_invD(1) [OF inv(1)] n(2)]
    from key have "(p, e) \<in> skeys (provider_era_info st) \<or> is_active_provider st p"
      by (auto simp: skeys_iff acc(2) split: if_splits)
    then show ?thesis using old active_key by (auto simp: acc(1))
  next
    case False
    have "st' = st" if "c = OnInitialize n" for n using that False exec by (auto simp: on_initialize_idle)
    then show ?thesis using exec key
      by (cases c) (auto elim!: staking_elims simp: handle_imbalance_def dest: old known active_key)
  qed
qed

lemma ledger_wf_step:
  assumes inv: "staking_inv st" "ledger_wf st" and exec: "staking_exec F cfg c (cs, st) = Inr (cs', st')"
  shows "ledger_wf st'"
  unfolding ledger_wf_def
proof (intro conjI allI impI)
  note mono = staking_exec_era_mono [OF exec]
  fix p info u
  assume info: "sget (provider_info st') p = Some info" "pm_status info = Inactive u"
  have "u \<le> current_era st"
    using exec info
    by (cases c) (auto elim!: staking_elims simp: handle_imbalance_def on_initialize_provider_info ProviderMetadata_new_def
        split: if_splits dest: ledger_wfD(1) [OF inv(2)], (erule (1) ledger_wfD(1) [OF inv(2)])+)
  with mono show "u \<le> current_era st'" by simp
next
  fix p e
  assume "(p, e) \<in> skeys (provider_era_info st')"
  then show "p \<in> skeys (provider_info st')" by (rule ledger_keys_step [OF inv exec])
next
  fix a p e v
  assume ev: "Payout a p e v \<in> set (staking_events st')"
  have "e < current_era st"
    using inv(1) exec
  proof (cases rule: staking_exec_payouts)
    case (silent evs)
    with ev have "Payout a p e v \<in> set (staking_events st)" by auto
    then show ?thesis using inv(2) unfolding ledger_wf_def by blast
  next
    case (paid b q h w x)
    with ev have "Payout a p e v \<in> set (staking_events st) \<or> e = h" by auto
    then show ?thesis using inv(2) paid(2) unfolding ledger_wf_def by blast
  qed
  with staking_exec_era_mono [OF exec] show "e < current_era st'" by simp
qed

section \<open>The end of an era opens its account\<close>

lemma shares_all_but_half:
  assumes "perbill_ok F" and "perbill_rounds F" and fin: "finite A" and pos: "0 < q"
    and sum: "(\<Sum>x \<in> A. unat (p x)) \<le> unat q"
  shows "(\<Sum>x \<in> A. 2 * unat (perbill_mul F (perbill_from_rational F (p x) q) b) - 1) \<le> 2 * unat b"
proof -
  let ?v = "\<lambda>x. unat (perbill_mul F (perbill_from_rational F (p x) q) b)"
  let ?A = "{x \<in> A. ?v x \<noteq> 0}"
  have "(\<Sum>x \<in> A. 2 * ?v x - 1) = (\<Sum>x \<in> ?A. 2 * ?v x - 1)"
    using fin by (intro sum.mono_neutral_right) auto
  moreover have "(\<Sum>x \<in> ?A. 2 * ?v x - 1) + card ?A = (\<Sum>x \<in> ?A. 2 * ?v x)"
  proof -
    have "(\<Sum>x \<in> ?A. (2 * ?v x - 1) + 1) = (\<Sum>x \<in> ?A. 2 * ?v x)" by (intro sum.cong) auto
    then show ?thesis by (simp only: sum.distrib) simp
  qed
  moreover have "2 * (\<Sum>x \<in> ?A. ?v x) \<le> 2 * unat b + card ?A"
  proof (rule shares_bounded [OF assms(1,2) _ pos])
    have "(\<Sum>x \<in> ?A. unat (p x)) \<le> (\<Sum>x \<in> A. unat (p x))" using fin by (intro sum_mono2) auto
    then show "(\<Sum>x \<in> ?A. unat (p x)) \<le> unat q" using sum by simp
  qed (use fin in simp)
  ultimately show ?thesis by (simp add: sum_distrib_left)
qed

lemma shares_of_nonzero:
  assumes "perbill_ok F" and "perbill_rounds F" and fin: "finite A" and nz: "\<And>x. x \<in> A \<Longrightarrow> p x \<noteq> 0"
    and sum: "(\<Sum>x \<in> A. unat (p x)) \<le> unat q"
  shows "(\<Sum>x \<in> A. 2 * unat (perbill_mul F (perbill_from_rational F (p x) q) b) - 1) \<le> 2 * unat b"
proof (cases "A = {}")
  case False
  then obtain x where x: "x \<in> A" by blast
  then have "0 < unat (p x)" using nz by (simp add: unat_gt_0)
  also have "\<dots> \<le> (\<Sum>x \<in> A. unat (p x))" by (rule sum_member_le [of A x "\<lambda>x. unat (p x)", OF fin x])
  finally have "0 < q" using sum by (simp add: word_less_nat_alt)
  then show ?thesis by (rule shares_all_but_half [OF assms(1,2) fin _ sum])
qed simp

lemma sum_all_but_one:
  fixes f :: "'a \<Rightarrow> nat"
  assumes "finite A"
  shows "(\<Sum>x \<in> A. 2 * (f x - 1)) \<le> (\<Sum>x \<in> A. 2 * f x - 1) - 1"
  using assms
proof (induction A)
  case (insert a A)
  then have "(\<Sum>x \<in> insert a A. 2 * (f x - 1)) = 2 * (f a - 1) + (\<Sum>x \<in> A. 2 * (f x - 1))"
    "(\<Sum>x \<in> insert a A. 2 * f x - 1) = (2 * f a - 1) + (\<Sum>x \<in> A. 2 * f x - 1)" by simp_all
  moreover have "(\<Sum>x \<in> A. 2 * (f x - 1)) \<le> (\<Sum>x \<in> A. 2 * f x - 1)" by (rule sum_mono) simp
  ultimately show ?case using insert.IH by linarith
qed simp

lemma recipients_bounded:
  fixes d :: "'a option \<times> 'b \<Rightarrow> nat"
  assumes T: "finite T" and owner: "d (None, p) \<le> own" and del: "\<And>a. d (Some a, p) \<le> del a"
    and part: "\<And>A. finite A \<Longrightarrow> (\<Sum>a \<in> A. 2 * del a - 1) \<le> 2 * part" and share: "own + part = share"
  shows "(\<Sum>x \<in> {x \<in> T. snd x = p}. 2 * (d x - 1)) \<le> 2 * share - 1"
proof -
  define A where "A = {a. (Some a, p) \<in> T}"
  have "A \<subseteq> (\<lambda>x. the (fst x)) ` T" by (force simp: A_def)
  then have A: "finite A" using T by (meson finite_imageI finite_subset)
  have sub: "{x \<in> T. snd x = p} \<subseteq> insert (None, p) ((\<lambda>a. (Some a, p)) ` A)"
  proof
    fix x
    assume "x \<in> {x \<in> T. snd x = p}"
    then show "x \<in> insert (None, p) ((\<lambda>a. (Some a, p)) ` A)" by (cases x; cases "fst x") (auto simp: A_def)
  qed
  have "(\<Sum>x \<in> {x \<in> T. snd x = p}. 2 * (d x - 1)) \<le> (\<Sum>x \<in> insert (None, p) ((\<lambda>a. (Some a, p)) ` A). 2 * (d x - 1))"
    using A by (intro sum_mono2 sub) auto
  also have "\<dots> = 2 * (d (None, p) - 1) + (\<Sum>a \<in> A. 2 * (d (Some a, p) - 1))"
    using A by (subst sum.insert) (auto simp: sum.reindex inj_on_def)
  also have "\<dots> \<le> 2 * (own - 1) + (\<Sum>a \<in> A. 2 * (del a - 1))"
    using owner del by (intro add_mono sum_mono) (auto intro: diff_le_mono)
  also have "\<dots> \<le> 2 * (own - 1) + (2 * part - 1)" using sum_all_but_one [OF A, of del] part [OF A] by linarith
  also have "\<dots> \<le> 2 * share - 1" using share by linarith
  finally show ?thesis .
qed

lemma delegators_share:
  assumes ok: "perbill_ok F" "perbill_rounds F" and A: "finite A"
    and total: "unat (pe_total pe) = unat (pe_bond pe) + stake_total st p"
  defines "latest \<equiv> \<lambda>a. latest_staked_value (delegation_of st a p)"
  shows "(\<Sum>a \<in> A. 2 * unat (if latest a = 0 then 0
      else perbill_mul F (perbill_from_rational F (latest a) (saturating_sub (pe_total pe) (pe_bond pe))) part) - 1) \<le> 2 * unat part"
proof -
  let ?q = "saturating_sub (pe_total pe) (pe_bond pe)"
  let ?f = "\<lambda>a. 2 * unat (perbill_mul F (perbill_from_rational F (latest a) ?q) part) - 1"
  define D where "D = A \<inter> delegators_of st p"
  have q: "unat ?q = stake_total st p" using total by (simp add: unat_saturating_sub)
  have mem: "latest a = 0 \<longleftrightarrow> a \<notin> delegators_of st p" for a
    by (simp add: latest_def delegators_of_def stake_for_def unat_eq_zero)
  have "(\<Sum>a \<in> A. 2 * unat (if latest a = 0 then 0 else perbill_mul F (perbill_from_rational F (latest a) ?q) part) - 1) = sum ?f D"
    using A by (intro sum.mono_neutral_cong_right) (auto simp: D_def mem)
  also have "\<dots> \<le> 2 * unat part"
  proof (rule shares_of_nonzero [OF ok])
    show "(\<Sum>a \<in> D. unat (latest a)) \<le> unat ?q"
      unfolding q stake_total_def stake_for_def latest_def by (rule sum_mono2) (auto simp: D_def)
  qed (use A mem in \<open>auto simp: D_def\<close>)
  finally show ?thesis .
qed

text \<open>The recipients of one provider. In the state after the hook the records of the old era are those
  from before, with the reward filled in.\<close>

lemma era_end_records:
  assumes inv: "staking_inv st" "ledger_wf st"
    and ends: "should_update (era st) n" "snd (staking_on_initialize F cfg n st) = st'"
  shows "provider_era_or_default st' p (current_era st) = provider_era_or_default st p (current_era st)"
    and "get_or EraMetadata_default (era_state st') (current_era st) =
      get_or EraMetadata_default (era_state st) (current_era st)\<lparr>em_rewards := reward_accumulator st\<rparr>"
    and "staked_at (delegation_of st' a p) (current_era st) = latest_staked_value (delegation_of st a p)"
    and "may_claim st' p (current_era st) \<longleftrightarrow> is_active_provider st p"
proof -
  note acc = on_initialize_access [OF ends(1) staking_invD(1) [OF inv(1)] ends(2)]
  show "provider_era_or_default st' p (current_era st) = provider_era_or_default st p (current_era st)"
    by (simp add: provider_era_or_default_def get_or_def acc(9))
  show "get_or EraMetadata_default (era_state st') (current_era st) =
      get_or EraMetadata_default (era_state st) (current_era st)\<lparr>em_rewards := reward_accumulator st\<rparr>"
    by (simp add: get_or_def acc(10))
  show "staked_at (delegation_of st' a p) (current_era st) = latest_staked_value (delegation_of st a p)"
    using staked_at_latest [OF staking_invD(3) [OF inv(1)] order_refl] by (simp add: acc(6))
  show "may_claim st' p (current_era st) \<longleftrightarrow> is_active_provider st p"
    using ledger_wfD(1) [OF inv(2)]
    by (auto simp: may_claim_def acc(3) is_active_provider_def claimable_status_def leD split: option.splits provider_status.splits)
qed

lemma due_at_end:
  assumes inv: "staking_inv st" "ledger_wf st" and bk: "books st" and ok: "perbill_ok F" "perbill_rounds F"
    and pct: "ProviderRewardsPercentage cfg \<le> perbill_one F"
    and ends: "should_update (era st) n" "snd (staking_on_initialize F cfg n st) = st'" and T: "finite T"
  defines "e \<equiv> current_era st" and "tot \<equiv> \<lambda>p. pe_total (provider_era_or_default st p (current_era st))"
    and "em \<equiv> get_or EraMetadata_default (era_state st) (current_era st)"
  shows "(\<Sum>x \<in> {x \<in> T. snd x = p}. 2 * (due F cfg st' e x - 1)) \<le>
    (if is_active_provider st p \<and> tot p \<noteq> 0
     then 2 * unat (perbill_mul F (perbill_from_rational F (tot p) (em_staked em)) (reward_accumulator st)) - 1 else 0)"
proof (cases "is_active_provider st p")
  case False
  then show ?thesis by (auto simp: due_def e_def era_end_records(4) [OF inv ends] intro!: sum.neutral)
next
  case True
  note rec = era_end_records [OF inv ends, folded e_def em_def]
  let ?pe = "provider_era_or_default st p e" and ?latest = "\<lambda>a. latest_staked_value (delegation_of st a p)"
  define share where "share = perbill_mul F (perbill_from_rational F (tot p) (em_staked em)) (reward_accumulator st)"
  define part where "part = snd (split_provider_delegators_rewards F cfg ?pe (em\<lparr>em_rewards := reward_accumulator st\<rparr>))"
  have tot: "tot p = pe_total ?pe" by (simp add: tot_def e_def)
  have bks: "unat (pe_total ?pe) = unat (pe_bond ?pe) + stake_total st p"
    using booksD [OF bk True] by (simp add: provider_books_def Let_def e_def)
  have pays: "delegator_payout F cfg st' v p e =
      perbill_mul F (perbill_from_rational F v (saturating_sub (pe_total ?pe) (pe_bond ?pe))) part" for v
    by (simp add: delegator_payout_def Let_def rec part_def)
  have "(\<Sum>x \<in> {x \<in> T. snd x = p}. 2 * (due F cfg st' e x - 1)) \<le> 2 * unat share - 1"
  proof (rule recipients_bounded [OF T])
    show "due F cfg st' e (None, p) \<le> unat (provider_payout F cfg st' p e)" by (simp add: due_def)
    show "due F cfg st' e (Some a, p) \<le> unat (if ?latest a = 0 then 0 else delegator_payout F cfg st' (?latest a) p e)" for a
      by (simp add: due_def rec)
    show "(\<Sum>a \<in> A. 2 * unat (if ?latest a = 0 then 0 else delegator_payout F cfg st' (?latest a) p e) - 1) \<le> 2 * unat part"
      if "finite A" for A
      using delegators_share [OF ok that bks, of part] unfolding pays .
    show "unat (provider_payout F cfg st' p e) + unat part = unat share"
      using perbill_mul_le [OF ok(1) pct]
      by (simp add: part_def share_def provider_payout_def split_provider_delegators_rewards_def Let_def unat_saturating_sub
          word_le_nat_alt rec tot)
  qed
  moreover have "(\<Sum>x \<in> {x \<in> T. snd x = p}. 2 * (due F cfg st' e x - 1)) = 0" if zero: "tot p = 0"
  proof -
    have "?latest a = 0" for a using zero bks stake_le_total [of st a p] by (simp add: tot stake_for_def unat_eq_zero)
    then show ?thesis using zero by (auto simp: due_def rec tot split: option.splits intro!: sum.neutral)
  qed
  ultimately show ?thesis using True by (simp add: share_def)
qed

lemma account_opens:
  assumes inv: "staking_inv st" "ledger_wf st" and bk: "books st" "era_books st" and ok: "perbill_ok F" "perbill_rounds F"
    and pct: "ProviderRewardsPercentage cfg \<le> perbill_one F"
    and ends: "should_update (era st) n" "snd (staking_on_initialize F cfg n st) = st'"
  shows "account_covered F cfg st' (current_era st)"
  unfolding account_covered_def
proof (intro allI impI)
  fix T :: "('a option \<times> 'b) set"
  assume T: "finite T"
  let ?e = "current_era st"
  let ?tot = "\<lambda>p. pe_total (provider_era_or_default st p ?e)"
  let ?q = "em_staked (get_or EraMetadata_default (era_state st) ?e)"
  let ?share = "\<lambda>p. 2 * unat (perbill_mul F (perbill_from_rational F (?tot p) ?q) (reward_accumulator st)) - 1"
  define P where "P = {p \<in> snd ` T. is_active_provider st p \<and> ?tot p \<noteq> 0}"
  note acc = on_initialize_access(10) [OF ends(1) staking_invD(1) [OF inv(1)] ends(2)]
  have none: "payouts st' ?e = []"
  proof -
    have "\<exists>ev. staking_events st' = staking_events st @ [ev] \<and> payout_of ?e ev = None"
      using ends by (auto simp: staking_on_initialize_def Let_def rotate_provider_era_info_def snapshot_era_rewards_def
          payout_of_def split: prod.splits)
    then show ?thesis using payouts_append ledger_wfD(3) [OF inv(2) order_refl] by (fastforce simp: map_filter_def)
  qed
  have R: "collected st' ?e = unat (reward_accumulator st)" by (simp add: collected_def get_or_def acc)
  have "2 * (\<Sum>x \<in> T. due F cfg st' ?e x - 1) = (\<Sum>p \<in> snd ` T. \<Sum>x \<in> {x \<in> T. snd x = p}. 2 * (due F cfg st' ?e x - 1))"
    unfolding sum_distrib_left by (rule sum.image_gen [OF T])
  also have "\<dots> \<le> (\<Sum>p \<in> snd ` T. if is_active_provider st p \<and> ?tot p \<noteq> 0 then ?share p else 0)"
    by (rule sum_mono) (rule due_at_end [OF inv bk(1) ok pct ends T])
  also have "\<dots> = sum ?share P" unfolding P_def by (rule sum.inter_filter [symmetric]) (simp add: T)
  also have "\<dots> \<le> 2 * unat (reward_accumulator st)"
  proof (rule shares_of_nonzero [OF ok])
    have "(\<Sum>p \<in> P. unat (?tot p)) \<le> total_active st"
      unfolding total_active_def era_total_def by (rule sum_mono2) (simp, auto simp: P_def active_providers_def)
    then show "(\<Sum>p \<in> P. unat (?tot p)) \<le> unat ?q" using bk(2) by (simp add: era_books_def era_staked_def)
  qed (use T in \<open>auto simp: P_def\<close>)
  finally show "(\<Sum>v \<leftarrow> payouts st' ?e. unat v - 1) + (\<Sum>x \<in> T. due F cfg st' ?e x - 1) \<le> collected st' ?e"
    by (simp add: none R)
qed

section \<open>Along runs\<close>

lemma ledger_wf_genesis: "ledger_wf staking_genesis"
  by (simp add: ledger_wf_def staking_genesis_def)

lemma account_next:
  assumes inv: "staking_inv st" "ledger_wf st" and bk: "books st" "era_books st" and ok: "perbill_ok F" "perbill_rounds F"
    and pct: "ProviderRewardsPercentage cfg \<le> perbill_one F" and exec: "staking_exec F cfg c (cs, st) = Inr (cs', st')"
    and acc: "\<And>e. e < current_era st \<Longrightarrow> account_covered F cfg st e" and era: "current_era st' \<noteq> - 1" and e: "e < current_era st'"
  shows "account_covered F cfg st' e"
proof -
  have max: "current_era st \<noteq> - 1"
    using staking_exec_era_mono [OF exec] era by (auto simp: word_order.extremum_unique)
  show ?thesis
  proof (cases "e < current_era st")
    case True
    then show ?thesis by (intro account_step [OF inv exec True max] acc)
  next
    case False
    then obtain n where c: "c = OnInitialize n" using staking_exec_era_info [OF exec] e by (cases c) auto
    then have st': "snd (staking_on_initialize F cfg n st) = st'" using exec by auto
    have upd: "should_update (era st) n" using False e on_initialize_era [of F cfg n st] st' by (auto split: if_splits)
    then have "current_era st' = current_era st + 1"
      using on_initialize_era [of F cfg n st] st' saturating_Suc [OF max] by simp
    with e False have "e = current_era st" using word_less_Suc_iff [OF max, of e] by simp
    then show ?thesis using account_opens [OF inv bk ok pct upd st'] by simp
  qed
qed

lemma account_run:
  assumes cur: "currency_ok F" and cfg: "staking_config_ok cfg" and ok: "perbill_ok F" "perbill_rounds F"
    and pct: "ProviderRewardsPercentage cfg \<le> perbill_one F"
    and run: "staking_run F cfg (bounded_call F cfg) (cs, staking_genesis) s"
  shows "ledger_wf (snd s) \<and> (current_era (snd s) \<noteq> - 1 \<longrightarrow> (\<forall>e < current_era (snd s). account_covered F cfg (snd s) e))"
  using run
proof (induction "(cs, staking_genesis :: ('a, 'd) staking_state)" s)
  case run_refl
  then show ?case by (simp add: ledger_wf_genesis) (simp add: staking_genesis_def current_era_def EraInfo_default_def EraInfo_new_def)
next
  case (run_step s c)
  obtain cs1 st where s: "s = (cs1, st)" by (cases s)
  have inv: "staking_inv st" using staking_run_inv [OF run_step.hyps(1)] s by (simp add: staking_inv_genesis)
  have "books (snd s) \<and> era_books (snd s)"
    by (rule staking_run_all_books [OF cur cfg run_step.hyps(1)])
      (simp_all add: staking_inv_genesis solvent_genesis books_genesis era_books_genesis)
  then have bk: "books st" "era_books st" using s by simp_all
  show ?case
  proof (cases "staking_exec F cfg c s")
    case (Inl err)
    then show ?thesis using run_step.hyps(2) by (simp add: staking_apply_def)
  next
    case (Inr t)
    obtain cs2 st' where t: "t = (cs2, st')" by (cases t)
    have exec: "staking_exec F cfg c (cs1, st) = Inr (cs2, st')" using Inr s t by simp
    have wf: "ledger_wf st" using run_step.hyps(2) s by simp
    have "current_era st \<noteq> - 1" if "current_era st' \<noteq> - 1"
      using staking_exec_era_mono [OF exec] that by (auto simp: word_order.extremum_unique)
    then have "account_covered F cfg st' e" if "current_era st' \<noteq> - 1" "e < current_era st'" for e
      using run_step.hyps(2) s by (intro account_next [OF inv wf bk ok pct exec _ that]) (auto simp: that)
    then show ?thesis using ledger_wf_step [OF inv wf exec] by (simp add: staking_apply_def Inr t)
  qed
qed

text \<open>C12: The pallet never pays out more than it collected. In every state reached from genesis without a
  \<^verbatim>\<open>provider_bond_less\<close> whose sum wraps around (after one the recorded total of an era can be zero, and every
  provider would be paid the whole), everything
  that was paid for an era, to all owners and delegators together, in whatever order they claimed and
  whatever happened in between, is at most what was collected in that era, apart from one unit of
  rounding per payment. The sum of the reserves fits the balance type; \<^verbatim>\<open>Perbill\<close> rounds as its
  documentation says and the share of the owners is at most the whole; the era counter has not reached
  its last value, where it saturates.\<close>

theorem payouts_within_rewards:
  assumes "currency_ok F" and "perbill_ok F" and "perbill_rounds F" and "staking_config_ok cfg"
    and "ProviderRewardsPercentage cfg \<le> perbill_one F"
    and "staking_run F cfg (bounded_call F cfg) (cs, staking_genesis) (cs', st)"
    and "current_era st \<noteq> - 1" and "e < current_era st"
  shows "(\<Sum>v \<leftarrow> payouts st e. unat v) \<le> collected st e + length (payouts st e)"
proof -
  have "account_covered F cfg st e" using account_run [OF assms(1,4,2,3,5,6)] assms(7,8) by simp
  then have "(\<Sum>v \<leftarrow> payouts st e. unat v - 1) \<le> collected st e" using account_coveredD [of F cfg st e "{}"] by simp
  then show ?thesis using sum_list_all_but_one [of "payouts st e"] by linarith
qed

definition demo_paid :: "(nat, nat, nat option) staking_call list" where
  "demo_paid = demo_before_claim @ [ClaimProvider (Some 1) 7 1, ClaimDelegator (Some 2) 7]"

theorem payouts_within_rewards_witness:
  "length (payouts (snd (demo_run demo_paid)) 1) = 2 \<and> collected (snd (demo_run demo_paid)) 1 = 50 \<and>
   (\<Sum>v \<leftarrow> payouts (snd (demo_run demo_paid)) 1. unat v) \<le> 52"
proof -
  let ?s = "demo_run demo_paid"
  have "small_run (demo_ledger, staking_genesis) demo_paid" by code_simp
  from small_run_bounded [OF this]
  have run: "staking_run ledger_frame demo_config (bounded_call ledger_frame demo_config)
      (demo_ledger, staking_genesis) (fst ?s, snd ?s)" by (simp add: demo_run_def)
  have cfg: "staking_config_ok demo_config" "ProviderRewardsPercentage demo_config \<le> perbill_one ledger_frame"
    by (simp_all add: staking_config_ok_def demo_config_def ledger_frame_def)
  have facts: "current_era (snd ?s) \<noteq> - 1" "1 < current_era (snd ?s)" "length (payouts (snd ?s) 1) = 2" "collected (snd ?s) 1 = 50"
    by code_simp+
  with payouts_within_rewards [OF ledger_currency_ok ledger_perbill_ok ledger_perbill_rounds cfg run facts(1,2)]
  show ?thesis by simp
qed

end
