(* ===== verification/Chain_Spec.thy ===== *)
theory Chain_Spec
  imports Runtime_Inv
begin

text \<open>
  \<^verbatim>\<open>node/src/chain_spec\<close> and \<^verbatim>\<open>node/src/command.rs\<close>: the genesis of the two networks, the storage that
  the genesis builds of the pallets make of it, and how the node chooses a specification and a
  runtime. Keys and addresses come from the cryptography of the framework: parameters, where \<open>None\<close>
  is a string that cannot be decoded (the code then panics in \<^verbatim>\<open>unwrap\<close> or \<^verbatim>\<open>expect\<close>).
\<close>

section \<open>Keys\<close>

record ('ac, 'aura, 'gran) crypto =
  sr25519_from_string :: "string \<Rightarrow> 'ac option"
  aura_from_string :: "string \<Rightarrow> 'aura option"
  grandpa_from_string :: "string \<Rightarrow> 'gran option"
  from_ss58check :: "string \<Rightarrow> 'ac option"

definition get_from_seed :: "(string \<Rightarrow> 'k option) \<Rightarrow> string \<Rightarrow> 'k option" where
  "get_from_seed from_string seed = from_string (''//'' @ seed)"

definition get_account_id_from_seed :: "('ac, 'aura, 'gran) crypto \<Rightarrow> string \<Rightarrow> 'ac option" where
  "get_account_id_from_seed C seed = get_from_seed (sr25519_from_string C) seed"

definition authority_keys_from_seed ::
    "('ac, 'aura, 'gran) crypto \<Rightarrow> string \<Rightarrow> ('ac \<times> 'aura \<times> 'gran) option" where
  "authority_keys_from_seed C s =
     (case (get_account_id_from_seed C s, get_from_seed (aura_from_string C) s,
            get_from_seed (grandpa_from_string C) s) of
        (Some a, Some k, Some g) \<Rightarrow> Some (a, k, g)
      | _ \<Rightarrow> None)"

section \<open>Genesis configurations\<close>

record ('aura, 'gran) session_keys =
  sk_aura :: 'aura
  sk_grandpa :: 'gran

record ('ac, 'aura, 'gran) genesis_config =
  g_code :: "u8 list"
  g_balances :: "('ac \<times> u128) list"
  g_reward_config :: distribution_config
  g_desired_candidates :: u32
  g_candidacy_bond :: u128
  g_invulnerables :: "'ac list"
  g_session :: "('ac \<times> 'ac \<times> ('aura, 'gran) session_keys) list"
  g_aura :: "'aura list"
  g_grandpa :: "'gran list"
  g_sudo :: "'ac option"
  g_regulators :: "'ac list"
  g_chain_ids :: "u8 list list"

text \<open>\<^verbatim>\<open>"..".as_bytes()\<close> of an ASCII literal.\<close>

definition as_bytes :: "string \<Rightarrow> u8 list" where
  "as_bytes s = map (\<lambda>c. word_of_nat (of_char c)) s"

definition keiko_session_keys :: "'aura \<Rightarrow> 'gran \<Rightarrow> ('aura, 'gran) session_keys" where
  "keiko_session_keys aura grandpa = \<lparr>sk_aura = aura, sk_grandpa = grandpa\<rparr>"

definition local_session_keys :: "'aura \<Rightarrow> 'gran \<Rightarrow> ('aura, 'gran) session_keys" where
  "local_session_keys aura grandpa = \<lparr>sk_aura = aura, sk_grandpa = grandpa\<rparr>"

text \<open>\<open>wasm\<close> is the runtime built into the binary; without it \<^verbatim>\<open>wasm_binary_unwrap\<close> panics.\<close>

definition keiko_make_genesis ::
    "('ac, 'cs, 'o) frame \<Rightarrow> u8 list option \<Rightarrow> 'ac \<Rightarrow> 'ac list \<Rightarrow> ('ac \<times> 'aura \<times> 'gran) list \<Rightarrow> 'ac list \<Rightarrow>
     ('ac, 'aura, 'gran) genesis_config option" where
  "keiko_make_genesis F wasm root_key endowed_accounts initial_authorities initial_regulators =
     (case wasm of None \<Rightarrow> None | Some code \<Rightarrow> Some \<lparr>
        g_code = code,
        g_balances = map (\<lambda>k. (k, 2000000000 * keiko_KEI)) endowed_accounts,
        g_reward_config = \<lparr>providers_percent = perbill_from_percent F 100,
                           validators_percent = perbill_from_percent F 0\<rparr>,
        g_desired_candidates = 200,
        g_candidacy_bond = 20000000 * keiko_KEI,
        g_invulnerables = map fst initial_authorities,
        g_session = map (\<lambda>(a, k, g). (a, a, keiko_session_keys k g)) initial_authorities,
        g_aura = [],
        g_grandpa = [],
        g_sudo = Some root_key,
        g_regulators = initial_regulators,
        g_chain_ids = [as_bytes ''eth.mainnet'', as_bytes ''dot.mainnet'']\<rparr>)"

definition local_make_genesis ::
    "('ac, 'cs, 'o) frame \<Rightarrow> u8 list option \<Rightarrow> 'ac \<Rightarrow> 'ac list \<Rightarrow> ('ac \<times> 'aura \<times> 'gran) list \<Rightarrow> 'ac list \<Rightarrow>
     ('ac, 'aura, 'gran) genesis_config option" where
  "local_make_genesis F wasm root_key endowed_accounts initial_authorities initial_regulators =
     (case wasm of None \<Rightarrow> None | Some code \<Rightarrow> Some \<lparr>
        g_code = code,
        g_balances = map (\<lambda>k. (k, 100000 * local_MBTL)) endowed_accounts,
        g_reward_config = \<lparr>providers_percent = perbill_from_percent F 50,
                           validators_percent = perbill_from_percent F 50\<rparr>,
        g_desired_candidates = 200,
        g_candidacy_bond = 1000 * local_MBTL,
        g_invulnerables = map fst initial_authorities,
        g_session = map (\<lambda>(a, k, g). (a, a, local_session_keys k g)) initial_authorities,
        g_aura = [],
        g_grandpa = [],
        g_sudo = Some root_key,
        g_regulators = initial_regulators,
        g_chain_ids = [as_bytes ''eth.mainnet'', as_bytes ''dot.mainnet'']\<rparr>)"

section \<open>Chain specifications\<close>

datatype chain_type = Live | Development

text \<open>\<open>sp_genesis\<close> is the genesis closure: \<open>None\<close> when it panics.\<close>

record ('ac, 'aura, 'gran) chain_spec =
  sp_name :: string
  sp_id :: string
  sp_chain_type :: chain_type
  sp_genesis :: "('ac, 'aura, 'gran) genesis_config option"
  sp_properties :: "string \<times> nat"

definition keiko_get_chain_spec ::
    "('ac, 'cs, 'o) frame \<Rightarrow> ('ac, 'aura, 'gran) crypto \<Rightarrow> u8 list option \<Rightarrow> ('ac, 'aura, 'gran) chain_spec" where
  "keiko_get_chain_spec F C wasm = \<lparr>
     sp_name = ''Keiko'', sp_id = ''keiko'', sp_chain_type = Live,
     sp_genesis =
       (case (from_ss58check C ''5GKjNtFNWpvqVCbD4dMXbTXCe31oFdZbLFivMZPvJgRZkjif'',
              those (map (from_ss58check C)
                [''5GKjNtFNWpvqVCbD4dMXbTXCe31oFdZbLFivMZPvJgRZkjif'',
                 ''5Gp4aP3CVYWixaM4jq5RKRP1nkG87mmH7913UNLhjeWh28p3'',
                 ''5DZFPuBrY2zGPKk9xTV4GvErD86XqFFH3SMjLbrDfrZidsRW'',
                 ''5Cg132mksNV7ntfpKrFRJ1fcHrhqtEU9MKBXKV71LGCSwhBz'',
                 ''5CyqNYGeb51y4qPJsAVjkeP3BWGUEmEytTWNdMtzqapK2WcY'']),
              those [authority_keys_from_seed C ''Alice'']) of
          (Some root, Some endowed, Some authorities) \<Rightarrow> keiko_make_genesis F wasm root endowed authorities []
        | _ \<Rightarrow> None),
     sp_properties = (''KEI'', 18)\<rparr>"

definition local_development_config ::
    "('ac, 'cs, 'o) frame \<Rightarrow> ('ac, 'aura, 'gran) crypto \<Rightarrow> u8 list option \<Rightarrow> ('ac, 'aura, 'gran) chain_spec" where
  "local_development_config F C wasm = \<lparr>
     sp_name = ''Development'', sp_id = ''dev'', sp_chain_type = Development,
     sp_genesis =
       (case (get_account_id_from_seed C ''Alice'',
              those (map (get_account_id_from_seed C)
                [''Alice'', ''Bob'', ''Charlie'', ''Dave'', ''Eve'', ''Ferdie'']),
              those [authority_keys_from_seed C ''Alice''],
              those (map (get_account_id_from_seed C) [''Eve'', ''Ferdie''])) of
          (Some root, Some endowed, Some authorities, Some rgs) \<Rightarrow>
            local_make_genesis F wasm root endowed authorities rgs
        | _ \<Rightarrow> None),
     sp_properties = (''MBTL'', 18)\<rparr>"

section \<open>The first state\<close>

text \<open>The genesis builds of the pallets in the repository; the session pallet knows the keys of its part.
  The storage \<open>cs\<close> of the balances pallet is an argument: what its genesis build makes of \<open>g_balances\<close> is
  not code of the repository, so theorems hold for every \<open>cs\<close>, not only for the one it makes.\<close>

definition genesis_build ::
    "('ac, 'cs, 'o) frame \<Rightarrow> ('ac, 'cs, 'o) runtime \<Rightarrow> 'cs \<Rightarrow> ('ac, 'aura, 'gran) genesis_config \<Rightarrow>
     ('ac, 'cs) runtime_state option" where
  "genesis_build F R cs g =
     (case (dapi_genesis_build (rt_dapi R) (g_regulators g) (g_chain_ids g),
            validator_genesis_build (rt_validators R) (g_invulnerables g) (g_candidacy_bond g)
              (g_desired_candidates g),
            reward_genesis_build F (g_reward_config g)) of
        (Some d, Some v, Some r) \<Rightarrow> Some \<lparr>
          rs_env = \<lparr>env_block = 0, env_registered = (\<lambda>a. a \<in> (\<lambda>(x, _). x) ` set (g_session g))\<rparr>,
          rs_currency = cs, rs_staking = staking_genesis, rs_dapi = d, rs_validators = v, rs_reward = r,
          rs_others = (\<lambda>_. 0)\<rparr>
      | _ \<Rightarrow> None)"

section \<open>The command line\<close>

definition starts_with :: "string \<Rightarrow> string \<Rightarrow> bool" where
  "starts_with s prefix \<longleftrightarrow> take (length prefix) s = prefix"

definition is_dev :: "('ac, 'aura, 'gran) chain_spec \<Rightarrow> bool" where
  "is_dev spec = starts_with (sp_id spec) ''dev''"

definition is_keiko :: "('ac, 'aura, 'gran) chain_spec \<Rightarrow> bool" where
  "is_keiko spec = starts_with (sp_id spec) ''keiko''"

datatype runtime_name = KeikoRuntime | LocalRuntime

text \<open>\<open>from_json_bytes\<close> is the specification compiled into the binary, \<open>from_json_file\<close> reads one from a
  path.\<close>

definition load_spec ::
    "('ac, 'cs, 'o) frame \<Rightarrow> ('ac, 'aura, 'gran) crypto \<Rightarrow> u8 list option \<Rightarrow> u8 list option \<Rightarrow>
     string + ('ac, 'aura, 'gran) chain_spec \<Rightarrow> (string \<Rightarrow> string + ('ac, 'aura, 'gran) chain_spec) \<Rightarrow>
     string \<Rightarrow> string + ('ac, 'aura, 'gran) chain_spec" where
  "load_spec F C local_wasm keiko_wasm from_json_bytes from_json_file i =
     (if i = ''dev'' then Inr (local_development_config F C local_wasm)
      else if i = ''keiko-dev'' then Inr (keiko_get_chain_spec F C keiko_wasm)
      else if i = ''keiko'' then from_json_bytes
      else from_json_file i)"

definition native_runtime_version :: "('ac, 'aura, 'gran) chain_spec \<Rightarrow> runtime_name" where
  "native_runtime_version spec = (if is_dev spec then LocalRuntime else KeikoRuntime)"

datatype benchmark_cmd = BenchPallet | BenchBlock | BenchStorage | BenchOverhead | BenchMachine

datatype subcommand = BuildSpec | CheckBlock | Key | Sign | Verify | Vanity | Benchmark benchmark_cmd

text \<open>What \<^verbatim>\<open>run\<close> starts once the runner has the specification: the runtime a service is built with, or a
  tool that needs none; \<open>Inl\<close> is the error it returns instead.\<close>

datatype node_action =
  PrintSpec
| CheckBlockWith runtime_name
| KeyTool
| SignTool
| VerifyTool
| VanityTool
| BenchmarkPallet runtime_name
| BenchmarkMachine
| StartNode runtime_name

definition run :: "('ac, 'aura, 'gran) chain_spec \<Rightarrow> subcommand option \<Rightarrow> string + node_action" where
  "run spec sub = (case sub of
     Some BuildSpec \<Rightarrow> Inr PrintSpec
   | Some CheckBlock \<Rightarrow> if is_keiko spec then Inr (CheckBlockWith KeikoRuntime) else Inr (CheckBlockWith LocalRuntime)
   | Some Key \<Rightarrow> Inr KeyTool
   | Some Sign \<Rightarrow> Inr SignTool
   | Some Verify \<Rightarrow> Inr VerifyTool
   | Some Vanity \<Rightarrow> Inr VanityTool
   | Some (Benchmark cmd) \<Rightarrow> (case cmd of
       BenchPallet \<Rightarrow> if is_keiko spec then Inr (BenchmarkPallet KeikoRuntime) else Inr (BenchmarkPallet LocalRuntime)
     | BenchBlock \<Rightarrow> Inl ''Benchmark block not supported.''
     | BenchStorage \<Rightarrow> Inl ''Benchmark storage not supported.''
     | BenchOverhead \<Rightarrow> Inl ''Benchmark overhead not supported.''
     | BenchMachine \<Rightarrow> Inr BenchmarkMachine)
   | None \<Rightarrow> if is_keiko spec then Inr (StartNode KeikoRuntime) else Inr (StartNode LocalRuntime))"

text \<open>The two specifications the code itself builds (\<^verbatim>\<open>keiko-dev\<close> and \<^verbatim>\<open>dev\<close> of \<open>load_spec\<close>), by the
  runtime that executes them. The public network \<^verbatim>\<open>keiko\<close> runs the same runtime from another genesis, which
  the binary reads from \<^verbatim>\<open>res/keiko.raw.json\<close>; theorems about what a network reaches are therefore stated
  for every genesis configuration.\<close>

definition network_spec ::
    "('ac, 'cs, 'o) frame \<Rightarrow> ('ac, 'aura, 'gran) crypto \<Rightarrow> u8 list option \<Rightarrow> runtime_name \<Rightarrow>
     ('ac, 'aura, 'gran) chain_spec" where
  "network_spec F C wasm n = (case n of
     KeikoRuntime \<Rightarrow> keiko_get_chain_spec F C wasm | LocalRuntime \<Rightarrow> local_development_config F C wasm)"

definition network_runtime ::
    "('ac, 'cs, 'o) frame \<Rightarrow> 'ac platform \<Rightarrow> runtime_name \<Rightarrow> ('ac, 'cs, 'o) runtime" where
  "network_runtime F P n = (case n of KeikoRuntime \<Rightarrow> keiko_runtime F P | LocalRuntime \<Rightarrow> local_runtime F P)"

section \<open>The first state is a good state\<close>

lemma keiko_genesis_fields:
  assumes "keiko_make_genesis F wasm root endowed auths rgs = Some g"
  shows "g_reward_config g = \<lparr>providers_percent = perbill_from_percent F 100, validators_percent = perbill_from_percent F 0\<rparr>"
    and "g_desired_candidates g = 200" and "g_invulnerables g = map fst auths"
    and "g_chain_ids g = [as_bytes ''eth.mainnet'', as_bytes ''dot.mainnet'']"
  using assms by (auto simp: keiko_make_genesis_def split: option.splits)

lemma local_genesis_fields:
  assumes "local_make_genesis F wasm root endowed auths rgs = Some g"
  shows "g_reward_config g = \<lparr>providers_percent = perbill_from_percent F 50, validators_percent = perbill_from_percent F 50\<rparr>"
    and "g_desired_candidates g = 200" and "g_invulnerables g = map fst auths"
    and "g_chain_ids g = [as_bytes ''eth.mainnet'', as_bytes ''dot.mainnet'']"
  using assms by (auto simp: local_make_genesis_def split: option.splits)

lemma network_config [simp]:
  "MaxChainIdLength (rt_dapi (network_runtime F P n)) = 64"
  "MaxInvulnerables (rt_validators (network_runtime F P n)) = 20"
  "MaxCandidates (rt_validators (network_runtime F P n)) = 200"
  by (cases n; simp add: network_runtime_def keiko_runtime_def local_runtime_def keiko_dapi_config_def
      local_dapi_config_def keiko_validator_config_def local_validator_config_def)+

lemma percents_valid:
  assumes "perbill_ok F" and "unat m + unat n = 100"
  shows "distribution_is_valid F \<lparr>providers_percent = perbill_from_percent F m, validators_percent = perbill_from_percent F n\<rparr>"
proof -
  have "m \<le> 100" "n \<le> 100" using assms(2) by (simp_all add: word_le_nat_alt)
  then have "unat (perbill_from_percent F m) = unat m * 10000000" "unat (perbill_from_percent F n) = unat n * 10000000"
    using assms(1) by (auto simp: perbill_ok_def)
  then show ?thesis using assms by (simp add: distribution_is_valid_iff)
qed

lemma network_genesis:
  assumes pb: "perbill_ok F" and "sp_genesis (network_spec F C wasm n) = Some g"
  shows "\<exists>s. genesis_build F (network_runtime F P n) cs g = Some s"
proof -
  have inv: "\<exists>a. g_invulnerables g = [a]" and des: "g_desired_candidates g = 200"
    and ids: "g_chain_ids g = [as_bytes ''eth.mainnet'', as_bytes ''dot.mainnet'']"
    and val: "distribution_is_valid F (g_reward_config g)"
    using assms(2) percents_valid [OF pb, of 100 0] percents_valid [OF pb, of 50 50]
    by (cases n; auto simp: network_spec_def keiko_get_chain_spec_def local_development_config_def
        keiko_genesis_fields local_genesis_fields split: option.splits)+
  show ?thesis
    using inv
    by (auto simp: genesis_build_def dapi_genesis_build_def validator_genesis_build_def reward_genesis_build_def
        ids des val bounded_chain_id_def as_bytes_def)
qed

lemma genesis_state:
  assumes "genesis_build F R cs g = Some s"
  shows "chain_inv F R s" and "covered F s"
proof -
  have "staking_inv (rs_staking s)" and "owed (rs_staking s) a = 0" for a
    using assms staking_inv_genesis by (auto simp: genesis_build_def owed_def staking_genesis_def
        unbonding_of_def get_or_def split: option.splits)
  moreover have "validator_inv (rs_validators s)" and "candidate_owed (rs_validators s) a = 0"
    and "reward_inv F (rs_reward s)" and "rs_others s a = 0" for a
    using assms by (auto simp: genesis_build_def validator_genesis_build_def validator_inv_def
        candidate_owed_def reward_genesis_build_def reward_inv_def split: option.splits if_splits)
  moreover have "dapi_inv (rt_dapi R) (rs_dapi s)"
    using assms by (auto simp: genesis_build_def dest: dapi_genesis_inv split: option.splits)
  moreover have "in_step staking_status (rs_world s, rs_dapi s)"
    using assms by (auto simp: genesis_build_def dapi_genesis_build_def in_step_def staking_status_def
        rs_world_def staking_genesis_def expected_status_def fun_eq_iff split: option.splits)
  ultimately show "chain_inv F R s" and "covered F s" by (simp_all add: chain_inv_def covered_def)
qed

section \<open>Networks\<close>

interpretation network: wired_runtime F "network_runtime F P n" "pallet_account P ''valdtset''" for F P n
  by (cases n) (simp_all add: network_runtime_def keiko.wired_runtime_axioms local.wired_runtime_axioms)

text \<open>A state that the runtime of a network reaches from the genesis configuration \<open>g\<close>, over any first
  storage of the balances pallet and by any steps that \<open>step_ok\<close> admits: all but a \<^verbatim>\<open>provider_bond_less\<close>
  whose sum \<^verbatim>\<open>amount + MinProviderStake\<close> wraps around, which the code accepts and whose effect is the
  theorem \<open>bond_less_wraps\<close>, and steps of other pallets that break the contract of their own.\<close>

definition network_reaches ::
    "('ac, 'cs, 'o) frame \<Rightarrow> ('ac, 'aura, 'gran) genesis_config \<Rightarrow> 'ac platform \<Rightarrow> runtime_name \<Rightarrow>
     ('ac, 'cs) runtime_state \<Rightarrow> bool" where
  "network_reaches F g P n s \<longleftrightarrow> (\<exists>cs s0.
     genesis_build F (network_runtime F P n) cs g = Some s0 \<and>
     runtime_run F (network_runtime F P n) (step_ok F (network_runtime F P n)) s0 s)"

lemma network_reaches_inv:
  assumes "network_reaches F g P n s" and "currency_ok F"
  shows "chain_inv F (network_runtime F P n) s"
  using assms by (auto simp: network_reaches_def intro: network.run_inv genesis_state(1))

lemma network_reaches_covered:
  assumes "network_reaches F g P n s" and "currency_ok F" and "perbill_ok F"
  shows "covered F s"
  using assms genesis_state network.run_covered by (fastforce simp: network_reaches_def)

lemma network_reaches_step:
  assumes "network_reaches F g P n s" and "step_ok F (network_runtime F P n) s e"
    and "runtime_exec F (network_runtime F P n) e s = Inr s'"
  shows "network_reaches F g P n s'"
  using assms by (auto simp: network_reaches_def intro: chain_step)

end
