(* ===== verification/Node_Service.thy ===== *)
theory Node_Service
  imports Chain_Spec
begin

text \<open>
  \<^verbatim>\<open>node/src/service.rs\<close> and \<^verbatim>\<open>node/src/rpc.rs\<close>: how a node is put together and started. The client,
  the transaction pool, the network, the consensus engines and the telemetry are libraries; they are
  the functions of one record, and what they return is opaque (\<open>'h\<close>). The model keeps what this code
  decides: which services are built with which parameters, in which order, which error stops the
  start, and which background tasks run in the end.
\<close>

section \<open>Effects\<close>

text \<open>A background task of the task manager.\<close>

record task =
  task_name :: string
  task_group :: "string option"
  task_essential :: bool
  task_blocking :: bool

text \<open>What the start does to the outside, in order. Tasks that a library spawns on its own, through the
  handles it is given (the pool, the import queue, the network), are not part of this.\<close>

datatype node_event =
  Spawned task
| OffchainWorkersBuilt
| NetworkBuilt
| RpcTasksSpawned
| NetworkStarted

text \<open>A computation that can return, fail with a service error or panic; what it did before stays done.\<close>

datatype ('e, 'a) outcome = Done 'a | Failed 'e | Panicked

type_synonym ('e, 'a) start = "node_event list \<Rightarrow> ('e, 'a) outcome \<times> node_event list"

definition ret :: "'a \<Rightarrow> ('e, 'a) start" where
  "ret x = (\<lambda>log. (Done x, log))"

definition perform :: "node_event \<Rightarrow> ('e, unit) start" where
  "perform ev = (\<lambda>log. (Done (), log @ [ev]))"

text \<open>The operator \<^verbatim>\<open>?\<close> on a result of a library, and \<^verbatim>\<open>expect\<close> on an optional value.\<close>

definition attempt :: "'e + 'a \<Rightarrow> ('e, 'a) start" where
  "attempt r = (\<lambda>log. ((case r of Inl e \<Rightarrow> Failed e | Inr x \<Rightarrow> Done x), log))"

definition expect :: "'a option \<Rightarrow> ('e, 'a) start" where
  "expect r = (\<lambda>log. ((case r of None \<Rightarrow> Panicked | Some x \<Rightarrow> Done x), log))"

definition and_then :: "('e, 'a) start \<Rightarrow> ('a \<Rightarrow> ('e, 'b) start) \<Rightarrow> ('e, 'b) start" where
  "and_then m f = (\<lambda>log. case m log of
     (Done x, log') \<Rightarrow> f x log'
   | (Failed e, log') \<Rightarrow> (Failed e, log')
   | (Panicked, log') \<Rightarrow> (Panicked, log'))"

section \<open>Configuration and libraries\<close>

text \<open>The fields of \<^verbatim>\<open>Configuration\<close> the code reads.\<close>

record ('r, 'h) configuration =
  chain_spec_of :: 'h
  telemetry_endpoints :: "'h list option"
  wasm_method :: 'h
  default_heap_pages :: "u64 option"
  max_runtime_instances :: nat
  runtime_cache_size :: u8
  pool_options :: 'h
  prometheus_registry :: "'h option"
  role :: 'r
  force_authoring :: bool
  disable_grandpa :: bool
  offchain_worker_enabled :: bool
  node_name :: string
  extra_sets :: "'h list"

text \<open>What the node gives the authoring loop, the block import and the finality voter.\<close>

record 'h import_queue_params =
  iq_block_import :: 'h
  iq_justification_import :: "'h option"
  iq_client :: 'h
  iq_inherents :: "'h \<Rightarrow> 'h \<times> 'h"
  iq_can_author_with :: 'h
  iq_registry :: "'h option"
  iq_telemetry :: "'h option"

record 'h aura_params =
  au_slot_duration :: 'h
  au_client :: 'h
  au_select_chain :: 'h
  au_block_import :: 'h
  au_proposer :: 'h
  au_inherents :: "'h \<Rightarrow> 'h \<times> 'h"
  au_force_authoring :: bool
  au_backoff :: "unit option"
  au_keystore :: 'h
  au_can_author_with :: 'h
  au_sync_oracle :: 'h
  au_slot_portion :: 'h
  au_max_slot_portion :: "'h option"
  au_telemetry :: "'h option"

record ('r, 'h) grandpa_params =
  gp_gossip_millis :: nat
  gp_justification_period :: u32
  gp_name :: "string option"
  gp_observer_enabled :: bool
  gp_keystore :: "'h option"
  gp_local_role :: 'r
  gp_protocol_name :: 'h
  gp_link :: 'h
  gp_network :: 'h
  gp_voting_rule :: 'h
  gp_registry :: "'h option"
  gp_voter_state :: 'h
  gp_telemetry :: "'h option"

text \<open>The libraries. Fallible functions return \<open>Inl\<close> of the service error.\<close>

record ('e, 'r, 'h) node_libs =
  is_authority :: "'r \<Rightarrow> bool"
  telemetry_worker_new :: "nat \<Rightarrow> 'e + 'h"
  new_telemetry :: "'h \<Rightarrow> 'h list \<Rightarrow> 'h"
  telemetry_handle :: "'h \<Rightarrow> 'h"
  executor_new :: "'h \<Rightarrow> u64 option \<Rightarrow> nat \<Rightarrow> u8 \<Rightarrow> 'h"
  new_full_parts :: "('r, 'h) configuration \<Rightarrow> 'h option \<Rightarrow> 'h \<Rightarrow> 'e + ('h \<times> 'h \<times> 'h)"
  longest_chain_new :: "'h \<Rightarrow> 'h"
  pool_new_full :: "'h \<Rightarrow> bool \<Rightarrow> 'h option \<Rightarrow> 'h \<Rightarrow> 'h"
  grandpa_block_import :: "'h \<Rightarrow> 'h \<Rightarrow> 'h option \<Rightarrow> 'e + ('h \<times> 'h)"
  slot_duration :: "'h \<Rightarrow> 'e + 'h"
  slot_from_timestamp :: "'h \<Rightarrow> 'h \<Rightarrow> 'h"
  can_author_with_native :: "'h \<Rightarrow> 'h"
  aura_import_queue :: "'h import_queue_params \<Rightarrow> 'e + 'h"
  block_hash_0 :: "'h \<Rightarrow> 'h option"
  protocol_standard_name :: "'h \<Rightarrow> 'h \<Rightarrow> 'h"
  grandpa_peers_set_config :: "'h \<Rightarrow> 'h"
  warp_sync_provider :: "'h \<Rightarrow> 'h \<Rightarrow> 'h"
  build_network :: "('r, 'h) configuration \<Rightarrow> 'h \<Rightarrow> 'h \<Rightarrow> 'h \<Rightarrow> 'h \<Rightarrow> 'e + ('h \<times> 'h)"
  sync_keystore :: "'h \<Rightarrow> 'h"
  system_rpc :: "'h \<Rightarrow> 'h \<Rightarrow> bool \<Rightarrow> 'h"
  payment_rpc :: "'h \<Rightarrow> 'h"
  rpc_merge :: "'h list \<Rightarrow> 'h \<Rightarrow> 'e + 'h list"
  spawn_tasks :: "('r, 'h) configuration \<Rightarrow> 'h \<Rightarrow> 'h \<Rightarrow> 'h \<Rightarrow> (bool \<Rightarrow> 'e + 'h list) \<Rightarrow> 'h \<Rightarrow> 'h \<Rightarrow> 'h option \<Rightarrow> 'e + 'h"
  proposer_factory_new :: "'h \<Rightarrow> 'h \<Rightarrow> 'h option \<Rightarrow> 'h option \<Rightarrow> 'h"
  slot_proportion :: "nat \<Rightarrow> nat \<Rightarrow> 'h"
  start_aura :: "'h aura_params \<Rightarrow> 'e + 'h"
  default_voting_rule :: 'h
  empty_voter_state :: 'h
  run_grandpa_voter :: "('r, 'h) grandpa_params \<Rightarrow> 'e + 'h"

section \<open>RPC\<close>

record 'h full_deps =
  fd_client :: 'h
  fd_pool :: 'h
  fd_deny_unsafe :: bool

text \<open>A module is the list of what was merged into it; \<open>rpc_merge\<close> fails on a name that is already there.\<close>

definition create_full :: "('e, 'r, 'h) node_libs \<Rightarrow> 'h full_deps \<Rightarrow> 'e + 'h list" where
  "create_full L deps =
     (let m = [];
          client = fd_client deps; pool = fd_pool deps; deny_unsafe = fd_deny_unsafe deps in
      case rpc_merge L m (system_rpc L client pool deny_unsafe) of Inl err \<Rightarrow> Inl err
      | Inr m1 \<Rightarrow> (case rpc_merge L m1 (payment_rpc L client) of Inl err \<Rightarrow> Inl err
      | Inr m2 \<Rightarrow> Inr m2))"

section \<open>The service\<close>

record 'h partial_components =
  pc_client :: 'h
  pc_backend :: 'h
  pc_import_queue :: 'h
  pc_keystore_container :: 'h
  pc_select_chain :: 'h
  pc_transaction_pool :: 'h
  pc_block_import :: 'h
  pc_grandpa_link :: 'h
  pc_telemetry :: "'h option"

text \<open>The closure that makes the inherent data of a block: the system time and the slot it falls into.\<close>

definition create_inherent_data_providers :: "('e, 'r, 'h) node_libs \<Rightarrow> 'h \<Rightarrow> 'h \<Rightarrow> 'h \<times> 'h" where
  "create_inherent_data_providers L duration timestamp =
     (timestamp, slot_from_timestamp L timestamp duration)"

definition telemetry_task :: task where
  "telemetry_task = \<lparr>task_name = ''telemetry'', task_group = None, task_essential = False, task_blocking = False\<rparr>"

definition aura_task :: task where
  "aura_task = \<lparr>task_name = ''aura'', task_group = Some ''block-authoring'', task_essential = True, task_blocking = True\<rparr>"

definition grandpa_task :: task where
  "grandpa_task = \<lparr>task_name = ''grandpa-voter'', task_group = None, task_essential = True, task_blocking = True\<rparr>"

definition new_telemetry_worker ::
    "('e, 'r, 'h) node_libs \<Rightarrow> ('r, 'h) configuration \<Rightarrow> ('e, ('h \<times> 'h) option) start" where
  "new_telemetry_worker L config =
     (case telemetry_endpoints config of
        None \<Rightarrow> ret None
      | Some endpoints \<Rightarrow>
          if endpoints = [] then ret None
          else and_then (attempt (telemetry_worker_new L 16))
                 (\<lambda>worker. ret (Some (worker, new_telemetry L worker endpoints))))"

definition new_partial ::
    "('e, 'r, 'h) node_libs \<Rightarrow> ('r, 'h) configuration \<Rightarrow> ('e, 'h partial_components) start" where
  "new_partial L config =
     and_then (new_telemetry_worker L config) (\<lambda>worker_telemetry.
     let handle = map_option (\<lambda>(_, t). telemetry_handle L t) worker_telemetry;
         executor = executor_new L (wasm_method config) (default_heap_pages config)
           (max_runtime_instances config) (runtime_cache_size config) in
     and_then (attempt (new_full_parts L config handle executor)) (\<lambda>(client, backend, keystore_container).
     and_then (case worker_telemetry of
                 None \<Rightarrow> ret None
               | Some (_, t) \<Rightarrow> and_then (perform (Spawned telemetry_task)) (\<lambda>_. ret (Some t))) (\<lambda>telemetry.
     let select_chain = longest_chain_new L backend;
         transaction_pool = pool_new_full L (pool_options config) (is_authority L (role config))
           (prometheus_registry config) client in
     and_then (attempt (grandpa_block_import L client select_chain (map_option (telemetry_handle L) telemetry)))
       (\<lambda>(block_import, grandpa_link).
     and_then (attempt (slot_duration L client)) (\<lambda>duration.
     and_then (attempt (aura_import_queue L \<lparr>
         iq_block_import = block_import,
         iq_justification_import = Some block_import,
         iq_client = client,
         iq_inherents = create_inherent_data_providers L duration,
         iq_can_author_with = can_author_with_native L client,
         iq_registry = prometheus_registry config,
         iq_telemetry = map_option (telemetry_handle L) telemetry\<rparr>)) (\<lambda>import_queue.
     ret \<lparr>pc_client = client, pc_backend = backend, pc_import_queue = import_queue,
       pc_keystore_container = keystore_container, pc_select_chain = select_chain,
       pc_transaction_pool = transaction_pool, pc_block_import = block_import,
       pc_grandpa_link = grandpa_link, pc_telemetry = telemetry\<rparr>))))))"

text \<open>The block under \<^verbatim>\<open>if role.is_authority()\<close>.\<close>

definition start_authoring ::
    "('e, 'r, 'h) node_libs \<Rightarrow> ('r, 'h) configuration \<Rightarrow> 'h partial_components \<Rightarrow> 'h \<Rightarrow> ('e, unit) start" where
  "start_authoring L config pc network =
     (let client = pc_client pc;
          telemetry = map_option (telemetry_handle L) (pc_telemetry pc);
          proposer_factory = proposer_factory_new L client (pc_transaction_pool pc)
            (prometheus_registry config) telemetry;
          can_author_with = can_author_with_native L client in
      and_then (attempt (slot_duration L client)) (\<lambda>duration.
      and_then (attempt (start_aura L \<lparr>
          au_slot_duration = duration,
          au_client = client,
          au_select_chain = pc_select_chain pc,
          au_block_import = pc_block_import pc,
          au_proposer = proposer_factory,
          au_inherents = create_inherent_data_providers L duration,
          au_force_authoring = force_authoring config,
          au_backoff = None,
          au_keystore = sync_keystore L (pc_keystore_container pc),
          au_can_author_with = can_author_with,
          au_sync_oracle = network,
          au_slot_portion = slot_proportion L 2 3,
          au_max_slot_portion = None,
          au_telemetry = telemetry\<rparr>)) (\<lambda>_.
      perform (Spawned aura_task))))"

definition grandpa_params_of ::
    "('e, 'r, 'h) node_libs \<Rightarrow> ('r, 'h) configuration \<Rightarrow> 'h partial_components \<Rightarrow> 'h \<Rightarrow> 'h \<Rightarrow> ('r, 'h) grandpa_params" where
  "grandpa_params_of L config pc network protocol_name = \<lparr>
     gp_gossip_millis = 333,
     gp_justification_period = 512,
     gp_name = Some (node_name config),
     gp_observer_enabled = False,
     gp_keystore = (if is_authority L (role config)
                    then Some (sync_keystore L (pc_keystore_container pc)) else None),
     gp_local_role = role config,
     gp_protocol_name = protocol_name,
     gp_link = pc_grandpa_link pc,
     gp_network = network,
     gp_voting_rule = default_voting_rule L,
     gp_registry = prometheus_registry config,
     gp_voter_state = empty_voter_state L,
     gp_telemetry = map_option (telemetry_handle L) (pc_telemetry pc)\<rparr>"

definition start_node_impl :: "('e, 'r, 'h) node_libs \<Rightarrow> ('r, 'h) configuration \<Rightarrow> ('e, unit) start" where
  "start_node_impl L config =
     and_then (new_partial L config) (\<lambda>pc.
     let client = pc_client pc in
     and_then (expect (block_hash_0 L client)) (\<lambda>genesis_hash.
     let protocol_name = protocol_standard_name L genesis_hash (chain_spec_of config);
         config1 = config\<lparr>extra_sets := extra_sets config @ [grandpa_peers_set_config L protocol_name]\<rparr>;
         warp_sync = warp_sync_provider L (pc_backend pc) (pc_grandpa_link pc) in
     and_then (attempt (build_network L config1 client (pc_transaction_pool pc) (pc_import_queue pc) warp_sync))
       (\<lambda>(network, system_rpc_tx).
     and_then (perform NetworkBuilt) (\<lambda>_.
     and_then (if offchain_worker_enabled config1 then perform OffchainWorkersBuilt else ret ()) (\<lambda>_.
     let enable_grandpa = \<not> disable_grandpa config1;
         rpc_extensions_builder = (\<lambda>deny_unsafe. create_full L
           \<lparr>fd_client = client, fd_pool = pc_transaction_pool pc, fd_deny_unsafe = deny_unsafe\<rparr>) in
     and_then (attempt (spawn_tasks L config1 network client (sync_keystore L (pc_keystore_container pc))
         rpc_extensions_builder (pc_backend pc) system_rpc_tx (pc_telemetry pc))) (\<lambda>_.
     and_then (perform RpcTasksSpawned) (\<lambda>_.
     and_then (if is_authority L (role config1) then start_authoring L config1 pc network else ret ()) (\<lambda>_.
     and_then (if enable_grandpa
               then and_then (attempt (run_grandpa_voter L (grandpa_params_of L config1 pc network protocol_name)))
                      (\<lambda>_. perform (Spawned grandpa_task))
               else ret ()) (\<lambda>_.
     perform NetworkStarted)))))))))"

text \<open>The libraries are generic in the runtime: \<open>L\<close> gives the instance for each.\<close>

definition start_local_node ::
    "(runtime_name \<Rightarrow> ('e, 'r, 'h) node_libs) \<Rightarrow> ('r, 'h) configuration \<Rightarrow> ('e, unit) start" where
  "start_local_node L config = start_node_impl (L LocalRuntime) config"

definition start_keiko_node ::
    "(runtime_name \<Rightarrow> ('e, 'r, 'h) node_libs) \<Rightarrow> ('r, 'h) configuration \<Rightarrow> ('e, unit) start" where
  "start_keiko_node L config = start_node_impl (L KeikoRuntime) config"

text \<open>The branch of \<^verbatim>\<open>run\<close> without a subcommand.\<close>

definition run_node ::
    "(runtime_name \<Rightarrow> ('e, 'r, 'h) node_libs) \<Rightarrow> ('ac, 'aura, 'gran) chain_spec \<Rightarrow> ('r, 'h) configuration \<Rightarrow> ('e, unit) start" where
  "run_node L spec config = (if is_keiko spec then start_keiko_node L config else start_local_node L config)"

section \<open>What a start does\<close>

lemma ret_run [simp]: "ret x log = (Done x, log)"
  and perform_run [simp]: "perform ev log = (Done (), log @ [ev])"
  and attempt_run [simp]: "attempt r log = ((case r of Inl e \<Rightarrow> Failed e | Inr x \<Rightarrow> Done x), log)"
  and expect_run [simp]: "expect opt log = ((case opt of None \<Rightarrow> Panicked | Some x \<Rightarrow> Done x), log)"
  by (simp_all add: ret_def perform_def attempt_def expect_def)

text \<open>\<open>appends P m\<close>: whatever happens, \<open>m\<close> only adds to what was done before, and only events of \<open>P\<close>.\<close>

definition appends :: "(node_event \<Rightarrow> bool) \<Rightarrow> ('e, 'a) start \<Rightarrow> bool" where
  "appends P m \<longleftrightarrow> (\<forall>log. \<exists>evs. snd (m log) = log @ evs \<and> list_all P evs)"

named_theorems appends_intros \<open>computations that do only what is allowed\<close>

lemma appends_ret [appends_intros]: "appends P (ret x)"
  and appends_attempt [appends_intros]: "appends P (attempt r)"
  and appends_expect [appends_intros]: "appends P (expect opt)"
  by (auto simp: appends_def)

lemma appends_perform [appends_intros]: "P ev \<Longrightarrow> appends P (perform ev)"
  by (auto simp: appends_def)

lemma appends_and_then [appends_intros]:
  assumes "appends P m" and "\<And>x. appends P (f x)"
  shows "appends P (and_then m f)"
  unfolding appends_def
proof
  fix log
  obtain evs where evs: "snd (m log) = log @ evs" "list_all P evs"
    using assms(1) by (auto simp: appends_def)
  have "\<exists>evs'. snd (f x (log @ evs)) = log @ evs @ evs' \<and> list_all P evs'" for x
    using assms(2) [of x, unfolded appends_def, rule_format, of "log @ evs"] by simp
  with evs show "\<exists>evs. snd (and_then m f log) = log @ evs \<and> list_all P evs"
    by (cases "m log"; cases "fst (m log)") (fastforce simp: and_then_def)+
qed

lemma appends_if [appends_intros]: "(b \<Longrightarrow> appends P m) \<Longrightarrow> (\<not> b \<Longrightarrow> appends P m') \<Longrightarrow> appends P (if b then m else m')"
  and appends_option [appends_intros]: "appends P m \<Longrightarrow> (\<And>x. appends P (f x)) \<Longrightarrow> appends P (case opt of None \<Rightarrow> m | Some x \<Rightarrow> f x)"
  and appends_prod [appends_intros]: "(\<And>x y. appends P (g x y)) \<Longrightarrow> appends P (case xy of (x, y) \<Rightarrow> g x y)"
  and appends_let [appends_intros]: "(\<And>x. appends P (h x)) \<Longrightarrow> appends P (let x = t in h x)"
  by (simp_all split: option.split prod.split)

lemma and_then_DoneE:
  assumes "and_then m f log = (Done y, log'')"
  obtains x log' where "m log = (Done x, log')" and "f x log' = (Done y, log'')"
  using assms by (cases "m log"; cases "fst (m log)") (auto simp: and_then_def)

lemma and_then_Done [simp]: "m log = (Done x, log') \<Longrightarrow> and_then m f log = f x log'"
  by (simp add: and_then_def)

lemma attempt_Done [simp]: "attempt r log = (Done x, log') \<longleftrightarrow> r = Inr x \<and> log' = log"
  by (auto split: sum.splits)

lemma expect_Done [simp]: "expect opt log = (Done x, log') \<longleftrightarrow> opt = Some x \<and> log' = log"
  by (auto split: option.splits)

text \<open>Telemetry is on when there are endpoints.\<close>

definition telemetry_on :: "('r, 'h) configuration \<Rightarrow> bool" where
  "telemetry_on config \<longleftrightarrow> (\<exists>e es. telemetry_endpoints config = Some (e # es))"

definition partial_events :: "('r, 'h) configuration \<Rightarrow> node_event list" where
  "partial_events config = (if telemetry_on config then [Spawned telemetry_task] else [])"

lemma new_telemetry_worker_Done:
  assumes "new_telemetry_worker L config log = (Done wt, log')"
  shows "log' = log \<and> (wt \<noteq> None \<longleftrightarrow> telemetry_on config)"
  using assms
  by (auto simp: new_telemetry_worker_def telemetry_on_def neq_Nil_conv elim!: and_then_DoneE
      split: option.splits if_splits)

lemma new_partial_Done:
  assumes "new_partial L config log = (Done pc, log')"
  shows "log' = log @ partial_events config"
  using assms unfolding new_partial_def Let_def
  by (auto simp: partial_events_def dest!: new_telemetry_worker_Done elim!: and_then_DoneE
      split: option.splits prod.splits)

lemma new_partial_appends [appends_intros]: "P (Spawned telemetry_task) \<Longrightarrow> appends P (new_partial L config)"
  unfolding new_partial_def new_telemetry_worker_def by (intro appends_intros)

lemma start_authoring_appends [appends_intros]: "P (Spawned aura_task) \<Longrightarrow> appends P (start_authoring L config pc network)"
  unfolding start_authoring_def by (intro appends_intros)

lemma start_authoring_Done:
  assumes "start_authoring L config pc network log = (Done u, log')"
  shows "log' = log @ [Spawned aura_task]"
  using assms by (auto simp: start_authoring_def Let_def elim!: and_then_DoneE)

section \<open>Properties\<close>

text \<open>What a start has done when it succeeds.\<close>

definition start_events :: "('e, 'r, 'h) node_libs \<Rightarrow> ('r, 'h) configuration \<Rightarrow> node_event list" where
  "start_events L config =
     partial_events config @ [NetworkBuilt] @
     (if offchain_worker_enabled config then [OffchainWorkersBuilt] else []) @ [RpcTasksSpawned] @
     (if is_authority L (role config) then [Spawned aura_task] else []) @
     (if disable_grandpa config then [] else [Spawned grandpa_task]) @ [NetworkStarted]"

lemma start_node_impl_Done:
  assumes "start_node_impl L config [] = (Done u, log)"
  shows "log = start_events L config"
  using assms unfolding start_node_impl_def Let_def
  by (auto simp: start_events_def dest!: new_partial_Done start_authoring_Done elim!: and_then_DoneE
      split: if_splits prod.splits)

text \<open>\<open>finishes ev m\<close>: \<open>ev\<close> is the last thing \<open>m\<close> does when it succeeds, and it is not done otherwise.\<close>

definition finishes :: "node_event \<Rightarrow> ('e, 'a) start \<Rightarrow> bool" where
  "finishes ev m \<longleftrightarrow> (\<forall>log. \<exists>evs. ev \<notin> set evs \<and>
     snd (m log) = log @ evs @ (case fst (m log) of Done _ \<Rightarrow> [ev] | _ \<Rightarrow> []))"

lemma finishes_perform: "finishes ev (perform ev)"
  by (simp add: finishes_def)

lemma finishes_and_then:
  assumes "appends ((\<noteq>) ev) m" and "\<And>x. finishes ev (f x)"
  shows "finishes ev (and_then m f)"
  unfolding finishes_def
proof
  fix log
  obtain evs where evs: "snd (m log) = log @ evs" "ev \<notin> set evs"
    using assms(1) by (auto simp: appends_def list_all_iff)
  have "\<exists>evs'. ev \<notin> set evs' \<and> snd (f x (log @ evs)) =
      (log @ evs) @ evs' @ (case fst (f x (log @ evs)) of Done _ \<Rightarrow> [ev] | _ \<Rightarrow> [])" for x
    using assms(2) [of x, unfolded finishes_def, rule_format, of "log @ evs"] by blast
  then obtain g where g: "ev \<notin> set (g x) \<and> snd (f x (log @ evs)) =
      (log @ evs) @ g x @ (case fst (f x (log @ evs)) of Done _ \<Rightarrow> [ev] | _ \<Rightarrow> [])" for x
    by metis
  show "\<exists>evs. ev \<notin> set evs \<and> snd (and_then m f log) =
      log @ evs @ (case fst (and_then m f log) of Done _ \<Rightarrow> [ev] | _ \<Rightarrow> [])"
  proof (cases "fst (m log)")
    case (Done x)
    then have "and_then m f log = f x (log @ evs)" using evs by (cases "m log") simp
    then show ?thesis using g [of x] evs by (intro exI [of _ "evs @ g x"]) simp
  qed (use evs in \<open>cases "m log"; fastforce simp: and_then_def\<close>)+
qed

lemma finishes_prod: "(\<And>x y. finishes ev (g x y)) \<Longrightarrow> finishes ev (case xy of (x, y) \<Rightarrow> g x y)"
  and finishes_let: "(\<And>x. finishes ev (h x)) \<Longrightarrow> finishes ev (let x = t in h x)"
  by (simp_all split: prod.split)

lemma start_node_impl_finishes: "finishes NetworkStarted (start_node_impl L config)"
  unfolding start_node_impl_def
  by (intro finishes_and_then finishes_prod finishes_let finishes_perform appends_intros) simp_all

lemma start_node_impl_appends:
  assumes "P (Spawned telemetry_task)" "P NetworkBuilt" "P OffchainWorkersBuilt" "P RpcTasksSpawned"
    and "is_authority L (role config) \<Longrightarrow> P (Spawned aura_task)"
    and "\<not> disable_grandpa config \<Longrightarrow> P (Spawned grandpa_task)" and "P NetworkStarted"
  shows "appends P (start_node_impl L config)"
  unfolding start_node_impl_def Let_def by (intro appends_intros) (use assms in simp_all)

text \<open>The runtime the command line picks is the one that is started.\<close>

lemma run_node_impl:
  obtains n where "run spec None = Inr (StartNode n)" and "run_node L spec config = start_node_impl (L n) config"
  by (cases "is_keiko spec") (auto simp: run_def run_node_def start_keiko_node_def start_local_node_def)

text \<open>Libraries that always answer, on numbers.\<close>

definition demo_libs :: "runtime_name \<Rightarrow> (unit, bool, nat) node_libs" where
  "demo_libs n = \<lparr>
     is_authority = (\<lambda>r. r), telemetry_worker_new = Inr, new_telemetry = (\<lambda>w es. w + length es),
     telemetry_handle = Suc, executor_new = (\<lambda>m hp i c. m), new_full_parts = (\<lambda>c t x. Inr (x, 1, 2)),
     longest_chain_new = Suc, pool_new_full = (\<lambda>p a r c. p), grandpa_block_import = (\<lambda>c s t. Inr (c, s)),
     slot_duration = (\<lambda>c. Inr 12000), slot_from_timestamp = (div), can_author_with_native = Suc,
     aura_import_queue = (\<lambda>q. Inr 3), block_hash_0 = Some, protocol_standard_name = (+),
     grandpa_peers_set_config = Suc, warp_sync_provider = (+), build_network = (\<lambda>g c p q w. Inr (q, w)),
     sync_keystore = Suc, system_rpc = (\<lambda>c p d. c), payment_rpc = Suc, rpc_merge = (\<lambda>ms x. Inr (ms @ [x])),
     spawn_tasks = (\<lambda>g n c k r b x t. Inr 4), proposer_factory_new = (\<lambda>c p r t. c), slot_proportion = (+),
     start_aura = (\<lambda>a. Inr 5), default_voting_rule = 6, empty_voter_state = 7, run_grandpa_voter = (\<lambda>g. Inr 8)\<rparr>"

definition demo_node_config :: "(bool, nat) configuration" where
  "demo_node_config = \<lparr>chain_spec_of = 0, telemetry_endpoints = Some [9], wasm_method = 0, default_heap_pages = None,
     max_runtime_instances = 8, runtime_cache_size = 2, pool_options = 0, prometheus_registry = None, role = True,
     force_authoring = False, disable_grandpa = False, offchain_worker_enabled = True, node_name = ''demo'',
     extra_sets = []\<rparr>"

definition demo_spec :: "(nat, nat, nat) chain_spec" where
  "demo_spec = \<lparr>sp_name = ''Keiko'', sp_id = ''keiko'', sp_chain_type = Live, sp_genesis = None, sp_properties = (''KEI'', 18)\<rparr>"

text \<open>The same libraries with a voter that cannot be started.\<close>

definition broken_libs :: "runtime_name \<Rightarrow> (unit, bool, nat) node_libs" where
  "broken_libs n = (demo_libs n)\<lparr>run_grandpa_voter := (\<lambda>g. Inl ())\<rparr>"

text \<open>C35: Whatever the libraries do, the network is started as the very last action of a successful
  start and never by a start that fails or panics. A successful start has built exactly what the
  configuration asks for, in this order, and a failed one never runs block authoring on a node without the
  authority role or a finality voter that was switched off.\<close>

theorem start_node_all_or_nothing:
  "\<exists>n r log. run spec None = Inr (StartNode n) \<and> run_node L spec config [] = (r, log) \<and>
     (if r = Done () then log = start_events (L n) config else NetworkStarted \<notin> set log) \<and>
     (is_authority (L n) (role config) \<or> Spawned aura_task \<notin> set log) \<and>
     (disable_grandpa config \<longrightarrow> Spawned grandpa_task \<notin> set log)"
proof -
  obtain n where n: "run spec None = Inr (StartNode n)"
    and impl: "run_node L spec config = start_node_impl (L n) config" by (rule run_node_impl)
  obtain r log where run: "start_node_impl (L n) config [] = (r, log)" by fastforce
  have "log = start_events (L n) config" if "r = Done ()"
    using run that by (simp add: start_node_impl_Done)
  moreover have "NetworkStarted \<notin> set log" if "r \<noteq> Done ()"
    using start_node_impl_finishes [of "L n" config, unfolded finishes_def, rule_format, of "[]"] run that
    by (cases r) auto
  moreover have "Spawned aura_task \<notin> set log" if "\<not> is_authority (L n) (role config)"
    using start_node_impl_appends [of "(\<noteq>) (Spawned aura_task)" "L n" config] run that
    by (auto simp: appends_def list_all_iff aura_task_def telemetry_task_def grandpa_task_def dest!: spec [of _ "[]"])
  moreover have "Spawned grandpa_task \<notin> set log" if "disable_grandpa config"
    using start_node_impl_appends [of "(\<noteq>) (Spawned grandpa_task)" "L n" config] run that
    by (auto simp: appends_def list_all_iff aura_task_def telemetry_task_def grandpa_task_def dest!: spec [of _ "[]"])
  ultimately show ?thesis using n impl run by auto
qed

theorem start_node_all_or_nothing_witness:
  "fst (run_node broken_libs demo_spec (demo_node_config\<lparr>role := False\<rparr>) []) = Failed () \<and>
   NetworkStarted \<notin> set (snd (run_node broken_libs demo_spec (demo_node_config\<lparr>role := False\<rparr>) [])) \<and>
   Spawned aura_task \<notin> set (snd (run_node broken_libs demo_spec (demo_node_config\<lparr>role := False\<rparr>) []))"
proof -
  have "fst (run_node broken_libs demo_spec (demo_node_config\<lparr>role := False\<rparr>) []) = Failed ()" by code_simp
  with start_node_all_or_nothing [of demo_spec broken_libs "demo_node_config\<lparr>role := False\<rparr>"] show ?thesis
    by (auto simp: broken_libs_def demo_libs_def)
qed

end
