(* ===== verification/Runtime_Props.thy ===== *)
theory Runtime_Props
  imports Chain_Spec
begin

text \<open>
  The correctness theorems of the composed runtimes, over every chain that starts from the genesis
  of one of the two networks, with concrete chains of the development network at which they are
  evaluated.
\<close>

section \<open>A concrete chain\<close>

definition demo_crypto :: "(nat, nat, nat) crypto" where
  "demo_crypto = \<lparr>
     sr25519_from_string = map_of [(''//Alice'', 1), (''//Bob'', 2), (''//Charlie'', 3), (''//Dave'', 4),
       (''//Eve'', 5), (''//Ferdie'', 6)],
     aura_from_string = map_of [(''//Alice'', 11)],
     grandpa_from_string = map_of [(''//Alice'', 12)],
     from_ss58check = (\<lambda>s. Some (length s))\<rparr>"

definition demo_platform :: "nat platform" where
  "demo_platform = \<lparr>pallet_account = (\<lambda>i. if i = ''valdtset'' then 100 else 101),
     DbWeight = demo_db_weight, ExtrinsicBaseWeight = 125000000\<rparr>"

definition demo_balances :: ledger where
  "demo_balances = \<lparr>l_free = map (\<lambda>a. (a, 100000 * local_MBTL)) [1, 2, 3, 4, 5, 6] @ [(100, 500), (101, 500)],
     l_reserved = []\<rparr>"

definition demo_runtime :: "(nat, ledger, nat option) runtime" where
  "demo_runtime = network_runtime ledger_frame demo_platform LocalRuntime"

text \<open>Runs a list of steps; \<open>None\<close> when one of them fails.\<close>

fun run_steps ::
    "('ac, 'cs, 'o) frame \<Rightarrow> ('ac, 'cs, 'o) runtime \<Rightarrow> ('ac, 'cs, 'o) runtime_step list \<Rightarrow>
     ('ac, 'cs) runtime_state \<Rightarrow> ('ac, 'cs) runtime_state option" where
  "run_steps F R [] s = Some s"
| "run_steps F R (e # es) s = (case runtime_exec F R e s of Inl _ \<Rightarrow> None | Inr t \<Rightarrow> run_steps F R es t)"

text \<open>The genesis configuration of the development network.\<close>

definition demo_genesis_config :: "(nat, nat, nat) genesis_config" where
  "demo_genesis_config = the (sp_genesis (network_spec ledger_frame demo_crypto (Some []) LocalRuntime))"

definition demo_chain :: "(nat, ledger, nat option) runtime_step list \<Rightarrow> (nat, ledger) runtime_state option" where
  "demo_chain es =
     (case sp_genesis (network_spec ledger_frame demo_crypto (Some []) LocalRuntime) of None \<Rightarrow> None
      | Some g \<Rightarrow> (case genesis_build ledger_frame demo_runtime demo_balances g of None \<Rightarrow> None
          | Some s \<Rightarrow> run_steps ledger_frame demo_runtime es s))"

lemma run_steps_run:
  assumes "run_steps F R es t = Some u" and "\<And>s e. e \<in> set es \<Longrightarrow> ok s e" and "runtime_run F R ok s t"
  shows "runtime_run F R ok s u"
  using assms
proof (induction es arbitrary: t)
  case (Cons e es)
  then obtain v where v: "runtime_exec F R e t = Inr v" "run_steps F R es v = Some u"
    by (auto split: sum.splits)
  have "runtime_run F R ok s v" using chain_step [OF Cons.prems(3) _ v(1)] Cons.prems(2) by simp
  with Cons v show ?case by simp
qed simp

lemma demo_reaches:
  assumes "demo_chain es = Some s" and "\<And>s e. e \<in> set es \<Longrightarrow> step_ok ledger_frame demo_runtime s e"
  shows "network_reaches ledger_frame demo_genesis_config demo_platform LocalRuntime s"
  using assms run_steps_run [OF _ assms(2) chain_start]
  unfolding network_reaches_def demo_chain_def demo_runtime_def demo_genesis_config_def
  by (fastforce split: option.splits)

text \<open>Eve, a regulator, registers a provider of Bob's, who deposits; Charlie delegates to it.\<close>

definition demo_provider :: massbit_id where
  "demo_provider = MassbitId_default"

definition demo_registration :: "(nat, ledger, nat option) runtime_step list" where
  "demo_registration =
     [BlockInit, TimestampSet,
      Transaction (Some 5) 5 (DapiCall (DapiRegisterProvider demo_provider Gateway 2 (as_bytes ''eth.mainnet''))),
      Transaction (Some 2) 2 (DapiCall (DepositProvider demo_provider (90 * local_MBTL))),
      Transaction (Some 3) 3 (DapiStakingCall (Call_delegate demo_provider (10 * local_MBTL)))]"

lemma demo_ok: "e \<in> set demo_registration \<Longrightarrow> step_ok ledger_frame demo_runtime s e"
  by (auto simp: demo_registration_def step_ok_def call_fits_def ledger_frame_def)

text \<open>One evaluation of the chain; the theorems below take their values from it.\<close>

lemma demo_values:
  "map_option (\<lambda>s. (ledger_reserved (rs_currency s) 2, ledger_free (rs_currency s) 100, ledger_free (rs_currency s) 101,
      reward_accumulator (rs_staking s), providers_percent (reward_config (rs_reward s)),
      sget (providers (rs_dapi s)) demo_provider, is_active_provider (rs_staking s) demo_provider,
      invulnerables (rs_validators s), regulators (rs_dapi s) = set [5, 6]))
    (demo_chain demo_registration) =
   Some (90000000000000000000, 500000000000000500, 500000000000000500, 500000000000000000, 500000000,
     Some \<lparr>dp_type = Gateway, dp_owner = 2, dp_chain_id = as_bytes ''eth.mainnet'', dp_status = ActiveProvider\<rparr>,
     True, [1], True)"
  by code_simp

definition demo_state :: "(nat, ledger) runtime_state" where
  "demo_state = the (demo_chain demo_registration)"

lemma demo_chain_state: "demo_chain demo_registration = Some demo_state"
  using demo_values by (auto simp: demo_state_def)

lemma demo_state_values:
  "ledger_reserved (rs_currency demo_state) 2 = 90000000000000000000"
  "ledger_free (rs_currency demo_state) 100 = 500000000000000500"
  "ledger_free (rs_currency demo_state) 101 = 500000000000000500"
  "reward_accumulator (rs_staking demo_state) = 500000000000000000"
  "providers_percent (reward_config (rs_reward demo_state)) = 500000000"
  "sget (providers (rs_dapi demo_state)) demo_provider = Some \<lparr>dp_type = Gateway, dp_owner = 2,
     dp_chain_id = as_bytes ''eth.mainnet'', dp_status = ActiveProvider\<rparr>"
  "is_active_provider (rs_staking demo_state) demo_provider"
  "invulnerables (rs_validators demo_state) = [1]"
  "regulators (rs_dapi demo_state) = {5, 6}"
  using demo_values by (simp_all add: demo_chain_state)

lemma demo_state_reached:
  "network_reaches ledger_frame demo_genesis_config demo_platform LocalRuntime demo_state"
  by (rule demo_reaches [OF demo_chain_state demo_ok])

section \<open>Deposits\<close>

text \<open>C1: Solvency of the whole chain. In every state that the runtime of keiko or of the development network
  reaches from any genesis without a call of \<^verbatim>\<open>provider_bond_less\<close> whose sum \<^verbatim>\<open>amount + MinProviderStake\<close>
  wraps around (the code accepts such a call, and \<open>bond_less_wraps\<close> shows that it breaks this), the reserved balance of every account covers what the staking pallet owes it
  (bonds, stakes, unlocking chunks), its candidate bond in the validator pallet and the deposits other
  pallets keep for it, all together: no pallet ever gives out another's deposit. The pallets outside the
  repository change a reserve by what they change in their own deposits.\<close>

theorem chain_solvent:
  assumes "currency_ok F" and "perbill_ok F" and "network_reaches F g P n s"
  shows "owed (rs_staking s) a + candidate_owed (rs_validators s) a + rs_others s a
    \<le> unat (reserved_balance F (rs_currency s) a)"
  using network_reaches_covered [OF assms(3,1,2)] by (simp add: covered_def)

theorem chain_solvent_witness:
  "owed (rs_staking demo_state) 2 + candidate_owed (rs_validators demo_state) 2 + rs_others demo_state 2
     \<le> 90000000000000000000"
  using chain_solvent [OF ledger_currency_ok ledger_perbill_ok demo_state_reached, of 2]
  by (simp add: ledger_frame_def demo_state_values)

section \<open>Providers\<close>

text \<open>C7: The two registries agree. In every state reached without a wrapping \<^verbatim>\<open>provider_bond_less\<close> a provider is active in the staking pallet
  exactly when it is active in the dapi pallet, and a provider both know has the same owner in both.\<close>

theorem registries_agree:
  assumes "currency_ok F" and "network_reaches F g P n s"
  shows "(is_active_provider (rs_staking s) p \<longleftrightarrow>
      (\<exists>pv. sget (providers (rs_dapi s)) p = Some pv \<and> dp_status pv = ActiveProvider)) \<and>
    (\<forall>pv info. sget (providers (rs_dapi s)) p = Some pv \<and> sget (provider_info (rs_staking s)) p = Some info \<longrightarrow>
      dp_owner pv = pm_owner info)"
proof -
  have "staking_status (rs_world s) p = expected_status (rs_dapi s) p"
    using network_reaches_inv [OF assms(2,1)] by (simp add: chain_inv_def in_step_def)
  then show ?thesis
    by (auto simp: staking_status_def rs_world_def expected_status_def is_active_provider_def
        split: option.splits dapi_provider_status.splits)
qed

theorem registries_agree_witness:
  "is_active_provider (rs_staking demo_state) demo_provider \<and>
   (\<exists>pv. sget (providers (rs_dapi demo_state)) demo_provider = Some pv \<and> dp_status pv = ActiveProvider)"
  using registries_agree [OF ledger_currency_ok demo_state_reached, of demo_provider] demo_state_values(7) by simp

text \<open>The owner's call succeeds whenever the registries agree, whatever the balances.\<close>

lemma owner_unregisters:
  assumes inv: "in_step staking_status (rs_world s, rs_dapi s)"
    and "sget (providers (rs_dapi s)) p = Some pv" and "dp_status pv = ActiveProvider"
    and "ensure_signed F o' = Some (dp_owner pv)"
  obtains s' where "apply_extrinsic F (network_runtime F P n) o' (dp_owner pv) (DapiCall (DapiUnregisterProvider p)) s = Inr s'"
    and "\<not> is_active_provider (rs_staking s') p"
    and "sget (providers (rs_dapi s')) p = Some (pv\<lparr>dp_status := InActive UnRegistered\<rparr>)"
proof -
  let ?R = "network_runtime F P n" and ?c = "DapiCall (DapiUnregisterProvider p)"
  obtain w' d' where ex: "dapi_unregister_provider F (rt_dapi ?R) o' p (rs_world s, rs_dapi s) = Inr (w', d')"
    using network.registry.owner_can_unregister [OF inv assms(2-4)] by fastforce
  define s' where "s' = s\<lparr>rs_currency := fst w', rs_staking := snd w', rs_dapi := d'\<rparr>"
  have disp: "runtime_dispatch F ?R o' ?c s = Inr s'"
    using ex by (simp add: runtime_dispatch_def in_dapi_def rs_world_def s'_def split: prod.splits)
  have "rt_filter ?R ?c"
    by (cases n) (simp_all add: network_runtime_def keiko_runtime_def local_runtime_def
        keiko_BaseFilter_contains_def local_BaseFilter_contains_def)
  then have tx: "apply_extrinsic F ?R o' (dp_owner pv) ?c s = Inr s'"
    using disp by (simp add: apply_extrinsic_def is_sub_type_def PreValidate_pre_dispatch_def
        PreValidate_validate_def regulator_call_def)
  have pv': "sget (providers (rs_dapi s')) p = Some (pv\<lparr>dp_status := InActive UnRegistered\<rparr>)"
    using ex assms(2) by (auto simp: s'_def elim!: dapi_unregister_provider_elim)
  have "dapi_exec F (rt_dapi ?R) (o', DapiUnregisterProvider p) (rs_world s, rs_dapi s) = Inr (w', d')"
    using ex by simp
  then have "in_step staking_status (w', d')" by (rule network.registry.exec_in_step [OF inv])
  then have "staking_status w' p = expected_status d' p" by (simp add: in_step_def)
  with pv' have "\<not> is_active_provider (rs_staking s') p"
    by (cases w') (auto simp: s'_def staking_status_def expected_status_def is_active_provider_def split: option.splits)
  then show ?thesis by (rule that [OF tx _ pv'])
qed

text \<open>C15: The owner of an active provider can always take it out. In every reachable state, once the
  framework's own extensions admit his unregister transaction (which includes that he pays the fee), it
  passes the extension of the repository and the filter and succeeds, and then the provider is inactive in
  both pallets. \<open>pre\<close> is what the framework's extensions do, \<open>cs\<close> the balances they leave. (The run that
  reached the state has no \<^verbatim>\<open>provider_bond_less\<close> whose sum wraps around.)\<close>

theorem owner_can_leave:
  assumes "currency_ok F" and "network_reaches F g P n s"
    and "sget (providers (rs_dapi s)) p = Some pv" and "dp_status pv = ActiveProvider"
    and "ensure_signed F o' = Some (dp_owner pv)"
    and "pre (dp_owner pv) (DapiCall (DapiUnregisterProvider p)) s = Inr cs"
  shows "\<exists>s'. apply_signed pre F (network_runtime F P n) o' (dp_owner pv) (DapiCall (DapiUnregisterProvider p)) s = Inr s' \<and>
    \<not> is_active_provider (rs_staking s') p \<and>
    sget (providers (rs_dapi s')) p = Some (pv\<lparr>dp_status := InActive UnRegistered\<rparr>)"
proof -
  let ?R = "network_runtime F P n" and ?s = "s\<lparr>rs_currency := cs\<rparr>"
  have "in_step staking_status (rs_world s, rs_dapi s)"
    using network_reaches_inv [OF assms(2,1)] by (simp add: chain_inv_def)
  then have inv: "in_step staking_status (rs_world ?s, rs_dapi ?s)"
    by (simp add: in_step_def staking_status_def rs_world_def)
  have known: "sget (providers (rs_dapi ?s)) p = Some pv" using assms(3) by simp
  obtain s' where s': "apply_extrinsic F ?R o' (dp_owner pv) (DapiCall (DapiUnregisterProvider p)) ?s = Inr s'"
    and left: "\<not> is_active_provider (rs_staking s') p"
      "sget (providers (rs_dapi s')) p = Some (pv\<lparr>dp_status := InActive UnRegistered\<rparr>)"
    by (rule owner_unregisters [OF inv known assms(4,5)])
  then show ?thesis by (simp add: apply_signed_def assms(6))
qed

text \<open>A fee of one thousandth, which the signer must be able to pay and survive.\<close>

definition demo_pre :: "nat \<Rightarrow> nat runtime_call \<Rightarrow> (nat, ledger) runtime_state \<Rightarrow> string + ledger" where
  "demo_pre who call s = (case withdraw ledger_frame who local_MILLIMBTL KeepAlive (rs_currency s) of
     Inl _ \<Rightarrow> Inl ''Payment'' | Inr (fee, cs) \<Rightarrow> Inr cs)"

theorem owner_can_leave_witness:
  "\<exists>s'. apply_signed demo_pre ledger_frame (network_runtime ledger_frame demo_platform LocalRuntime) (Some 2) 2
      (DapiCall (DapiUnregisterProvider demo_provider)) demo_state = Inr s' \<and>
    \<not> is_active_provider (rs_staking s') demo_provider"
proof -
  have "\<not> isl (demo_pre 2 (DapiCall (DapiUnregisterProvider demo_provider)) demo_state)" by code_simp
  then obtain cs where "demo_pre 2 (DapiCall (DapiUnregisterProvider demo_provider)) demo_state = Inr cs"
    by (cases "demo_pre 2 (DapiCall (DapiUnregisterProvider demo_provider)) demo_state") auto
  then show ?thesis
    using owner_can_leave [OF ledger_currency_ok demo_state_reached demo_state_values(6), of "Some 2" demo_pre cs]
    by (auto simp: ledger_frame_def)
qed

text \<open>C22: Usage stays within quota. In every state reached without a wrapping \<^verbatim>\<open>provider_bond_less\<close> no project has used more than it paid for,
  and every chain id of a project or provider is within the length limit.\<close>

theorem usage_within_quota:
  assumes "currency_ok F" and "network_reaches F g P n s"
  shows "(\<forall>p pr. sget (projects (rs_dapi s)) p = Some pr \<longrightarrow> usage pr \<le> quota pr \<and> length (pr_chain_id pr) \<le> 64) \<and>
    (\<forall>p pv. sget (providers (rs_dapi s)) p = Some pv \<longrightarrow> length (dp_chain_id pv) \<le> 64)"
  using network_reaches_inv [OF assms(2,1)] by (auto simp: chain_inv_def dapi_inv_def)

definition demo_project :: "(nat, ledger, nat option) runtime_step list" where
  "demo_project =
     [Transaction (Some 4) 4 (DapiCall (RegisterProject demo_provider (as_bytes ''dot.mainnet'') (5 * local_MBTL))),
      Transaction (Some 6) 6 (DapiCall (SubmitProjectUsage demo_provider 7000))]"

theorem usage_within_quota_witness:
  "\<exists>s pr. demo_chain demo_project = Some s \<and> sget (projects (rs_dapi s)) demo_provider = Some pr \<and>
     usage pr \<le> quota pr \<and> quota pr = 5000"
proof -
  have "map_option (\<lambda>s. map_option quota (sget (projects (rs_dapi s)) demo_provider)) (demo_chain demo_project)
      = Some (Some 5000)" by code_simp
  then obtain s pr where s: "demo_chain demo_project = Some s"
    and pr: "sget (projects (rs_dapi s)) demo_provider = Some pr" "quota pr = 5000" by auto
  have "network_reaches ledger_frame demo_genesis_config demo_platform LocalRuntime s"
    by (rule demo_reaches [OF s]) (auto simp: demo_project_def step_ok_def call_fits_def ledger_frame_def)
  from usage_within_quota [OF ledger_currency_ok this] s pr show ?thesis by blast
qed

section \<open>Who may do what\<close>

text \<open>A step that an account makes, directly or through another pallet, and not root.\<close>

definition by_account :: "('ac, 'cs, 'o) frame \<Rightarrow> ('ac, 'cs, 'o) runtime_step \<Rightarrow> bool" where
  "by_account F e = (case e of Transaction o' a c \<Rightarrow> \<not> ensure_root F o' | Inner o' c \<Rightarrow> \<not> ensure_root F o' | _ \<Rightarrow> False)"

lemma by_account_elim:
  assumes "by_account F e" and "runtime_exec F R e s = Inr s'"
  obtains o' c where "\<not> ensure_root F o'" and "rt_filter R c" and "runtime_dispatch F R o' c s = Inr s'"
  using assms that by (cases e) (auto simp: by_account_def apply_extrinsic_def split: if_splits sum.splits)

lemma network_update_origin [simp]: "UpdateOrigin (rt_validators (network_runtime F P n)) = ensure_root F"
  by (cases n) (simp_all add: network_runtime_def keiko_runtime_def local_runtime_def
      keiko_validator_config_def local_validator_config_def)

lemma account_validator_call:
  assumes "validator_exec F cfg (env, validator_call_of o' c) (cs, st) = Inr (cs', st')"
    and "UpdateOrigin cfg = ensure_root F" and "\<not> ensure_root F o'"
  shows "c = Call_register_as_candidate \<or> c = Call_leave_intent"
  using assms by (cases c)
    (auto simp: set_invulnerables_def set_desired_candidates_def set_candidacy_bond_def)

lemma candidate_call_settings:
  assumes "validator_exec F cfg (env, validator_call_of o' c) (cs, st) = Inr (cs', st')"
    and "c = Call_register_as_candidate \<or> c = Call_leave_intent"
  shows "invulnerables st' = invulnerables st \<and> desired_candidates st' = desired_candidates st \<and>
    candidacy_bond st' = candidacy_bond st"
  using assms
  by (auto simp: register_as_candidate_def leave_intent_def try_remove_candidate_def Let_def validator_deposit_event_def
      split: option.splits if_splits sum.splits prod.splits)

text \<open>C20: On keiko no account can change the validators. Whatever calls accounts make, successful or
  inside a batch, the invulnerables, the candidates, their bonds and the settings stay as they are: the
  filter stops the two calls that need no root origin.\<close>

theorem keiko_validators_closed:
  assumes "by_account F e" and "runtime_exec F (keiko_runtime F P) e s = Inr s'"
  shows "rs_validators s' = rs_validators s"
proof -
  obtain o' c where o': "\<not> ensure_root F o'" and f: "rt_filter (keiko_runtime F P) c"
    and d: "runtime_dispatch F (keiko_runtime F P) o' c s = Inr s'"
    using assms by (rule by_account_elim)
  show ?thesis
  proof (cases c)
    case (ValidatorSetCall v)
    then have "validator_exec F (rt_validators (keiko_runtime F P)) (rs_env s, validator_call_of o' v)
        (rs_currency s, rs_validators s) = Inr (rs_currency s', rs_validators s')"
      using d by (auto simp: runtime_dispatch_def dest: in_elims)
    then have "v = Call_register_as_candidate \<or> v = Call_leave_intent"
      using network_update_origin [of F P KeikoRuntime] o'
      by (intro account_validator_call) (simp_all add: network_runtime_def)
    with f ValidatorSetCall show ?thesis by (auto simp: keiko_runtime_def keiko_BaseFilter_contains_def)
  qed (use dispatch_did [OF d] in \<open>auto simp: same_defs\<close>)
qed

theorem keiko_validators_closed_witness:
  "\<exists>s s'. runtime_exec ledger_frame (keiko_runtime ledger_frame demo_platform)
      (Transaction (Some 2) 2 (DapiStakingCall (Call_provider_bond_more demo_provider 1))) s = Inr s' \<and>
    rs_validators s' = rs_validators s"
proof -
  let ?e = "Transaction (Some 2) 2 (DapiStakingCall (Call_provider_bond_more demo_provider 1))
    :: (nat, ledger, nat option) runtime_step"
  have "(case runtime_exec ledger_frame (keiko_runtime ledger_frame demo_platform) ?e demo_state of
      Inl _ \<Rightarrow> False | Inr _ \<Rightarrow> True)" by code_simp
  then obtain s' where s': "runtime_exec ledger_frame (keiko_runtime ledger_frame demo_platform) ?e demo_state = Inr s'"
    by (auto split: sum.splits)
  moreover have "by_account ledger_frame ?e" by (simp add: by_account_def ledger_frame_def)
  ultimately show ?thesis using keiko_validators_closed by blast
qed

text \<open>C19: Settings are root's. Whatever an account calls on either network, the regulators, the known
  chain ids, the distribution of block rewards, the invulnerables, the desired number of candidates and
  the candidacy bond stay as they are.\<close>

theorem settings_need_root:
  assumes "by_account F e" and "runtime_exec F (network_runtime F P n) e s = Inr s'"
  shows "regulators (rs_dapi s') = regulators (rs_dapi s) \<and> chain_ids (rs_dapi s') = chain_ids (rs_dapi s) \<and>
    reward_config (rs_reward s') = reward_config (rs_reward s) \<and>
    invulnerables (rs_validators s') = invulnerables (rs_validators s) \<and>
    desired_candidates (rs_validators s') = desired_candidates (rs_validators s) \<and>
    candidacy_bond (rs_validators s') = candidacy_bond (rs_validators s)"
proof -
  let ?R = "network_runtime F P n"
  obtain o' c where o': "\<not> ensure_root F o'" and d: "runtime_dispatch F ?R o' c s = Inr s'"
    using assms by (rule by_account_elim)
  note did = conjunct1 [OF dispatch_did [OF d]]
  show ?thesis
  proof (cases c)
    case (DapiCall x)
    then have "dapi_exec F (rt_dapi ?R) (o', x) (rs_world s, rs_dapi s) = Inr (rs_world s', rs_dapi s')"
      and same: "same_validators s s'" "same_reward s s'" using did by simp_all
    then have "regulators (rs_dapi s') = regulators (rs_dapi s) \<and> chain_ids (rs_dapi s') = chain_ids (rs_dapi s)"
      using o' by (cases x) (auto elim!: dapi_elims dest!: root_call_elims)
    with same show ?thesis by (simp add: same_defs)
  next
    case (ValidatorSetCall v)
    then have ex: "validator_exec F (rt_validators ?R) (rs_env s, validator_call_of o' v)
        (rs_currency s, rs_validators s) = Inr (rs_currency s', rs_validators s')"
      and same: "same_dapi s s'" "same_reward s s'" using did by simp_all
    have "v = Call_register_as_candidate \<or> v = Call_leave_intent"
      using account_validator_call [OF ex _ o'] by simp
    with candidate_call_settings [OF ex] same show ?thesis by (simp add: same_defs)
  next
    case (BlockRewardCall x)
    with did o' show ?thesis by (auto dest: set_config_elim(1))
  qed (use did in \<open>auto simp: same_defs\<close>)
qed

theorem settings_need_root_witness:
  "\<exists>s'. runtime_exec ledger_frame (network_runtime ledger_frame demo_platform LocalRuntime)
      (Transaction (Some 2) 2 (DapiStakingCall (Call_provider_bond_more demo_provider 1))) demo_state = Inr s' \<and>
    regulators (rs_dapi s') = {5, 6} \<and> invulnerables (rs_validators s') = [1]"
proof -
  let ?e = "Transaction (Some 2) 2 (DapiStakingCall (Call_provider_bond_more demo_provider 1))
    :: (nat, ledger, nat option) runtime_step"
  have "(case runtime_exec ledger_frame (network_runtime ledger_frame demo_platform LocalRuntime) ?e demo_state of
      Inl _ \<Rightarrow> False | Inr _ \<Rightarrow> True)" by code_simp
  then obtain s' where s': "runtime_exec ledger_frame (network_runtime ledger_frame demo_platform LocalRuntime) ?e
      demo_state = Inr s'" by (auto split: sum.splits)
  have "by_account ledger_frame ?e" by (simp add: by_account_def ledger_frame_def)
  from settings_need_root [OF this s'] s' show ?thesis
    by (simp add: demo_state_values)
qed

text \<open>C21: Regulators decide. If a transaction raises the usage of a project, registers a provider or
  takes one out for another reason than its owner's wish, its signer is a regulator at that moment.\<close>

theorem regulators_decide:
  assumes "ensure_signed F o' = Some a"
    and "runtime_exec F (network_runtime F P n) (Transaction o' a c) s = Inr s'"
    and "(\<exists>p pr pr'. sget (projects (rs_dapi s)) p = Some pr \<and> sget (projects (rs_dapi s')) p = Some pr' \<and> usage pr' \<noteq> usage pr) \<or>
      (\<exists>p. sget (providers (rs_dapi s)) p = None \<and> sget (providers (rs_dapi s')) p \<noteq> None) \<or>
      (\<exists>p pv pv' r. sget (providers (rs_dapi s)) p = Some pv \<and> sget (providers (rs_dapi s')) p = Some pv' \<and>
         dp_status pv' = InActive r \<and> dp_status pv \<noteq> dp_status pv' \<and> dp_owner pv \<noteq> a)"
  shows "a \<in> regulators (rs_dapi s)"
proof (cases "\<exists>x. c = DapiCall x")
  case True
  then obtain x where c: "c = DapiCall x" by blast
  have ext: "regulator_call x \<Longrightarrow> a \<in> regulators (rs_dapi s)"
    using assms(2) c by (auto simp: apply_extrinsic_def is_sub_type_def PreValidate_pre_dispatch_def
        PreValidate_validate_def split: sum.splits if_splits)
  have "runtime_dispatch F (network_runtime F P n) o' c s = Inr s'"
    using assms(2) by (auto simp: apply_extrinsic_def split: sum.splits if_splits)
  from dispatch_did [OF this] c
  have ex: "dapi_exec F (rt_dapi (network_runtime F P n)) (o', x) (rs_world s, rs_dapi s) = Inr (rs_world s', rs_dapi s')"
    by simp
  show ?thesis
  proof (rule ccontr)
    assume "a \<notin> regulators (rs_dapi s)"
    with ext have "\<not> regulator_call x" by blast
    with ex assms(1,3) show False
      by (cases x) (auto simp: regulator_call_def elim!: dapi_elims dest!: root_call_elims split: if_splits)
  qed
next
  case False
  have "runtime_dispatch F (network_runtime F P n) o' c s = Inr s'"
    using assms(2) by (auto simp: apply_extrinsic_def split: sum.splits if_splits)
  from dispatch_did [OF this] False have "rs_dapi s' = rs_dapi s" by (cases c) (auto simp: same_defs)
  with assms(3) show ?thesis by auto
qed

theorem regulators_decide_witness:
  "6 \<in> regulators (rs_dapi (the (demo_chain [hd demo_project])))"
proof -
  let ?s = "the (demo_chain [hd demo_project])"
  let ?e = "Transaction (Some 6) 6 (DapiCall (SubmitProjectUsage demo_provider 7000)) :: (nat, ledger, nat option) runtime_step"
  have "(case runtime_exec ledger_frame (network_runtime ledger_frame demo_platform LocalRuntime) ?e ?s of
      Inl _ \<Rightarrow> False | Inr s' \<Rightarrow> map_option usage (sget (projects (rs_dapi s')) demo_provider) = Some 5000 \<and>
        map_option usage (sget (projects (rs_dapi ?s)) demo_provider) = Some 0)" by code_simp
  then obtain s' where s': "runtime_exec ledger_frame (network_runtime ledger_frame demo_platform LocalRuntime) ?e ?s = Inr s'"
    and "map_option usage (sget (projects (rs_dapi s')) demo_provider) = Some 5000"
    and "map_option usage (sget (projects (rs_dapi ?s)) demo_provider) = Some 0"
    by (auto simp del: runtime_exec.simps split: sum.splits)
  then obtain pr pr' where "sget (projects (rs_dapi ?s)) demo_provider = Some pr"
    "sget (projects (rs_dapi s')) demo_provider = Some pr'" "usage pr' \<noteq> usage pr" by auto
  then show ?thesis
    by (intro regulators_decide [OF _ s']) (simp add: ledger_frame_def, blast)
qed

section \<open>Money\<close>

text \<open>C11: The block reward is split without loss. In a reachable state, when the two pots exist and
  have room, setting the timestamp moves exactly the configured fraction of the issued amount to the
  staking pot and to the reward accumulator, and the rest to the validator pot.\<close>

theorem block_reward_split:
  assumes ok: "currency_ok F" "perbill_ok F" and reach: "network_reaches F g P n s"
    and R: "R = network_runtime F P n" "vpot = pallet_account P ''valdtset''" "spot = pot (rt_staking R)" "vpot \<noteq> spot"
    and min: "minimum_balance F \<le> free_balance F (rs_currency s) vpot" "minimum_balance F \<le> free_balance F (rs_currency s) spot"
    and i: "i = fst (issue F (RewardAmount (rt_reward R)) (rs_currency s))"
    and room: "unat (free_balance F (rs_currency s) vpot) + unat i < 2 ^ 128"
      "unat (free_balance F (rs_currency s) spot) + unat i < 2 ^ 128" "unat (reward_accumulator (rs_staking s)) + unat i < 2 ^ 128"
    and exec: "runtime_exec F R TimestampSet s = Inr s'"
    and share: "share = unat (perbill_mul F (providers_percent (reward_config (rs_reward s))) i)"
  shows "unat (free_balance F (rs_currency s') spot) = unat (free_balance F (rs_currency s) spot) + share \<and>
    unat (free_balance F (rs_currency s') vpot) + share = unat (free_balance F (rs_currency s) vpot) + unat i \<and>
    unat (reward_accumulator (rs_staking s')) = unat (reward_accumulator (rs_staking s)) + share"
proof -
  have valid: "providers_percent (reward_config (rs_reward s)) \<le> perbill_one F"
    using network_reaches_inv [OF reach ok(1)] valid_providers_percent [OF ok(2)]
    by (auto simp: chain_inv_def reward_inv_def)
  have ex: "on_timestamp_set F (rt_reward R) (rs_world s, rs_reward s) = (rs_world s', rs_reward s')"
    using exec by (auto dest: in_elims)
  obtain w where w: "lift_issue F (RewardAmount (rt_reward R)) (rs_world s) = (i, w)"
    using i by (cases "issue F (RewardAmount (rt_reward R)) (rs_currency s)") (simp add: lift_issue_def rs_world_def)
  have d: "distribute_rewards F (rt_reward R) i (w, rs_reward s) = (rs_world s', rs_reward s')"
    using ex w by (simp add: on_timestamp_set_def R(1) network.issue_wired)
  have v: "vpot_ready F vpot spot (rs_world s)"
    using ok(1) R(4) min(1) by (simp add: vpot_ready_def rs_world_def)
  note ip = issue_pots [OF v w]
  have ready: "pots_ready F vpot spot w" using ip(1,3) min(2) by (simp add: pots_ready_def rs_world_def)
  have has: "pot_has F vpot w = unat (free_balance F (rs_currency s) vpot)"
    "pot_has F spot w = unat (free_balance F (rs_currency s) spot)"
    "accumulated w = unat (reward_accumulator (rs_staking s))"
    using ip(2) accumulated_cong [OF ip(4)] by (simp_all add: pot_has_def rs_world_def accumulated_def)
  note money = network.money.distribute_exact(1,2) [OF ok valid ready [unfolded R(1-3)] _ _ d [unfolded R(1)]]
  note book = network.book.distribute_exact(1) [OF ok valid ip(1) [unfolded R(1-3)] _ _ d [unfolded R(1)]]
  show ?thesis
    using money book room has unfolding R(1-3) share
    by (simp add: pot_has_def accumulated_def rs_world_def)
qed

theorem block_reward_split_witness:
  "\<exists>s'. runtime_exec ledger_frame demo_runtime TimestampSet demo_state = Inr s' \<and>
     unat (ledger_free (rs_currency s') 101) = unat (ledger_free (rs_currency demo_state) 101) + 500000000000000000 \<and>
     unat (ledger_free (rs_currency s') 100) = unat (ledger_free (rs_currency demo_state) 100) + 500000000000000000"
proof -
  let ?s = demo_state
  obtain s' where s': "runtime_exec ledger_frame demo_runtime TimestampSet ?s = Inr s'"
    by (auto simp: in_reward_def split_def)
  have cfg: "pallet_account demo_platform ''valdtset'' = 100" "pot (rt_staking demo_runtime) = 101"
    "RewardAmount (rt_reward demo_runtime) = 1000000000000000000"
    by (simp_all add: demo_platform_def demo_runtime_def network_runtime_def local_runtime_def
        local_staking_config_def local_reward_config_def local_MILLIMBTL_def)
  have half: "ledger_perbill_mul 500000000 1000000000000000000 = 500000000000000000" by code_simp
  show ?thesis
    using block_reward_split [OF ledger_currency_ok ledger_perbill_ok demo_state_reached demo_runtime_def refl refl _ _ _ refl _ _ _ s' refl]
      cfg half s' by (simp add: ledger_frame_def demo_state_values)
qed

text \<open>C36: Fees reach the validators whole. When the pot exists and has room, the fee and the tip of a
  transaction are added to it exactly, on either network.\<close>

theorem fees_reach_pot:
  assumes "currency_ok F" and "vpot = pallet_account P ''valdtset''"
    and "minimum_balance F \<le> free_balance F cs vpot"
    and "unat (free_balance F cs vpot) + unat fee + unat tip < 2 ^ 128"
  shows "unat (free_balance F (rt_fees (network_runtime F P n) [fee, tip] cs) vpot) =
    unat (free_balance F cs vpot) + unat fee + unat tip"
proof -
  have m: "unat (imbalance_merge F fee tip) = unat fee + unat tip"
    using assms(4) by (intro imbalance_merge_exact [OF assms(1)]) simp
  have "rt_fees (network_runtime F P n) [fee, tip] cs =
      on_unbalanced F (resolve_creating F vpot) (imbalance_merge F fee tip) cs"
    by (cases n) (simp_all add: network_runtime_def keiko_runtime_def local_runtime_def assms(2)
        on_unbalanced_def keiko_ToValidatorPot_on_nonzero_def local_ToValidatorPot_on_nonzero_def)
  moreover have "unat (free_balance F (resolve_creating F vpot (imbalance_merge F fee tip) cs) vpot) =
      unat (free_balance F cs vpot) + unat fee + unat tip"
    using resolve_exact(1) [OF assms(1,3), of "imbalance_merge F fee tip" vpot] m assms(4) by simp
  moreover have "unat fee + unat tip = 0" if "imbalance_merge F fee tip = 0" using m that by simp
  ultimately show ?thesis using assms(1) by (simp add: on_unbalanced_def)
qed

theorem fees_reach_pot_witness:
  "unat (ledger_free (rt_fees demo_runtime [30, 12] demo_balances) 100) = 542"
  using fees_reach_pot [OF ledger_currency_ok refl, where P = demo_platform and cs = demo_balances and fee = 30 and tip = 12 and n = LocalRuntime]
  by (simp add: demo_runtime_def demo_platform_def ledger_frame_def ledger_free_def demo_balances_def get_or_def sget_def)

text \<open>On keiko delegators earn nothing. The share of the providers is set to the whole, so for every
  provider and every era the part that delegators divide among them is zero, whatever was collected.\<close>

theorem keiko_delegators_earn_nothing:
  assumes "perbill_ok F"
  shows "snd (split_provider_delegators_rewards F (rt_staking (network_runtime F P KeikoRuntime)) info em) = 0"
proof -
  have one: "perbill_one F = 1000000000" and all: "\<And>b. perbill_mul F (perbill_one F) b = b"
    using assms unfolding perbill_ok_def by blast+
  have "unat (perbill_from_percent F 100) = unat (100 :: u32) * 10000000"
    using assms unfolding perbill_ok_def by blast
  then have "perbill_from_percent F 100 = perbill_one F" by (simp add: one word_unat_eq_iff)
  then show ?thesis
    by (simp add: split_provider_delegators_rewards_def network_runtime_def keiko_runtime_def keiko_staking_config_def
        all saturating_sub_def)
qed

theorem keiko_delegators_earn_nothing_witness:
  "snd (split_provider_delegators_rewards ledger_frame (rt_staking (network_runtime ledger_frame demo_platform KeikoRuntime))
     \<lparr>pe_bond = 300, pe_total = 400, pe_delegator_count = 1, pe_reward_claimed = False\<rparr>
     \<lparr>em_rewards = 1000, em_staked = 400\<rparr>) = 0"
  by (rule keiko_delegators_earn_nothing [OF ledger_perbill_ok])

section \<open>Genesis and the node\<close>

text \<open>C34: The two genesis configurations of the code build, that of \<^verbatim>\<open>keiko-dev\<close> and that of the development
  network (the public network \<^verbatim>\<open>keiko\<close> starts from a file). When the keys of the specification decode, no assertion
  of a genesis build fails, whatever storage the balances pallet starts from, and in the first state
  every pallet's invariant holds and every reserve covers what is owed.\<close>

theorem genesis_never_panics:
  assumes "perbill_ok F" and "sp_genesis (network_spec F C wasm n) = Some g"
  shows "\<exists>s. genesis_build F (network_runtime F P n) cs g = Some s \<and> chain_inv F (network_runtime F P n) s \<and> covered F s"
proof -
  obtain s where "genesis_build F (network_runtime F P n) cs g = Some s" using network_genesis [OF assms] by blast
  then show ?thesis by (intro exI conjI) (auto intro: genesis_state)
qed

theorem genesis_never_panics_witness:
  "\<exists>g s. sp_genesis (network_spec ledger_frame demo_crypto (Some []) KeikoRuntime) = Some g \<and>
     genesis_build ledger_frame (network_runtime ledger_frame demo_platform KeikoRuntime) demo_balances g = Some s"
proof -
  have "sp_genesis (network_spec ledger_frame demo_crypto (Some []) KeikoRuntime) \<noteq> None" by code_simp
  then obtain g where g: "sp_genesis (network_spec ledger_frame demo_crypto (Some []) KeikoRuntime) = Some g" by blast
  from genesis_never_panics [OF ledger_perbill_ok g] g show ?thesis by blast
qed

text \<open>The version a node reports is that of the runtime it runs exactly for the specifications whose
  id begins with dev or keiko; for any other id the node runs the local runtime and reports keiko's.\<close>

theorem reported_version_matches:
  "(run spec None = Inr (StartNode (native_runtime_version spec))) = (is_dev spec \<or> is_keiko spec)"
proof -
  have "\<not> (is_dev spec \<and> is_keiko spec)"
    by (cases "sp_id spec") (auto simp: is_dev_def is_keiko_def starts_with_def)
  then show ?thesis by (auto simp: run_def native_runtime_version_def)
qed

end
