(* ===== verification/Runtime_Api.thy ===== *)
theory Runtime_Api
  imports Runtime_Props "HOL-Library.Monad_Syntax"
begin

text \<open>
  The parts of \<^verbatim>\<open>runtime/keiko/src/lib.rs\<close> and \<^verbatim>\<open>runtime/local/src/lib.rs\<close> that face the node: the
  version, the limits of a block, the length of a slot, and the transactions that off-chain workers
  create. The builder of the limits, the weight constants, the mortality of transactions and the
  signing are the framework's: parameters, with what is relied on as hypotheses.
\<close>

section \<open>Version\<close>

text \<open>\<open>apis\<close> is the table that \<^verbatim>\<open>impl_runtime_apis!\<close> generates.\<close>

record 'api runtime_version =
  spec_name :: string
  impl_name :: string
  authoring_version :: u32
  spec_version :: u32
  impl_version :: u32
  rv_apis :: 'api
  transaction_version :: u32
  state_version :: u8

definition keiko_VERSION :: "'api \<Rightarrow> 'api runtime_version" where
  "keiko_VERSION apis = \<lparr>spec_name = ''keiko'', impl_name = ''keiko'', authoring_version = 1, spec_version = 1,
     impl_version = 1, rv_apis = apis, transaction_version = 1, state_version = 1\<rparr>"

definition local_VERSION :: "'api \<Rightarrow> 'api runtime_version" where
  "local_VERSION apis = \<lparr>spec_name = ''massbit-local'', impl_name = ''massbit-local'', authoring_version = 1,
     spec_version = 1, impl_version = 1, rv_apis = apis, transaction_version = 1, state_version = 1\<rparr>"

section \<open>Limits of a block\<close>

datatype dispatch_class = Normal | Operational | Mandatory

record weights_per_class =
  base_extrinsic :: u64
  max_total :: "u64 option"
  reserved_weight :: "u64 option"

record block_weights =
  base_block :: u64
  per_class :: "dispatch_class \<Rightarrow> weights_per_class"
  avg_block_initialization :: perbill

text \<open>The framework: its constants, \<^verbatim>\<open>Perbill\<close> times a weight, the builder's start and its check.\<close>

record weight_libs =
  WEIGHT_PER_SECOND :: u64
  BlockExecutionWeight :: u64
  weight_mul :: "perbill \<Rightarrow> u64 \<Rightarrow> u64"
  weights_builder :: block_weights
  build_weights :: "block_weights \<Rightarrow> block_weights option"
  max_with_normal_ratio :: "u32 \<Rightarrow> perbill \<Rightarrow> dispatch_class \<Rightarrow> u32"

definition for_class ::
    "dispatch_class list \<Rightarrow> (weights_per_class \<Rightarrow> weights_per_class) \<Rightarrow> block_weights \<Rightarrow> block_weights" where
  "for_class cls f b = b\<lparr>per_class := (\<lambda>c. if c \<in> set cls then f (per_class b c) else per_class b c)\<rparr>"

lemma per_class_for_class [simp]:
  "per_class (for_class cls f b) c = (if c \<in> set cls then f (per_class b c) else per_class b c)"
  by (simp add: for_class_def)

definition keiko_NORMAL_DISPATCH_RATIO :: "('ac, 'cs, 'o) frame \<Rightarrow> perbill" where
  "keiko_NORMAL_DISPATCH_RATIO F = perbill_from_percent F 75"

definition keiko_MAXIMUM_BLOCK_WEIGHT :: "weight_libs \<Rightarrow> u64" where
  "keiko_MAXIMUM_BLOCK_WEIGHT W = WEIGHT_PER_SECOND W div 2"

definition keiko_RuntimeBlockLength :: "('ac, 'cs, 'o) frame \<Rightarrow> weight_libs \<Rightarrow> dispatch_class \<Rightarrow> u32" where
  "keiko_RuntimeBlockLength F W = max_with_normal_ratio W (5 * 1024 * 1024) (keiko_NORMAL_DISPATCH_RATIO F)"

text \<open>\<open>None\<close> is the panic of \<^verbatim>\<open>build_or_panic\<close>.\<close>

definition keiko_RuntimeBlockWeights ::
    "('ac, 'cs, 'o) frame \<Rightarrow> 'ac platform \<Rightarrow> weight_libs \<Rightarrow> block_weights option" where
  "keiko_RuntimeBlockWeights F P W =
     (let most = keiko_MAXIMUM_BLOCK_WEIGHT W;
          normal = weight_mul W (keiko_NORMAL_DISPATCH_RATIO F) most;
          b0 = (weights_builder W)\<lparr>base_block := BlockExecutionWeight W\<rparr>;
          b1 = for_class [Normal, Operational, Mandatory] (\<lambda>w. w\<lparr>base_extrinsic := ExtrinsicBaseWeight P\<rparr>) b0;
          b2 = for_class [Normal] (\<lambda>w. w\<lparr>max_total := Some normal\<rparr>) b1;
          b3 = for_class [Operational] (\<lambda>w. w\<lparr>max_total := Some most, reserved_weight := Some (most - normal)\<rparr>) b2
      in build_weights W (b3\<lparr>avg_block_initialization := perbill_from_percent F 10\<rparr>))"

definition local_NORMAL_DISPATCH_RATIO :: "('ac, 'cs, 'o) frame \<Rightarrow> perbill" where
  "local_NORMAL_DISPATCH_RATIO F = perbill_from_percent F 75"

definition local_MAXIMUM_BLOCK_WEIGHT :: "weight_libs \<Rightarrow> u64" where
  "local_MAXIMUM_BLOCK_WEIGHT W = WEIGHT_PER_SECOND W div 2"

definition local_RuntimeBlockLength :: "('ac, 'cs, 'o) frame \<Rightarrow> weight_libs \<Rightarrow> dispatch_class \<Rightarrow> u32" where
  "local_RuntimeBlockLength F W = max_with_normal_ratio W (5 * 1024 * 1024) (local_NORMAL_DISPATCH_RATIO F)"

definition local_RuntimeBlockWeights ::
    "('ac, 'cs, 'o) frame \<Rightarrow> 'ac platform \<Rightarrow> weight_libs \<Rightarrow> block_weights option" where
  "local_RuntimeBlockWeights F P W =
     (let most = local_MAXIMUM_BLOCK_WEIGHT W;
          normal = weight_mul W (local_NORMAL_DISPATCH_RATIO F) most;
          b0 = (weights_builder W)\<lparr>base_block := BlockExecutionWeight W\<rparr>;
          b1 = for_class [Normal, Operational, Mandatory] (\<lambda>w. w\<lparr>base_extrinsic := ExtrinsicBaseWeight P\<rparr>) b0;
          b2 = for_class [Normal] (\<lambda>w. w\<lparr>max_total := Some normal\<rparr>) b1;
          b3 = for_class [Operational] (\<lambda>w. w\<lparr>max_total := Some most, reserved_weight := Some (most - normal)\<rparr>) b2
      in build_weights W (b3\<lparr>avg_block_initialization := perbill_from_percent F 10\<rparr>))"

text \<open>The builder checks and returns what it was given; a fraction of a weight is at most the weight.\<close>

definition weight_libs_ok :: "weight_libs \<Rightarrow> bool" where
  "weight_libs_ok W \<longleftrightarrow> (\<forall>b b'. build_weights W b = Some b' \<longrightarrow> b' = b) \<and> (\<forall>r w. weight_mul W r w \<le> w)"

definition network_block_weights ::
    "runtime_name \<Rightarrow> ('ac, 'cs, 'o) frame \<Rightarrow> 'ac platform \<Rightarrow> weight_libs \<Rightarrow> block_weights option" where
  "network_block_weights n F P W = (case n of
     KeikoRuntime \<Rightarrow> keiko_RuntimeBlockWeights F P W | LocalRuntime \<Rightarrow> local_RuntimeBlockWeights F P W)"

text \<open>What is kept for operational extrinsics is exactly what the normal ones leave of a block.\<close>

lemma operational_space_reserved:
  assumes "weight_libs_ok W" and "network_block_weights n F P W = Some b"
  shows "\<exists>normal most spare. max_total (per_class b Normal) = Some normal \<and>
    max_total (per_class b Operational) = Some most \<and> reserved_weight (per_class b Operational) = Some spare \<and>
    unat normal + unat spare = unat most"
proof -
  have sub: "unat x + unat (y - x) = unat y" if "x \<le> y" for x y :: u64
    using that by (simp add: unat_sub word_le_nat_alt)
  have same: "b' = b" if "build_weights W b = Some b'" for b b'
    using assms(1) that by (auto simp: weight_libs_ok_def)
  have le: "weight_mul W r w \<le> w" for r w using assms(1) by (simp add: weight_libs_ok_def)
  show ?thesis
    using assms(2) le [THEN sub]
    by (cases n)
      (auto simp: network_block_weights_def keiko_RuntimeBlockWeights_def local_RuntimeBlockWeights_def Let_def
        dest!: same)
qed

section \<open>Time\<close>

definition keiko_MinimumPeriod :: u64 where
  "keiko_MinimumPeriod = keiko_MILLISECS_PER_BLOCK div 2"

definition local_MinimumPeriod :: u64 where
  "local_MinimumPeriod = local_MILLISECS_PER_BLOCK div 2"

text \<open>\<open>aura\<close> is the slot duration of the aura pallet, from the minimum period of the timestamp pallet.\<close>

definition keiko_slot_duration :: "(u64 \<Rightarrow> u64) \<Rightarrow> u64" where
  "keiko_slot_duration aura = aura keiko_MinimumPeriod"

definition local_slot_duration :: "(u64 \<Rightarrow> u64) \<Rightarrow> u64" where
  "local_slot_duration aura = aura local_MinimumPeriod"

definition network_slot_duration :: "runtime_name \<Rightarrow> (u64 \<Rightarrow> u64) \<Rightarrow> u64" where
  "network_slot_duration n aura = (case n of
     KeikoRuntime \<Rightarrow> keiko_slot_duration aura | LocalRuntime \<Rightarrow> local_slot_duration aura)"

section \<open>Transactions of off-chain workers\<close>

text \<open>\<^verbatim>\<open>u32::checked_next_power_of_two\<close>.\<close>

definition checked_next_power_of_two :: "u32 \<Rightarrow> u32 option" where
  "checked_next_power_of_two n = map_option (\<lambda>k. 2 ^ k) (find (\<lambda>k. unat n \<le> 2 ^ k) [0..<32])"

datatype 'era signed_extension =
  CheckSpecVersion
| CheckTxVersion
| CheckGenesis
| CheckEra 'era
| CheckNonce u32
| CheckWeight
| ChargeTransactionPayment u128
| PreValidateRegulatorCalls

text \<open>The framework: \<^verbatim>\<open>Era\<close>, the payload with the data that extensions add, the key store. \<open>raw_payload\<close> is
  \<^verbatim>\<open>SignedPayload::new\<close>, which keeps the call and the extensions.\<close>

record ('ac, 'era, 'pub, 'sig) tx_libs =
  era_mortal :: "u64 \<Rightarrow> u64 \<Rightarrow> 'era"
  era_birth :: "'era \<Rightarrow> u64 \<Rightarrow> u64"
  era_death :: "'era \<Rightarrow> u64 \<Rightarrow> u64"
  raw_payload :: "'ac runtime_call \<Rightarrow> 'era signed_extension list \<Rightarrow> string + u8 list"
  tx_sign :: "u8 list \<Rightarrow> 'pub \<Rightarrow> 'sig option"

type_synonym ('ac, 'era, 'sig) signed_tx = "'ac runtime_call \<times> 'ac \<times> 'sig \<times> 'era signed_extension list"

definition keiko_BlockHashCount :: u32 where
  "keiko_BlockHashCount = 2400"

definition keiko_create_transaction ::
    "('ac, 'era, 'pub, 'sig) tx_libs \<Rightarrow> u32 \<Rightarrow> 'ac runtime_call \<Rightarrow> 'pub \<Rightarrow> 'ac \<Rightarrow> u32 \<Rightarrow> ('ac, 'era, 'sig) signed_tx option" where
  "keiko_create_transaction T block_number call public account nonce = do {
     let tip = 0;
     let period = ucast (case map_option (\<lambda>c. c div 2) (checked_next_power_of_two keiko_BlockHashCount) of
       Some c \<Rightarrow> c | None \<Rightarrow> 2);
     let current_block = ucast (saturating_sub block_number 1);
     let era = era_mortal T period current_block;
     let extra = [CheckSpecVersion, CheckTxVersion, CheckGenesis, CheckEra era, CheckNonce nonce, CheckWeight,
       ChargeTransactionPayment tip, PreValidateRegulatorCalls];
     payload <- (case raw_payload T call extra of Inl _ \<Rightarrow> None | Inr payload \<Rightarrow> Some payload);
     signature <- tx_sign T payload public;
     Some (call, account, signature, extra)
   }"

definition local_BlockHashCount :: u32 where
  "local_BlockHashCount = 2400"

definition local_create_transaction ::
    "('ac, 'era, 'pub, 'sig) tx_libs \<Rightarrow> u32 \<Rightarrow> 'ac runtime_call \<Rightarrow> 'pub \<Rightarrow> 'ac \<Rightarrow> u32 \<Rightarrow> ('ac, 'era, 'sig) signed_tx option" where
  "local_create_transaction T block_number call public account nonce = do {
     let tip = 0;
     let period = ucast (case map_option (\<lambda>c. c div 2) (checked_next_power_of_two local_BlockHashCount) of
       Some c \<Rightarrow> c | None \<Rightarrow> 2);
     let current_block = ucast (saturating_sub block_number 1);
     let era = era_mortal T period current_block;
     let extra = [CheckSpecVersion, CheckTxVersion, CheckGenesis, CheckEra era, CheckNonce nonce, CheckWeight,
       ChargeTransactionPayment tip, PreValidateRegulatorCalls];
     payload <- (case raw_payload T call extra of Inl _ \<Rightarrow> None | Inr payload \<Rightarrow> Some payload);
     signature <- tx_sign T payload public;
     Some (call, account, signature, extra)
   }"

definition network_create_transaction ::
    "runtime_name \<Rightarrow> ('ac, 'era, 'pub, 'sig) tx_libs \<Rightarrow> u32 \<Rightarrow> 'ac runtime_call \<Rightarrow> 'pub \<Rightarrow> 'ac \<Rightarrow> u32 \<Rightarrow>
     ('ac, 'era, 'sig) signed_tx option" where
  "network_create_transaction n = (case n of
     KeikoRuntime \<Rightarrow> keiko_create_transaction | LocalRuntime \<Rightarrow> local_create_transaction)"

definition network_BlockHashCount :: "runtime_name \<Rightarrow> u32" where
  "network_BlockHashCount n = (case n of KeikoRuntime \<Rightarrow> keiko_BlockHashCount | LocalRuntime \<Rightarrow> local_BlockHashCount)"

text \<open>\<^verbatim>\<open>Era\<close>: for a period that is a power of two from 4 to 4096, a transaction made at \<open>c\<close> is born there, and
  dead a period later.\<close>

definition era_ok :: "('ac, 'era, 'pub, 'sig) tx_libs \<Rightarrow> bool" where
  "era_ok T \<longleftrightarrow> (\<forall>k c n. 2 \<le> k \<longrightarrow> k \<le> 12 \<longrightarrow> c \<le> n \<longrightarrow> unat n < unat c + 2 ^ k \<longrightarrow> unat c + 2 ^ k < 2 ^ 64 \<longrightarrow>
     era_birth T (era_mortal T (2 ^ k) c) n = c \<and> era_death T (era_mortal T (2 ^ k) c) n = c + 2 ^ k)"

lemma block_hash_period: "checked_next_power_of_two 2400 = Some 4096"
  by code_simp

lemma network_create_transaction_unfold:
  "network_create_transaction n T b call public account nonce =
     (let extra = [CheckSpecVersion, CheckTxVersion, CheckGenesis,
        CheckEra (era_mortal T 2048 (ucast (saturating_sub b 1))), CheckNonce nonce, CheckWeight,
        ChargeTransactionPayment 0, PreValidateRegulatorCalls]
      in case raw_payload T call extra of Inl _ \<Rightarrow> None
         | Inr payload \<Rightarrow> map_option (\<lambda>sig. (call, account, sig, extra)) (tx_sign T payload public))"
proof -
  have "ucast (4096 div 2 :: u32) = (2048 :: u64)" by code_simp
  then show ?thesis
    by (cases n) (auto simp: network_create_transaction_def keiko_create_transaction_def local_create_transaction_def
        keiko_BlockHashCount_def local_BlockHashCount_def block_hash_period Let_def
        map_conv_bind_option comp_def split: sum.splits)
qed

text \<open>C38: A transaction that an off-chain worker creates lives as long as it can be checked: it carries the call,
  account and nonce it was asked for, no tip, and the signature over exactly these; it is valid from the
  block before the one in which it was made, for 2048 blocks, and in all of them the hash of the block
  in which it was born, which the check of its signature needs, is still among those the chain keeps.\<close>

theorem offchain_transaction_checkable:
  assumes "era_ok T" and "network_create_transaction n T b call public account nonce = Some (call', who, sig, extra)"
  shows "call' = call \<and> who = account \<and>
    (\<exists>payload. raw_payload T call extra = Inr payload \<and> tx_sign T payload public = Some sig) \<and>
    (\<exists>era. extra = [CheckSpecVersion, CheckTxVersion, CheckGenesis, CheckEra era, CheckNonce nonce, CheckWeight,
        ChargeTransactionPayment 0, PreValidateRegulatorCalls] \<and>
      (\<forall>m. unat b - 1 \<le> unat m \<and> unat m < unat b - 1 + 2048 \<longrightarrow>
        unat (era_birth T era m) = unat b - 1 \<and> unat (era_death T era m) = unat b - 1 + 2048 \<and>
        unat m - unat (era_birth T era m) < unat (network_BlockHashCount n)))"
proof -
  let ?c = "ucast (saturating_sub b 1) :: u64"
  have b: "unat b < 2 ^ 32" using unat_bound [of b] by simp
  have c: "unat ?c = unat b - 1"
    using b by (simp add: unat_saturating_sub unsigned_ucast_eq take_bit_nat_eq_self)
  let ?era = "era_mortal T 2048 ?c"
  have "era_birth T ?era m = ?c \<and> era_death T ?era m = ?c + 2048"
    if "unat b - 1 \<le> unat m" "unat m < unat b - 1 + 2048" for m
    using assms(1) [unfolded era_ok_def, rule_format, of 11 ?c m] that c b by (simp add: word_le_nat_alt)
  moreover have "unat (?c + 2048) = unat b - 1 + 2048" using c b by (simp add: unat_word_ariths)
  moreover have "unat (network_BlockHashCount n) = 2400"
    by (cases n) (simp_all add: network_BlockHashCount_def keiko_BlockHashCount_def local_BlockHashCount_def)
  ultimately show ?thesis
    using assms(2) c by (auto simp: network_create_transaction_unfold Let_def split: sum.splits)
qed

text \<open>An era as its period and its phase.\<close>

definition demo_birth :: "u64 \<times> u64 \<Rightarrow> u64 \<Rightarrow> u64" where
  "demo_birth = (\<lambda>(p, phase) n. word_of_nat ((unat n - unat phase) div unat p * unat p + unat phase))"

definition demo_tx_libs :: "(nat, u64 \<times> u64, nat, nat) tx_libs" where
  "demo_tx_libs = \<lparr>era_mortal = (\<lambda>p c. (p, c mod p)), era_birth = demo_birth,
     era_death = (\<lambda>e n. demo_birth e n + fst e), raw_payload = (\<lambda>call extra. Inr [1, 2, 3]), tx_sign = (\<lambda>payload public. Some 7)\<rparr>"

lemma demo_birth_mortal:
  assumes "0 < p" and "c \<le> n" and "unat n < unat c + unat p"
  shows "demo_birth (p, c mod p) n = c"
proof -
  define q r d where "q = unat c div unat p" and "r = unat c mod unat p" and "d = unat n - unat c"
  have p: "0 < unat p" using assms(1) by (simp add: word_less_nat_alt)
  have c: "unat c = q * unat p + r" by (simp add: q_def r_def)
  have n: "unat n - r = q * unat p + d" "d < unat p"
    using assms(2,3) by (simp_all add: c d_def word_le_nat_alt)
  then have q: "(unat n - r) div unat p = q" using p by (simp add: mult.commute)
  have "demo_birth (p, c mod p) n = word_of_nat ((unat n - r) div unat p * unat p + r)"
    by (simp only: demo_birth_def prod.case unat_mod r_def)
  also have "\<dots> = word_of_nat (unat c)" by (simp only: q c)
  finally show ?thesis by simp
qed

lemma demo_era_ok: "era_ok demo_tx_libs"
proof -
  have "unat (2 ^ k :: u64) = 2 ^ k" if "k \<le> 12" for k :: nat
  proof -
    have "(2 :: nat) ^ k < 2 ^ 64" using that by (intro power_strict_increasing) simp_all
    then have "unat (word_of_nat (2 ^ k) :: u64) = 2 ^ k" by (simp only: unat_of_nat mod_less len_of_numeral_defs) simp
    then show ?thesis by simp
  qed
  then show ?thesis
    by (auto simp: era_ok_def demo_tx_libs_def word_less_nat_alt intro!: demo_birth_mortal)
qed

theorem offchain_transaction_checkable_witness:
  "\<exists>extra. network_create_transaction KeikoRuntime demo_tx_libs 100 OtherCall 5 6 0 = Some (OtherCall, 6, 7, extra) \<and>
     (\<exists>era. extra ! 3 = CheckEra era \<and> unat (era_birth demo_tx_libs era 2000) = 99)"
proof -
  obtain extra where tx: "network_create_transaction KeikoRuntime demo_tx_libs 100 OtherCall 5 6 0 = Some (OtherCall, 6, 7, extra)"
    by (simp add: network_create_transaction_unfold demo_tx_libs_def Let_def)
  obtain era where "extra ! 3 = CheckEra era" "unat (era_birth demo_tx_libs era 2000) = 99"
    using offchain_transaction_checkable [OF demo_era_ok tx] by (force simp: numeral_3_eq_3)
  with tx show ?thesis by blast
qed

text \<open>The clock in hours. With a slot of twice the minimum period, as the aura pallet computes it, a block
  takes twelve seconds on both networks; an era is a day, and a session is an hour on keiko and two
  minutes on the development network.\<close>

theorem eras_are_days:
  assumes "\<forall>p. aura p = saturating_mul p 2"
  shows "network_slot_duration n aura = 12000 \<and>
    unat (DefaultBlocksPerEra (rt_staking (network_runtime F P n))) * unat (network_slot_duration n aura) = 24 * 60 * 60 * 1000 \<and>
    unat (KickThreshold (rt_validators (network_runtime F P n))) * unat (network_slot_duration n aura) =
      (case n of KeikoRuntime \<Rightarrow> 60 | LocalRuntime \<Rightarrow> 2) * 60 * 1000"
proof -
  have slot: "network_slot_duration n aura = 12000"
    using assms by (cases n)
      (simp_all add: network_slot_duration_def keiko_slot_duration_def local_slot_duration_def keiko_MinimumPeriod_def
        local_MinimumPeriod_def keiko_MILLISECS_PER_BLOCK_def local_MILLISECS_PER_BLOCK_def saturating_mul_def)
  show ?thesis unfolding slot
    by (cases n) (simp_all add: network_runtime_def keiko_runtime_def local_runtime_def keiko_staking_config_def
      local_staking_config_def keiko_validator_config_def local_validator_config_def keiko_SessionPeriod_def
      local_SessionPeriod_def keiko_HOURS_def keiko_MINUTES_def local_MINUTES_def keiko_MILLISECS_PER_BLOCK_def
      local_MILLISECS_PER_BLOCK_def)
qed

theorem eras_are_days_witness:
  "unat (DefaultBlocksPerEra (rt_staking (network_runtime ledger_frame demo_platform KeikoRuntime))) *
     unat (network_slot_duration KeikoRuntime (\<lambda>p. saturating_mul p 2)) = 24 * 60 * 60 * 1000"
  using eras_are_days [of "\<lambda>p. saturating_mul p 2" KeikoRuntime ledger_frame demo_platform] by blast

end
