(* ===== verification/Payment_Props.thy ===== *)
theory Payment_Props
  imports Runtime_Props
begin

text \<open>
  Where the money of a single operation goes, on the composed runtimes: the payment of a project, from
  the consumer to the rewards of the providers, and the bond of a candidate that is dropped at the end of
  a session.
\<close>

section \<open>Payments of projects\<close>

definition project_payment :: "('ac, 'pid) dapi_call \<Rightarrow> ('pid \<times> u128) option" where
  "project_payment c = (case c of RegisterProject p _ v \<Rightarrow> Some (p, v) | DepositProject p v \<Rightarrow> Some (p, v) | _ \<Rightarrow> None)"

definition quota_of :: "('ac, 'pid) dapi_state \<Rightarrow> 'pid \<Rightarrow> u128" where
  "quota_of st p = (case sget (projects st) p of None \<Rightarrow> 0 | Some pr \<Rightarrow> quota pr)"

text \<open>Both calls withdraw the amount from the caller, hand it on and raise the quota.\<close>

lemma project_payment_elim:
  assumes "dapi_exec F cfg (o', c) (w, st) = Inr (w', st')" and "project_payment c = Some (p, v)"
  obtains who i w1 where "ensure_signed F o' = Some who" and "currency_withdraw cfg who v KeepAlive w = Inr (i, w1)"
    and "w' = on_project_payment cfg i w1" and "sget (projects st') p \<noteq> None"
    and "quota_of st' p = saturating_add (quota_of st p) (calculate_quota v)"
    and "\<And>q. q \<noteq> p \<Longrightarrow> sget (projects st') q = sget (projects st) q" and "providers st' = providers st"
proof -
  have zero: "saturating_add 0 x = x" for x :: u128 using unat_less_u128 [of x] by (simp add: saturating_add_def)
  show ?thesis
    using assms that
    by (cases c) (auto simp: project_payment_def quota_of_def zero elim!: register_project_elim deposit_project_elim)
qed

lemma withdraw_exact:
  assumes "currency_ok F" and "withdraw F a v e cs = Inr (i, cs')"
    and "unat (minimum_balance F) + unat v \<le> unat (free_balance F cs a)"
  shows "unat (free_balance F cs' b) = unat (free_balance F cs b) - (if b = a then unat v else 0)"
proof (cases "b = a")
  case True
  have "unat (minimum_balance F) \<le> unat (free_balance F cs a) - unat v" using assms(3) by linarith
  with True show ?thesis using assms(1,2) unfolding currency_ok_def withdraw_ok_def by simp
next
  case False
  with assms show ?thesis unfolding currency_ok_def withdraw_ok_def by simp
qed

context wired_runtime
begin

lemma payment_exact:
  assumes cur: "currency_ok F" and wd: "currency_withdraw (rt_dapi R) who v e w = Inr (i, w1)"
    and spot: "spot = pot (rt_staking R)" "who \<noteq> spot" "minimum_balance F \<le> free_balance F (fst w) spot"
    and funds: "unat (minimum_balance F) + unat v \<le> unat (free_balance F (fst w) who)"
    and room: "unat (free_balance F (fst w) spot) + unat v < 2 ^ 128" "unat (reward_accumulator (snd w)) + unat v < 2 ^ 128"
  defines "w' \<equiv> on_project_payment (rt_dapi R) i w1"
  shows "unat (free_balance F (fst w') b) + (if b = who then unat v else 0) =
      unat (free_balance F (fst w) b) + (if b = spot then unat v else 0)"
    and "reserved_balance F (fst w') b = reserved_balance F (fst w) b"
    and "unat (reward_accumulator (snd w')) = unat (reward_accumulator (snd w)) + unat v"
proof -
  obtain cs st where w: "w = (cs, st)" by (cases w)
  obtain cs1 where cs1: "withdraw F who v e cs = Inr (i, cs1)" "w1 = (cs1, st)"
    using wd by (auto simp: withdraw_wired lift_withdraw_def w split: sum.splits)
  note out = withdraw_exact [OF cur cs1(1) funds [unfolded w fst_conv]]
  have i: "i = v" by (rule withdrawD(1) [OF cur cs1(1)])
  have "free_balance F cs1 spot = free_balance F cs spot" using out [of spot] spot(2) by (simp add: unsigned_word_eqI)
  then have into: "unat (free_balance F (resolve_creating F spot v cs1) c) = unat (free_balance F cs1 c) + (if c = spot then unat v else 0)" for c
    using spot(3) room(1) w by (intro resolve_exact [OF cur]) simp_all
  show "unat (free_balance F (fst w') b) + (if b = who then unat v else 0) =
      unat (free_balance F (fst w) b) + (if b = spot then unat v else 0)"
    using out [of b] into [of b] funds spot(1,2) cur
    by (auto simp: w'_def w i cs1(2) payment_wired lift_currency_def handle_imbalance_def staking_account_id_def split: if_splits)
  show "reserved_balance F (fst w') b = reserved_balance F (fst w) b"
    using withdrawD(3) [OF cur cs1(1), of b] cur spot(1)
    by (simp add: w'_def w i cs1(2) payment_wired lift_currency_def handle_imbalance_def staking_account_id_def)
  show "unat (reward_accumulator (snd w')) = unat (reward_accumulator (snd w)) + unat v"
    using room(2)
    by (simp add: w'_def w i cs1(2) payment_wired lift_currency_def handle_imbalance_def unat_saturating_add)
qed

end

text \<open>C13: Projects pay for their quota, and the providers earn it. When a consumer registers a project or adds
  to its deposit, on either network, exactly the amount goes from the account of the consumer to the
  staking pot and is recorded as reward of the running era; the quota grows by one request per
  \<^verbatim>\<open>10^15\<close> units; no other balance, no reserve and no other project changes. (The staking pot exists and has
  room, and the consumer keeps the minimum balance.)\<close>

theorem project_pays_for_quota:
  assumes "currency_ok F" and "R = network_runtime F P n" and "spot = pot (rt_staking R)"
    and "apply_extrinsic F R o' who (DapiCall c) s = Inr s'" and "project_payment c = Some (p, v)"
    and "ensure_signed F o' = Some who" and "who \<noteq> spot"
    and "minimum_balance F \<le> free_balance F (rs_currency s) spot"
    and "unat (minimum_balance F) + unat v \<le> unat (free_balance F (rs_currency s) who)"
    and "unat (free_balance F (rs_currency s) spot) + unat v < 2 ^ 128"
    and "unat (reward_accumulator (rs_staking s)) + unat v < 2 ^ 128"
  shows "(\<forall>b. unat (free_balance F (rs_currency s') b) + (if b = who then unat v else 0) =
      unat (free_balance F (rs_currency s) b) + (if b = spot then unat v else 0)) \<and>
    (\<forall>b. reserved_balance F (rs_currency s') b = reserved_balance F (rs_currency s) b) \<and>
    unat (reward_accumulator (rs_staking s')) = unat (reward_accumulator (rs_staking s)) + unat v \<and>
    quota_of (rs_dapi s') p = saturating_add (quota_of (rs_dapi s) p) (v div 1000000000000000) \<and>
    (\<forall>q. q \<noteq> p \<longrightarrow> sget (projects (rs_dapi s')) q = sget (projects (rs_dapi s)) q)"
proof -
  have "runtime_dispatch F R o' (DapiCall c) s = Inr s'"
    using assms(4) by (auto simp: apply_extrinsic_def split: sum.splits if_splits)
  then have ex: "dapi_exec F (rt_dapi R) (o', c) (rs_world s, rs_dapi s) = Inr (rs_world s', rs_dapi s')"
    by (auto simp: runtime_dispatch_def dest: in_dapi_elim)
  from ex assms(5) show ?thesis
  proof (cases rule: project_payment_elim)
    case (1 a i w1)
    have wd: "currency_withdraw (rt_dapi R) who v KeepAlive (rs_world s) = Inr (i, w1)" using 1(1,2) assms(6) by simp
    note pay = network.payment_exact [OF assms(1) wd [unfolded assms(2)] assms(3,7) [unfolded assms(2)],
        folded assms(2), folded 1(3)]
    show ?thesis
      using pay assms(8-11) 1(5,6) by (simp add: rs_world_def calculate_quota_def)
  qed
qed

theorem project_pays_for_quota_witness:
  "\<exists>s'. apply_extrinsic ledger_frame demo_runtime (Some 4) 4
      (DapiCall (RegisterProject demo_provider (as_bytes ''dot.mainnet'') 5000000000000000000)) demo_state = Inr s' \<and>
    quota_of (rs_dapi s') demo_provider = 5000 \<and>
    unat (ledger_free (rs_currency s') 101) = unat (ledger_free (rs_currency demo_state) 101) + 5000000000000000000"
proof -
  let ?v = "5000000000000000000 :: u128"
  let ?c = "RegisterProject demo_provider (as_bytes ''dot.mainnet'') ?v :: (nat, massbit_id) dapi_call"
  have "map_option (\<lambda>s. (case apply_extrinsic ledger_frame demo_runtime (Some 4) 4 (DapiCall ?c) s of Inl _ \<Rightarrow> False | Inr _ \<Rightarrow> True,
      ledger_free (rs_currency s) 4, quota_of (rs_dapi s) demo_provider)) (demo_chain demo_registration) =
    Some (True, 100000000000000000000000, 0)" by code_simp
  then have vals: "ledger_free (rs_currency demo_state) 4 = 100000000000000000000000" "quota_of (rs_dapi demo_state) demo_provider = 0"
    and "case apply_extrinsic ledger_frame demo_runtime (Some 4) 4 (DapiCall ?c) demo_state of Inl _ \<Rightarrow> False | Inr _ \<Rightarrow> True"
    by (simp_all add: demo_chain_state)
  then obtain s' where s': "apply_extrinsic ledger_frame demo_runtime (Some 4) 4 (DapiCall ?c) demo_state = Inr s'"
    by (auto split: sum.splits)
  have cfg: "pot (rt_staking demo_runtime) = 101"
    by (simp add: demo_platform_def demo_runtime_def network_runtime_def local_runtime_def local_staking_config_def)
  have q: "saturating_add 0 (?v div 1000000000000000) = 5000" by code_simp
  have paid: "\<forall>b. unat (ledger_free (rs_currency s') b) + (if b = 4 then unat ?v else 0) =
      unat (ledger_free (rs_currency demo_state) b) + (if b = 101 then unat ?v else 0)" "quota_of (rs_dapi s') demo_provider = 5000"
    using project_pays_for_quota [OF ledger_currency_ok demo_runtime_def refl s', of demo_provider ?v]
      cfg vals q by (simp_all add: project_payment_def ledger_frame_def demo_state_values)
  show ?thesis using s' paid(2) spec [OF paid(1), of 101] by simp
qed

section \<open>The bond of a dropped candidate\<close>

text \<open>Nothing sets the destination of slashes, which is empty at genesis.\<close>

lemma kick_run_settings:
  assumes "kick_run F cfg now cands s kept s'"
  shows "slash_destination (snd s') = slash_destination (snd s)" and "desired_candidates (snd s') = desired_candidates (snd s)"
proof -
  have "slash_destination (snd s') = slash_destination (snd s) \<and> desired_candidates (snd s') = desired_candidates (snd s)"
    using assms
  proof (induction rule: kick_run.induct)
    case (kick_out cands cs1 st1 kept s' st c cs)
    have "slash_destination st1 = slash_destination st" "desired_candidates st1 = desired_candidates st"
      by (rule try_remove_candidate_elim [OF kick_out.hyps(6,5)]; assumption)+
    with kick_out.IH show ?case by simp
  qed simp_all
  then show "slash_destination (snd s') = slash_destination (snd s)" and "desired_candidates (snd s') = desired_candidates (snd s)"
    by simp_all
qed

lemma validator_exec_destination:
  assumes "validator_inv st" and "validator_exec F cfg (env, c) (cs, st) = Inr (cs', st')"
  shows "slash_destination st' = slash_destination st"
proof (cases c)
  case (LeaveIntent o')
  then obtain who where "try_remove_candidate F cfg who False (cs, st) = Inr (cs', st')"
    using assms(2) by (auto elim: leave_intent_elim)
  then show ?thesis by (rule try_remove_candidate_elim [OF _ assms(1)])
next
  case NewSession
  obtain vs w s' where ns: "new_session F cfg (env_block env) (cs, st) = (vs, w, s')"
    by (cases "new_session F cfg (env_block env) (cs, st)")
  with NewSession assms(2) have "s' = (cs', st')" by simp
  with ns assms(1) show ?thesis
    by (auto elim!: new_session_run [of "(cs, st)", rotated] dest: kick_run_settings(1))
qed (use assms(2) in \<open>auto simp: set_invulnerables_def set_desired_candidates_def set_candidacy_bond_def
    register_as_candidate_def note_author_def Let_def split: option.splits if_splits sum.splits\<close>)

lemma network_no_destination:
  assumes reach: "network_reaches F g P n s" and cur: "currency_ok F"
  shows "slash_destination (rs_validators s) = None"
proof -
  let ?R = "network_runtime F P n"
  obtain cs s0 where g: "genesis_build F ?R cs g = Some s0" and run: "runtime_run F ?R (step_ok F ?R) s0 s"
    using reach by (auto simp: network_reaches_def)
  have start: "chain_inv F ?R s0 \<and> slash_destination (rs_validators s0) = None"
    using genesis_state(1) [OF g] g
    by (auto simp: genesis_build_def validator_genesis_build_def split: option.splits if_splits)
  have step: "chain_inv F ?R u \<and> slash_destination (rs_validators u) = None"
    if inv: "chain_inv F ?R t \<and> slash_destination (rs_validators t) = None" and ok: "step_ok F ?R t e"
      and ex: "runtime_exec F ?R e t = Inr u" for t e u
  proof
    show "chain_inv F ?R u" using inv by (intro network.exec_chain_inv [OF cur _ ok ex]) simp
    have v: "validator_inv (rs_validators t)" using inv by (simp add: chain_inv_def)
    show "slash_destination (rs_validators u) = None"
    proof (cases "foreign_step e")
      case True
      then show ?thesis using foreign_step_elim(3) [OF ex] inv by (simp add: same_defs)
    next
      case False
      have "step_did F ?R (step_kind_of t e) t u" using runtime_exec_did [OF ex False] by simp
      then show ?thesis
        using inv by (cases "step_kind_of t e") (auto simp: same_defs dest: validator_exec_destination [OF v])
    qed
  qed
  have "chain_inv F ?R s \<and> slash_destination (rs_validators s) = None"
    using run start by (rule runtime_run_invariant) (rule step)
  then show ?thesis by simp
qed

text \<open>A candidate that is removed with a slash and no destination: the slash leaves the reserve for nobody,
  the rest returns to the free balance.\<close>

definition untouched :: "('ac, 'cs, 'o) frame \<Rightarrow> 'cs \<Rightarrow> 'cs \<Rightarrow> 'ac \<Rightarrow> bool" where
  "untouched F cs cs' a \<longleftrightarrow> free_balance F cs' a = free_balance F cs a \<and> reserved_balance F cs' a = reserved_balance F cs a"

definition bond_settled :: "('ac, 'cs, 'o) frame \<Rightarrow> perbill \<Rightarrow> u128 \<Rightarrow> 'cs \<Rightarrow> 'cs \<Rightarrow> 'ac \<Rightarrow> bool" where
  "bond_settled F ratio d cs cs' a \<longleftrightarrow>
     unat (reserved_balance F cs' a) + unat d = unat (reserved_balance F cs a) \<and>
     unat (free_balance F cs' a) + unat (perbill_mul F ratio d) = unat (free_balance F cs a) + unat d"

lemma slash_settles:
  assumes cur: "currency_ok F" and pb: "perbill_ok F" "SlashRatio cfg \<le> perbill_one F" and inv: "validator_inv st"
    and none: "slash_destination st = None" and c: "c \<in> set (candidates st)"
    and cover: "candidate_owed st (cd_who c) \<le> unat (reserved_balance F cs (cd_who c))"
    and total: "unat (free_balance F cs (cd_who c)) + unat (reserved_balance F cs (cd_who c)) < 2 ^ 128"
    and rem: "try_remove_candidate F cfg (cd_who c) True (cs, st) = Inr (cs', st')"
  shows "bond_settled F (SlashRatio cfg) (cd_deposit c) cs cs' (cd_who c)"
    and "b \<noteq> cd_who c \<Longrightarrow> untouched F cs cs' b"
proof -
  let ?a = "cd_who c" and ?d = "cd_deposit c" and ?x = "perbill_mul F (SlashRatio cfg) (cd_deposit c)"
  obtain i r csa where a: "slash_reserved F ?a ?x cs = ((i, r), csa)" by (metis prod.collapse)
  obtain r' csb where b: "unreserve F ?a (?d - ?x) csa = (r', csb)" by (metis prod.collapse)
  have cs': "cs' = drop_imbalance F i csb"
    using rem inv
  proof (cases rule: try_remove_candidate_elim)
    case (1 c')
    then have "c' = c" using unique_candidate [of "candidates st" c] unique_candidate [of "candidates st" c'] c inv
      by (simp add: validator_inv_def)
    with 1(9) a b none show ?thesis by simp
  qed
  have d: "unat ?d \<le> unat (reserved_balance F cs ?a)" using candidate_owed_member [OF inv c] cover by simp
  have "?x \<le> ?d" by (rule perbill_mul_le [OF pb])
  then have x: "unat ?x \<le> unat ?d" "unat (?d - ?x) = unat ?d - unat ?x" by (simp_all add: word_le_nat_alt unat_minus_le)
  have "slash_ok F" "unreserve_ok F" using cur by (simp_all add: currency_ok_def)
  note s = this(1) [unfolded slash_ok_def, rule_format, OF a] and u = this(2) [unfolded unreserve_ok_def, rule_format, OF b]
  have free: "unat (free_balance F csb ?a) = unat (free_balance F csa ?a) + min (unat (?d - ?x)) (unat (reserved_balance F csa ?a))"
    using u s total by (simp add: less_le_trans)
  show "bond_settled F (SlashRatio cfg) ?d cs cs' ?a"
    unfolding bond_settled_def cs' drop_imbalance_balances [OF cur] free using s u d x by auto
  show "untouched F cs cs' b" if "b \<noteq> ?a"
    unfolding untouched_def cs' drop_imbalance_balances [OF cur] using s u that by auto
qed

text \<open>The loop: those that are dropped are settled, all other accounts are untouched.\<close>

definition all_bonds_settled ::
    "('ac, 'cs, 'o) frame \<Rightarrow> perbill \<Rightarrow> 'ac candidate_info list \<Rightarrow> 'ac set \<Rightarrow> 'cs \<Rightarrow> 'cs \<Rightarrow> bool" where
  "all_bonds_settled F ratio cands kept cs cs' \<longleftrightarrow>
     (\<forall>c \<in> set cands. cd_who c \<notin> kept \<longrightarrow> bond_settled F ratio (cd_deposit c) cs cs' (cd_who c)) \<and>
     (\<forall>a. a \<in> kept \<or> a \<notin> cd_who ` set cands \<longrightarrow> untouched F cs cs' a)"

lemma all_bonds_settled_drop:
  assumes first: "bond_settled F ratio (cd_deposit c) cs cs1 (cd_who c)" and others: "\<And>b. b \<noteq> cd_who c \<Longrightarrow> untouched F cs cs1 b"
    and rest: "all_bonds_settled F ratio cands kept cs1 cs'"
    and fresh: "cd_who c \<notin> cd_who ` set cands" and kept: "kept \<subseteq> cd_who ` set cands"
  shows "all_bonds_settled F ratio (c # cands) kept cs cs'"
  unfolding all_bonds_settled_def
proof (intro conjI ballI allI impI)
  fix x
  assume x: "x \<in> set (c # cands)" "cd_who x \<notin> kept"
  show "bond_settled F ratio (cd_deposit x) cs cs' (cd_who x)"
  proof (cases "x = c")
    case True
    have "untouched F cs1 cs' (cd_who c)" using rest fresh by (simp add: all_bonds_settled_def)
    with True first show ?thesis by (simp add: bond_settled_def untouched_def)
  next
    case False
    then have "x \<in> set cands" "cd_who x \<noteq> cd_who c" using x(1) fresh by (auto simp: image_iff)
    with rest x(2) others show ?thesis by (simp add: all_bonds_settled_def bond_settled_def untouched_def)
  qed
next
  fix a
  assume a: "a \<in> kept \<or> a \<notin> cd_who ` set (c # cands)"
  then have "a \<noteq> cd_who c" using fresh kept by auto
  with a rest others show "untouched F cs cs' a" by (auto simp: all_bonds_settled_def untouched_def)
qed

lemma kick_run_settles:
  assumes "kick_run F cfg now cands s kept s'" and cur: "currency_ok F"
    and pb: "perbill_ok F" "SlashRatio cfg \<le> perbill_one F"
    and "validator_inv (snd s)" and "slash_destination (snd s) = None" and "distinct (map cd_who cands)"
    and "\<And>a. candidate_owed (snd s) a \<le> unat (reserved_balance F (fst s) a)"
    and "\<And>a. unat (free_balance F (fst s) a) + unat (reserved_balance F (fst s) a) < 2 ^ 128"
  shows "all_bonds_settled F (SlashRatio cfg) cands (set kept) (fst s) (fst s')"
  using assms(1,5-)
proof (induction rule: kick_run.induct)
  case (kick_done s)
  then show ?case by (simp add: all_bonds_settled_def untouched_def)
next
  case (kick_keep cands cs st kept s' c)
  have "cd_who c \<notin> cd_who ` set cands" using kick_keep.prems(3) by simp
  with kick_keep show ?case by (auto simp: all_bonds_settled_def)
next
  case (kick_out cands cs1 st1 kept s' st c cs)
  have st1: "candidates st1 = without_candidate (cd_who c) st" "slash_destination st1 = slash_destination st"
    by (rule try_remove_candidate_elim [OF kick_out.hyps(6,5)]; assumption)+
  have inv1: "validator_inv st1" by (rule without_candidate_inv [OF kick_out.hyps(5) st1(1)])
  have one: "bond_settled F (SlashRatio cfg) (cd_deposit c) cs cs1 (cd_who c)" "b \<noteq> cd_who c \<Longrightarrow> untouched F cs cs1 b" for b
    using slash_settles [OF cur pb kick_out.hyps(5) _ kick_out.hyps(4) _ _ kick_out.hyps(6)] kick_out.prems by simp_all
  have tot: "unat (free_balance F cs1 a) + unat (reserved_balance F cs1 a) < 2 ^ 128" for a
    using one kick_out.prems(5) [of a] by (cases "a = cd_who c") (auto simp: bond_settled_def untouched_def)
  have cov: "candidate_owed st1 a \<le> unat (reserved_balance F cs1 a)" for a
    using try_remove_candidate_balanced [OF cur pb kick_out.hyps(5) _ kick_out.hyps(6), of a] kick_out.prems(4)
    by (metis add_le_imp_le_right add_le_mono1 add.commute snd_conv fst_conv)
  have rest: "all_bonds_settled F (SlashRatio cfg) cands (set kept) cs1 (fst s')"
    using kick_out.IH inv1 st1(2) kick_out.prems(2,3) tot cov by simp
  have kept: "cd_who c \<notin> cd_who ` set cands" "set kept \<subseteq> cd_who ` set cands"
    using kick_out.prems(3) kick_run_frame(3) [OF kick_out.hyps(1)] inv1 by simp_all
  show ?case unfolding fst_conv by (rule all_bonds_settled_drop [OF one rest kept])
qed

text \<open>C28: What a dropped candidate loses. At the end of a session in a state reached without a
  \<^verbatim>\<open>provider_bond_less\<close> whose sum wraps around (with one a candidate could drain its own reserve first), every
  candidate that is dropped gets its bond back out of the reserve except for one percent, which is burnt, because no code
  sets an account that would receive it; the balances of the candidates that stay and of all other
  accounts are untouched. (The two balances of an account together fit the balance type.)\<close>

theorem dropped_candidates_settled:
  assumes "currency_ok F" and "perbill_ok F" and "network_reaches F g P n s" and "R = network_runtime F P n"
    and "runtime_exec F R SessionEnd s = Inr s'"
    and "\<And>a. unat (free_balance F (rs_currency s) a) + unat (reserved_balance F (rs_currency s) a) < 2 ^ 128"
  shows "(\<forall>c \<in> set (candidates (rs_validators s)). c \<notin> set (candidates (rs_validators s')) \<longrightarrow>
      bond_settled F (perbill_from_percent F 1) (cd_deposit c) (rs_currency s) (rs_currency s') (cd_who c)) \<and>
    (\<forall>a. (\<forall>c \<in> set (candidates (rs_validators s)). cd_who c = a \<longrightarrow> c \<in> set (candidates (rs_validators s'))) \<longrightarrow>
      untouched F (rs_currency s) (rs_currency s') a)"
proof -
  let ?cands = "candidates (rs_validators s)" and ?cfg = "rt_validators R" and ?now = "env_block (rs_env s)"
  have inv: "validator_inv (rs_validators s)" using network_reaches_inv [OF assms(3,1)] by (simp add: chain_inv_def)
  have ratio: "SlashRatio ?cfg = perbill_from_percent F 1"
    by (cases n) (simp_all add: assms(4) network_runtime_def keiko_runtime_def local_runtime_def
        keiko_validator_config_def local_validator_config_def)
  obtain vs w t where ns: "new_session F ?cfg ?now (rs_currency s, rs_validators s) = (vs, w, t)"
    by (cases "new_session F ?cfg ?now (rs_currency s, rs_validators s)")
  have t: "t = (rs_currency s', rs_validators s')" using assms(5) ns by (auto dest: in_validators_elim)
  obtain kept where run: "kick_run F ?cfg ?now ?cands (rs_currency s, rs_validators s) kept t"
    using new_session_run [OF _ ns] inv by auto
  have "candidate_owed (rs_validators s) a \<le> unat (reserved_balance F (rs_currency s) a)" for a
    using network_reaches_covered [OF assms(3,1,2)] by (metis covered_def add_leD1 add_leD2)
  then have set: "all_bonds_settled F (SlashRatio ?cfg) ?cands (set kept) (rs_currency s) (rs_currency s')"
    using kick_run_settles [OF run assms(1,2)] one_percent [OF assms(2)] inv network_no_destination [OF assms(3,1)] assms(6)
    by (simp add: t ratio validator_inv_def)
  have "candidates (rs_validators s') = filter (\<lambda>x. cd_who x \<in> set kept \<or> cd_who x \<notin> cd_who ` set ?cands) ?cands"
    using kick_run_candidates(1) [OF run] inv by (simp add: t validator_inv_def)
  then have stay: "c \<in> set (candidates (rs_validators s')) \<longleftrightarrow> cd_who c \<in> set kept" if "c \<in> set ?cands" for c
    using that by auto
  show ?thesis
  proof (intro conjI ballI allI impI)
    fix c
    assume "c \<in> set ?cands" "c \<notin> set (candidates (rs_validators s'))"
    then show "bond_settled F (perbill_from_percent F 1) (cd_deposit c) (rs_currency s) (rs_currency s') (cd_who c)"
      using set stay by (simp add: all_bonds_settled_def ratio)
  next
    fix a
    assume "\<forall>c \<in> set ?cands. cd_who c = a \<longrightarrow> c \<in> set (candidates (rs_validators s'))"
    then have "a \<in> set kept \<or> a \<notin> cd_who ` set ?cands" using stay by auto
    then show "untouched F (rs_currency s) (rs_currency s') a" using set unfolding all_bonds_settled_def by blast
  qed
qed

text \<open>Bob and Charlie register as candidates of the development network and make no blocks.\<close>

definition demo_keys :: "(nat, ledger) runtime_state \<Rightarrow> (nat, ledger, nat option) runtime_step" where
  "demo_keys s = Foreign (rs_currency s) (\<lambda>_. True) (rs_others s)"

definition demo_candidacy :: "(nat, ledger, nat option) runtime_step list" where
  "demo_candidacy = [Transaction (Some 2) 2 (ValidatorSetCall Call_register_as_candidate),
     Transaction (Some 3) 3 (ValidatorSetCall Call_register_as_candidate)] @ replicate 20 BlockInit"

definition demo_candidates :: "(nat, ledger) runtime_state option" where
  "demo_candidates = (case demo_chain [] of None \<Rightarrow> None | Some s \<Rightarrow> run_steps ledger_frame demo_runtime (demo_keys s # demo_candidacy) s)"

definition demo_bonds :: ledger where
  "demo_bonds = \<lparr>l_free = [(1, 100000000000000000000000), (2, 99000000000000000000000), (3, 99000000000000000000000),
     (4, 100000000000000000000000), (5, 100000000000000000000000), (6, 100000000000000000000000), (100, 500), (101, 500)],
   l_reserved = [(2, 1000000000000000000000), (3, 1000000000000000000000)]\<rparr>"

lemma demo_candidates_values:
  "Option.bind demo_candidates (\<lambda>s. case runtime_exec ledger_frame demo_runtime SessionEnd s of Inl _ \<Rightarrow> None
     | Inr s' \<Rightarrow> Some (rs_currency s, candidates (rs_validators s), candidates (rs_validators s'))) =
   Some (demo_bonds, [\<lparr>cd_who = 2, cd_deposit = 1000000000000000000000\<rparr>, \<lparr>cd_who = 3, cd_deposit = 1000000000000000000000\<rparr>],
     [\<lparr>cd_who = 3, cd_deposit = 1000000000000000000000\<rparr>])"
  by code_simp

lemma demo_candidates_state:
  obtains s s' where "demo_candidates = Some s" and "runtime_exec ledger_frame demo_runtime SessionEnd s = Inr s'"
    and "rs_currency s = demo_bonds"
    and "candidates (rs_validators s) = [\<lparr>cd_who = 2, cd_deposit = 1000000000000000000000\<rparr>, \<lparr>cd_who = 3, cd_deposit = 1000000000000000000000\<rparr>]"
    and "candidates (rs_validators s') = [\<lparr>cd_who = 3, cd_deposit = 1000000000000000000000\<rparr>]"
proof (cases demo_candidates)
  case None
  then show ?thesis using demo_candidates_values by simp
next
  case (Some s)
  show ?thesis
    using demo_candidates_values that [OF Some] unfolding Some Option.bind.simps
    by (cases "runtime_exec ledger_frame demo_runtime SessionEnd s") (simp_all del: runtime_exec.simps)
qed

lemma demo_candidates_reached:
  assumes "demo_candidates = Some s"
  shows "network_reaches ledger_frame demo_genesis_config demo_platform LocalRuntime s"
proof -
  obtain t where t: "demo_chain [] = Some t" "run_steps ledger_frame demo_runtime (demo_keys t # demo_candidacy) t = Some s"
    using assms by (auto simp: demo_candidates_def split: option.splits)
  have reach: "network_reaches ledger_frame demo_genesis_config demo_platform LocalRuntime t"
    by (rule demo_reaches [OF t(1)]) simp
  obtain u where u: "runtime_exec ledger_frame demo_runtime (demo_keys t) t = Inr u"
      "run_steps ledger_frame demo_runtime demo_candidacy u = Some s"
    using t(2) by (auto split: sum.splits)
  have "step_ok ledger_frame demo_runtime t (demo_keys t)" by (simp add: step_ok_def demo_keys_def)
  then have "network_reaches ledger_frame demo_genesis_config demo_platform LocalRuntime u"
    using network_reaches_step [OF reach] u(1) by (simp add: demo_runtime_def)
  moreover have "step_ok ledger_frame demo_runtime x e" if "e \<in> set demo_candidacy" for x e
    using that by (auto simp: demo_candidacy_def step_ok_def call_fits_def ledger_frame_def)
  ultimately show ?thesis
    using run_steps_run [OF u(2)] unfolding network_reaches_def demo_runtime_def by blast
qed

theorem dropped_candidates_settled_witness:
  "\<exists>s s'. demo_candidates = Some s \<and> runtime_exec ledger_frame demo_runtime SessionEnd s = Inr s' \<and>
     ledger_reserved (rs_currency s') 2 = 0 \<and> ledger_free (rs_currency s') 2 = 99990000000000000000000 \<and>
     ledger_reserved (rs_currency s') 3 = ledger_reserved (rs_currency s) 3"
proof -
  let ?two = "\<lparr>cd_who = 2, cd_deposit = 1000000000000000000000\<rparr> :: nat candidate_info"
    and ?three = "\<lparr>cd_who = 3, cd_deposit = 1000000000000000000000\<rparr> :: nat candidate_info"
  obtain s s' where s: "demo_candidates = Some s" "rs_currency s = demo_bonds" "candidates (rs_validators s) = [?two, ?three]"
    and s': "runtime_exec ledger_frame demo_runtime SessionEnd s = Inr s'" "candidates (rs_validators s') = [?three]"
    by (rule demo_candidates_state)
  have total: "unat (ledger_free (rs_currency s) a) + unat (ledger_reserved (rs_currency s) a) < 2 ^ 128" for a
    by (simp add: s(2) demo_bonds_def ledger_free_def ledger_reserved_def get_or_def sget_def)
  have one: "ledger_perbill_mul 10000000 1000000000000000000000 = 10000000000000000000" by code_simp
  have res: "(\<forall>c \<in> set (candidates (rs_validators s)). c \<notin> set (candidates (rs_validators s')) \<longrightarrow>
      bond_settled ledger_frame (perbill_from_percent ledger_frame 1) (cd_deposit c) (rs_currency s) (rs_currency s') (cd_who c)) \<and>
    (\<forall>a. (\<forall>c \<in> set (candidates (rs_validators s)). cd_who c = a \<longrightarrow> c \<in> set (candidates (rs_validators s'))) \<longrightarrow>
      untouched ledger_frame (rs_currency s) (rs_currency s') a)"
    by (rule dropped_candidates_settled [OF ledger_currency_ok ledger_perbill_ok demo_candidates_reached [OF s(1)] demo_runtime_def s'(1)])
      (use total in \<open>simp add: ledger_frame_def\<close>)
  have two: "bond_settled ledger_frame 10000000 1000000000000000000000 demo_bonds (rs_currency s') 2"
    using res s(2,3) s'(2) by (simp add: ledger_frame_def)
  have three: "untouched ledger_frame demo_bonds (rs_currency s') 3" using res s(2,3) s'(2) by simp
  have "unat (ledger_reserved (rs_currency s') 2) = 0" "unat (ledger_free (rs_currency s') 2) = unat (99990000000000000000000 :: u128)"
    using two one by (simp_all add: bond_settled_def ledger_frame_def demo_bonds_def ledger_free_def ledger_reserved_def get_or_def sget_def)
  then have "ledger_reserved (rs_currency s') 2 = 0" "ledger_free (rs_currency s') 2 = 99990000000000000000000"
    by (simp_all only: unat_eq_zero unsigned_word_eqI)
  with three s(1,2) s'(1) show ?thesis by (auto simp: untouched_def ledger_frame_def)
qed

end
