(* ===== verification/Authority_Props.thy ===== *)
theory Authority_Props
  imports Runtime_Api Validator_Props Payment_Props
begin

text \<open>
  The validators of a session as the authorities of the consensus: aura and grandpa store at most
  \<^verbatim>\<open>MaxAuthorities\<close> of them. The limits of the validator pallet, checked at genesis only, keep the number
  of validators below it as long as root respects them.
\<close>

section \<open>The limits of the validator pallet\<close>

definition keiko_MaxAuthorities :: u32 where
  "keiko_MaxAuthorities = 250"

definition local_MaxAuthorities :: u32 where
  "local_MaxAuthorities = 250"

definition network_MaxAuthorities :: "runtime_name \<Rightarrow> u32" where
  "network_MaxAuthorities n = (case n of KeikoRuntime \<Rightarrow> keiko_MaxAuthorities | LocalRuntime \<Rightarrow> local_MaxAuthorities)"

definition validator_limits :: "('ac, 'o) validator_config \<Rightarrow> 'ac validator_state \<Rightarrow> bool" where
  "validator_limits cfg st \<longleftrightarrow> length (invulnerables st) \<le> unat (MaxInvulnerables cfg) \<and>
     desired_candidates st \<le> MaxCandidates cfg \<and> length (candidates st) \<le> unat (MaxCandidates cfg)"

lemma limits_width: "validator_limits cfg st \<Longrightarrow> length (candidates st) < 2 ^ 32"
  using unat_bound [of "MaxCandidates cfg"] by (simp add: validator_limits_def)

text \<open>What the two calls of the update origin are asked to set.\<close>

definition call_within :: "('ac, 'o) validator_config \<Rightarrow> ('ac, 'o) validator_call \<Rightarrow> bool" where
  "call_within cfg c = (case c of SetInvulnerables _ new \<Rightarrow> length new \<le> unat (MaxInvulnerables cfg)
     | SetDesiredCandidates _ mx \<Rightarrow> mx \<le> MaxCandidates cfg | _ \<Rightarrow> True)"

lemma register_within:
  assumes "register_as_candidate F cfg registered now o' (cs, st) = Inr (cs', st')" and "validator_limits cfg st"
  shows "validator_limits cfg st'"
  using assms(1)
proof (cases rule: register_as_candidate_elim)
  case (1 who)
  have "length (candidates st) < unat (desired_candidates st)"
    using 1(2) limits_width [OF assms(2)] by (simp add: word_less_nat_alt unat_of_nat)
  moreover have "unat (desired_candidates st) \<le> unat (MaxCandidates cfg)"
    using assms(2) by (simp add: validator_limits_def word_le_nat_alt)
  ultimately show ?thesis using assms(2) 1 by (simp add: validator_limits_def)
qed

lemma exec_within:
  assumes inv: "validator_inv st" and ex: "validator_exec F cfg (env, c) (cs, st) = Inr (cs', st')"
    and "call_within cfg c" and lim: "validator_limits cfg st"
  shows "validator_limits cfg st'"
proof (cases c)
  case (RegisterAsCandidate o')
  then show ?thesis using register_within [OF _ lim] ex by simp
next
  case (LeaveIntent o')
  then obtain who where rem: "try_remove_candidate F cfg who False (cs, st) = Inr (cs', st')"
    using ex by (auto elim: leave_intent_elim)
  have "candidates st' = without_candidate who st" "invulnerables st' = invulnerables st"
    "desired_candidates st' = desired_candidates st"
    by (rule try_remove_candidate_elim [OF rem inv]; assumption)+
  then show ?thesis
    using lim by (auto simp: validator_limits_def without_candidate_def intro: order_trans [OF length_filter_le])
next
  case NewSession
  obtain vs w s' where ns: "new_session F cfg (env_block env) (cs, st) = (vs, w, s')"
    by (cases "new_session F cfg (env_block env) (cs, st)")
  with NewSession ex have s': "s' = (cs', st')" by simp
  obtain kept where run: "kick_run F cfg (env_block env) (candidates st) (cs, st) kept (cs', st')"
    using new_session_run [OF _ ns] inv s' by auto
  have "length (candidates st') \<le> length (candidates st)" using kick_run_minimum(2) [OF run] limits_width [OF lim] by simp
  moreover have "invulnerables st' = invulnerables st" using kick_run_frame(2) [OF run] inv by simp
  moreover have "desired_candidates st' = desired_candidates st" using kick_run_settings(2) [OF run] by simp
  ultimately show ?thesis using lim by (simp add: validator_limits_def)
qed (use assms in \<open>auto simp: validator_limits_def call_within_def set_invulnerables_def set_desired_candidates_def
    set_candidacy_bond_def note_author_def Let_def split: option.splits if_splits sum.splits\<close>)

section \<open>On the networks\<close>

definition step_within :: "('ac, 'cs, 'o) runtime \<Rightarrow> ('ac, 'cs) runtime_state \<Rightarrow> ('ac, 'cs, 'o) runtime_step \<Rightarrow> bool" where
  "step_within R s e = (case step_kind_of s e of ValidatorStep c \<Rightarrow> call_within (rt_validators R) c | _ \<Rightarrow> True)"

lemma runtime_within:
  assumes inv: "validator_inv (rs_validators s)" "validator_limits (rt_validators R) (rs_validators s)"
    and "step_within R s e" and ex: "runtime_exec F R e s = Inr s'"
  shows "validator_inv (rs_validators s') \<and> validator_limits (rt_validators R) (rs_validators s')"
proof (cases "foreign_step e")
  case True
  then show ?thesis using foreign_step_elim(3) [OF ex] inv by (simp add: same_defs)
next
  case False
  have did: "step_did F R (step_kind_of s e) s s'" using runtime_exec_did [OF ex False] by simp
  show ?thesis
    using did inv assms(3)
    by (cases "step_kind_of s e")
      (auto simp: same_defs step_within_def dest: exec_within [OF inv(1)] validator_exec_inv [OF inv(1)])
qed

lemma genesis_within:
  assumes "length (g_invulnerables g) < 2 ^ 32" and "genesis_build F (network_runtime F P n) cs g = Some s"
  shows "validator_limits (rt_validators (network_runtime F P n)) (rs_validators s)"
  using assms
  by (auto simp: genesis_build_def validator_genesis_build_def validator_limits_def word_le_nat_alt unat_of_nat
      split: option.splits if_splits)

text \<open>C33: The validators of a session fit into the consensus. On either network, from any genesis configuration
  that the pallets accept (its invulnerables are counted in 32 bits), as long as root asks for no more
  invulnerables and candidates than the limits of the validator pallet, every session change names at most
  as many validators as aura and grandpa can store, whatever else the chain does.\<close>

theorem authorities_fit:
  assumes "length (g_invulnerables g) < 2 ^ 32" and "R = network_runtime F P n"
    and "genesis_build F R cs g = Some s0" and "runtime_run F R (step_within R) s0 s"
    and "new_session F (rt_validators R) (env_block (rs_env s)) (rs_currency s, rs_validators s) = (vs, w, s')"
  shows "\<exists>l. vs = Some l \<and> length l \<le> unat (network_MaxAuthorities n)"
proof -
  let ?cfg = "rt_validators R" and ?st = "rs_validators s"
  have max: "unat (MaxInvulnerables ?cfg) + unat (MaxCandidates ?cfg) \<le> unat (network_MaxAuthorities n)"
    by (cases n) (simp_all add: assms(2) network_MaxAuthorities_def keiko_MaxAuthorities_def local_MaxAuthorities_def)
  have start: "validator_inv (rs_validators s0) \<and> validator_limits ?cfg (rs_validators s0)"
    using genesis_within [OF assms(1)] genesis_state(1) [OF assms(3)] assms(2,3) by (simp add: chain_inv_def)
  have "validator_inv ?st \<and> validator_limits ?cfg ?st"
    using assms(4) start by (rule runtime_run_invariant) (use runtime_within in blast)
  then have inv: "validator_inv ?st" and lim: "validator_limits ?cfg ?st" by simp_all
  obtain cs' st' where s': "s' = (cs', st')" by (cases s')
  note d = new_session_drops [OF inv limits_width [OF lim] assms(5) [unfolded s']]
  have "length (candidates st') \<le> length (candidates ?st)" unfolding d(1) by (simp add: length_drop_first)
  with d lim max show ?thesis by (simp add: validator_limits_def)
qed

text \<open>The candidates of the development network, at the end of their session.\<close>

theorem authorities_fit_witness:
  "\<exists>s l w s'. demo_candidates = Some s \<and>
     new_session ledger_frame (rt_validators demo_runtime) (env_block (rs_env s)) (rs_currency s, rs_validators s) = (Some l, w, s') \<and>
     length l \<le> 250"
proof -
  obtain s where s: "demo_candidates = Some s" by (rule demo_candidates_state)
  obtain g s0 where g: "sp_genesis (network_spec ledger_frame demo_crypto (Some []) LocalRuntime) = Some g"
    and s0: "genesis_build ledger_frame demo_runtime demo_balances g = Some s0"
    and run: "run_steps ledger_frame demo_runtime (demo_keys s0 # demo_candidacy) s0 = Some s"
    using s by (auto simp: demo_candidates_def demo_chain_def split: option.splits)
  have "step_within demo_runtime t e" if "e \<in> set (demo_keys s0 # demo_candidacy)" for t e
    using that by (auto simp: demo_candidacy_def demo_keys_def step_within_def call_within_def)
  then have reach: "runtime_run ledger_frame demo_runtime (step_within demo_runtime) s0 s"
    by (rule run_steps_run [OF run _ chain_start])
  obtain vs w s' where ns: "new_session ledger_frame (rt_validators demo_runtime) (env_block (rs_env s))
      (rs_currency s, rs_validators s) = (vs, w, s')" by (metis prod.collapse)
  have "length (g_invulnerables g) < 2 ^ 32"
    using g by (auto simp: network_spec_def local_development_config_def local_genesis_fields split: option.splits)
  then have "\<exists>l. vs = Some l \<and> length l \<le> unat (network_MaxAuthorities LocalRuntime)"
    by (rule authorities_fit [OF _ demo_runtime_def s0 reach ns])
  with s ns show ?thesis by (auto simp: network_MaxAuthorities_def local_MaxAuthorities_def)
qed

end
