(* ===== verification/Runtime_Bench.thy ===== *)
theory Runtime_Bench
  imports Chain_Prelude
begin

text \<open>
  The parts of \<^verbatim>\<open>impl_runtime_apis!\<close> of both runtimes that do not just forward to the framework: the
  benchmarking API, which lists the benchmarks of the pallets and runs those that a configuration asks
  for, and the answers of the finality API to reports of equivocation. The macros \<^verbatim>\<open>list_benchmark!\<close> and
  \<^verbatim>\<open>add_benchmark!\<close>, which find and run the benchmarks of one pallet, are parameters.
\<close>

section \<open>Listing\<close>

definition keiko_benchmark_metadata :: "(bool \<Rightarrow> string \<Rightarrow> 'l list \<Rightarrow> 'l list) \<Rightarrow> 'i list \<Rightarrow> bool \<Rightarrow> 'l list \<times> 'i list" where
  "keiko_benchmark_metadata list_benchmark storage_info extra =
     (let l = [];
          l = list_benchmark extra ''pallet_block_reward'' l;
          l = list_benchmark extra ''pallet_dapi'' l;
          l = list_benchmark extra ''pallet_dapi_staking'' l;
          l = list_benchmark extra ''pallet_validator_set'' l
      in (l, storage_info))"

definition local_benchmark_metadata :: "(bool \<Rightarrow> string \<Rightarrow> 'l list \<Rightarrow> 'l list) \<Rightarrow> 'i list \<Rightarrow> bool \<Rightarrow> 'l list \<times> 'i list" where
  "local_benchmark_metadata list_benchmark storage_info extra =
     (let l = [];
          l = list_benchmark extra ''pallet_block_reward'' l;
          l = list_benchmark extra ''pallet_dapi'' l;
          l = list_benchmark extra ''pallet_dapi_staking'' l;
          l = list_benchmark extra ''pallet_validator_set'' l
      in (l, storage_info))"

section \<open>Running\<close>

text \<open>Each use of the macro may return early with its error.\<close>

fun add_benchmarks ::
    "('config \<times> string list \<Rightarrow> string \<Rightarrow> 'batch list \<Rightarrow> string + 'batch list) \<Rightarrow> 'config \<times> string list \<Rightarrow> string list \<Rightarrow>
     'batch list \<Rightarrow> string + 'batch list" where
  "add_benchmarks add_benchmark params [] batches = Inr batches"
| "add_benchmarks add_benchmark params (name # names) batches =
     (case add_benchmark params name batches of Inl err \<Rightarrow> Inl err
      | Inr batches' \<Rightarrow> add_benchmarks add_benchmark params names batches')"

text \<open>The storage keys that are not counted: block number, execution phase, event count, events.\<close>

definition bench_whitelist :: "string list" where
  "bench_whitelist =
     [''26aa394eea5630e07c48ae0c9558cef702a5c1b19ab7a04f536c519aca4983ac'',
      ''26aa394eea5630e07c48ae0c9558cef7ff553b5a9862a516939d82b3d3d8661a'',
      ''26aa394eea5630e07c48ae0c9558cef70a98fdbe9ce6c55837576c60c7af3850'',
      ''26aa394eea5630e07c48ae0c9558cef780d41e5e16056765bc8461851072c9d7'']"

definition keiko_dispatch_benchmark ::
    "('config \<times> string list \<Rightarrow> string \<Rightarrow> 'batch list \<Rightarrow> string + 'batch list) \<Rightarrow> 'config \<Rightarrow> string + 'batch list" where
  "keiko_dispatch_benchmark add_benchmark config =
     (case add_benchmarks add_benchmark (config, bench_whitelist)
        [''frame_system'', ''pallet_block_reward'', ''pallet_dapi'', ''pallet_dapi_staking'', ''pallet_validator_set''] [] of
        Inl err \<Rightarrow> Inl err
      | Inr batches \<Rightarrow> if batches = [] then Inl ''Benchmark not found for this pallet.'' else Inr batches)"

definition local_dispatch_benchmark ::
    "('config \<times> string list \<Rightarrow> string \<Rightarrow> 'batch list \<Rightarrow> string + 'batch list) \<Rightarrow> 'config \<Rightarrow> string + 'batch list" where
  "local_dispatch_benchmark add_benchmark config =
     (case add_benchmarks add_benchmark (config, bench_whitelist)
        [''frame_system'', ''pallet_block_reward'', ''pallet_dapi'', ''pallet_dapi_staking'', ''pallet_validator_set''] [] of
        Inl err \<Rightarrow> Inl err
      | Inr batches \<Rightarrow> if batches = [] then Inl ''Benchmark not found for this pallet.'' else Inr batches)"

section \<open>Equivocation\<close>

text \<open>Nobody can report an equivocation of the finality voters: there are no proofs of key ownership.\<close>

definition submit_report_equivocation_unsigned_extrinsic :: "'proof \<Rightarrow> 'key_proof \<Rightarrow> unit option" where
  "submit_report_equivocation_unsigned_extrinsic equivocation_proof key_owner_proof = None"

definition generate_key_ownership_proof :: "'set_id \<Rightarrow> 'authority \<Rightarrow> 'key_proof option" where
  "generate_key_ownership_proof set_id authority_id = None"

section \<open>What is listed can be run\<close>

text \<open>What the macros do: the list gets the name of the pallet, and the batches of a pallet are added when the
  configuration names it.\<close>

definition lists_names :: "(bool \<Rightarrow> string \<Rightarrow> string list \<Rightarrow> string list) \<Rightarrow> bool" where
  "lists_names list_benchmark \<longleftrightarrow> (\<forall>x n l. list_benchmark x n l = l @ [n])"

definition adds_named ::
    "('config \<Rightarrow> string) \<Rightarrow> ('config \<times> string list \<Rightarrow> string \<Rightarrow> 'batch list \<Rightarrow> string + 'batch list) \<Rightarrow> bool" where
  "adds_named pallet add_benchmark \<longleftrightarrow> (\<forall>c w n l. if pallet c = n
     then (\<exists>b bs. add_benchmark (c, w) n l = Inr (l @ b # bs)) else add_benchmark (c, w) n l = Inr l)"

lemma add_benchmarks_named:
  assumes "adds_named pallet add_benchmark"
  shows "\<exists>bs. add_benchmarks add_benchmark (c, w) names batches = Inr (batches @ bs) \<and> (bs = [] \<longleftrightarrow> pallet c \<notin> set names)"
proof (induction names arbitrary: batches)
  case (Cons n names)
  obtain bs where bs: "add_benchmark (c, w) n batches = Inr (batches @ bs)" "bs = [] \<longleftrightarrow> pallet c \<noteq> n"
    using assms unfolding adds_named_def by (metis append_Nil2 list.distinct(1))
  obtain bs' where "add_benchmarks add_benchmark (c, w) names (batches @ bs) = Inr ((batches @ bs) @ bs')"
    "bs' = [] \<longleftrightarrow> pallet c \<notin> set names" using Cons by blast
  with bs show ?case by auto
qed simp

lemma listed_benchmarks_run:
  assumes "lists_names list_benchmark" and "adds_named pallet add_benchmark"
    and "pallet c \<in> set (fst (keiko_benchmark_metadata list_benchmark info extra)) \<union>
      set (fst (local_benchmark_metadata list_benchmark info extra))"
  shows "\<exists>b bs. keiko_dispatch_benchmark add_benchmark c = Inr (b # bs) \<and> local_dispatch_benchmark add_benchmark c = Inr (b # bs)"
proof -
  let ?names = "[''frame_system'', ''pallet_block_reward'', ''pallet_dapi'', ''pallet_dapi_staking'', ''pallet_validator_set'']"
  have "pallet c \<in> set ?names"
    using assms(1,3) by (auto simp: keiko_benchmark_metadata_def local_benchmark_metadata_def lists_names_def)
  then obtain bs where bs: "add_benchmarks add_benchmark (c, bench_whitelist) ?names [] = Inr bs" "bs \<noteq> []"
    using add_benchmarks_named [OF assms(2), of c bench_whitelist ?names "[]"] by auto
  show ?thesis unfolding keiko_dispatch_benchmark_def local_dispatch_benchmark_def bs(1) using bs(2) by (cases bs) simp_all
qed

text \<open>Nothing else can: the node is told so.\<close>

lemma unlisted_benchmark_refused:
  assumes "adds_named pallet add_benchmark"
    and "pallet c \<notin> {''frame_system'', ''pallet_block_reward'', ''pallet_dapi'', ''pallet_dapi_staking'', ''pallet_validator_set''}"
  shows "keiko_dispatch_benchmark add_benchmark c = Inl ''Benchmark not found for this pallet.''"
    and "local_dispatch_benchmark add_benchmark c = Inl ''Benchmark not found for this pallet.''"
proof -
  let ?names = "[''frame_system'', ''pallet_block_reward'', ''pallet_dapi'', ''pallet_dapi_staking'', ''pallet_validator_set'']"
  have none: "add_benchmarks add_benchmark (c, bench_whitelist) ?names [] = Inr []"
    using add_benchmarks_named [OF assms(1), of c bench_whitelist ?names "[]"] assms(2) by auto
  show "keiko_dispatch_benchmark add_benchmark c = Inl ''Benchmark not found for this pallet.''"
    and "local_dispatch_benchmark add_benchmark c = Inl ''Benchmark not found for this pallet.''"
    unfolding keiko_dispatch_benchmark_def local_dispatch_benchmark_def none by simp_all
qed

end
