(* ===== verification/Clock_Props.thy ===== *)
theory Clock_Props
  imports Runtime_Props
begin

text \<open>
  The clock of the staking pallet: the number of the running era as a function of the number of
  blocks, over whole chains of either network.
\<close>

section \<open>Only the block hook moves the clock\<close>

text \<open>The calls that leave the era record alone.\<close>

definition clock_neutral :: "('ac, 'pid, 'o) staking_call \<Rightarrow> bool" where
  "clock_neutral c = (case c of OnInitialize _ \<Rightarrow> False | SetBlocksPerEra _ _ \<Rightarrow> False | _ \<Rightarrow> True)"

lemma staking_exec_clock:
  assumes "staking_exec F cfg c (cs, st) = Inr (cs', st')" and "clock_neutral c"
  shows "era st' = era st"
  using assms by (cases c) (auto elim!: staking_elims simp: handle_imbalance_def clock_neutral_def)

lemma staking_moves_clock:
  assumes "staking_moves F cfg clock_neutral w w'"
  shows "era (snd w') = era (snd w)"
  using assms
proof induction
  case (moves_exec w t c u)
  then show ?case using staking_exec_clock [of F cfg c "fst t" "snd t" "fst u" "snd u"] by simp
qed simp_all

lemma dapi_may_clock: "dapi_may c \<Longrightarrow> clock_neutral c"
  by (cases c) (simp_all add: dapi_may_def clock_neutral_def)

text \<open>Steps that do not change the length of eras.\<close>

definition keeps_length :: "'ac runtime_call \<Rightarrow> bool" where
  "keeps_length c = (case c of DapiStakingCall (Call_set_blocks_per_era _) \<Rightarrow> False | _ \<Rightarrow> True)"

definition step_keeps_length :: "('ac, 'cs, 'o) runtime_step \<Rightarrow> bool" where
  "step_keeps_length e = (case e of Transaction _ _ c \<Rightarrow> keeps_length c | Inner _ c \<Rightarrow> keeps_length c
     | Unfiltered _ c \<Rightarrow> keeps_length c | _ \<Rightarrow> True)"

lemma step_kind_clock:
  assumes "step_keeps_length e" and "e \<noteq> BlockInit" and "step_kind_of s e = StakingStep c"
  shows "clock_neutral c"
proof -
  have "clock_neutral c" if "keeps_length d" "kind_of o' d = StakingStep c" for o' d
  proof (cases d)
    case (DapiStakingCall x)
    with that show ?thesis by (cases x) (auto simp: keeps_length_def clock_neutral_def)
  qed (use that in simp_all)
  with assms show ?thesis by (cases e) (auto simp: step_keeps_length_def)
qed

lemma runtime_exec_block:
  assumes "runtime_exec F R e s = Inr s'"
  shows "env_block (rs_env s') = (if e = BlockInit then env_block (rs_env s) + 1 else env_block (rs_env s))"
  using assms
  by (cases e) (auto simp: apply_extrinsic_def runtime_dispatch_def in_staking_def in_dapi_def in_validators_def
      in_reward_def Let_def split: sum.splits if_splits runtime_call.splits prod.splits)

context wired_runtime
begin

lemma exec_clock:
  assumes cur: "currency_ok F" and exec: "runtime_exec F R e s = Inr s'"
    and "step_keeps_length e" and "e \<noteq> BlockInit"
  shows "era (rs_staking s') = era (rs_staking s)"
proof (cases "foreign_step e")
  case True
  then show ?thesis using foreign_step_elim(1) [OF exec True] by simp
next
  case False
  have did: "step_did F R (step_kind_of s e) s s'" using runtime_exec_did [OF exec False] ..
  show ?thesis
  proof (cases "step_kind_of s e")
    case (DapiStep o' c)
    then have "staking_moves F (rt_staking R) clock_neutral (rs_world s) (rs_world s')"
      using did by (auto intro: staking_moves_mono [OF dapi_moves [OF cur]] dapi_may_clock)
    then show ?thesis by (auto simp: rs_world_def dest: staking_moves_clock)
  next
    case (StakingStep c)
    with did step_kind_clock [OF assms(3,4) StakingStep] show ?thesis
      by (auto simp: rs_world_def dest: staking_exec_clock)
  next
    case IssueStep
    then have "staking_moves F (rt_staking R) clock_neutral (rs_world s) (rs_world s')"
      using did by (auto intro: reward_moves(1) [OF cur] simp: clock_neutral_def)
    then show ?thesis by (auto simp: rs_world_def dest: staking_moves_clock)
  next
    case (RewardStep o' c)
    with did have "rs_world s' = rs_world s" by (auto dest: set_config_elim(3))
    then show ?thesis by (simp add: rs_world_def)
  qed (use did in simp_all)
qed

end

section \<open>The era of a block\<close>

text \<open>The era record at block \<open>b\<close> when eras have \<open>len\<close> blocks and the first one starts at block 1.\<close>

definition clock_at :: "u32 \<Rightarrow> u32 \<Rightarrow> era_info \<Rightarrow> bool" where
  "clock_at len b e \<longleftrightarrow> (if b = 0 then e = EraInfo_default
     else unat (current e) = 1 + (unat b - 1) div unat len \<and>
       unat (first_block e) = 1 + (unat b - 1) div unat len * unat len \<and> era_length e = len)"

lemma on_initialize_clock:
  "era (snd (staking_on_initialize F cfg n st)) =
     (if should_update (era st) n
      then EraInfo_update (if current_era st = 0 then (era st)\<lparr>era_length := DefaultBlocksPerEra cfg\<rparr> else era st) n
      else era st)"
  by (auto simp: staking_on_initialize_def Let_def rotate_provider_era_info_def snapshot_era_rewards_def
      current_era_def staking_deposit_event_def split: prod.splits)

lemma era_boundary:
  fixes m L :: nat
  assumes "0 < L"
  shows "(m div L + 1) * L \<le> Suc m \<longleftrightarrow> Suc m mod L = 0"
proof -
  have "m div L * L + m mod L = m" by simp
  then have "(m div L + 1) * L \<le> Suc m \<longleftrightarrow> L \<le> Suc (m mod L)"
    unfolding add_mult_distrib by linarith
  also have "\<dots> \<longleftrightarrow> Suc (m mod L) = L" using mod_less_divisor [OF assms, of m] by linarith
  finally show ?thesis by (simp add: mod_Suc)
qed

lemma clock_tick:
  assumes clock: "clock_at len b (era st)" and len: "DefaultBlocksPerEra cfg = len" "0 < len" and b: "b + 1 \<noteq> 0"
  shows "clock_at len (b + 1) (era (snd (staking_on_initialize F cfg (b + 1) st)))"
proof -
  have Suc: "unat (b + 1) = Suc (unat b)" using b by (metis Suc_eq_plus1 unat_Suc_word add.inverse_inverse add_eq_0_iff2)
  have L: "0 < unat len" using len(2) by (simp add: word_less_nat_alt)
  show ?thesis
  proof (cases "b = 0")
    case True
    then have "era st = EraInfo_default" using clock by (simp add: clock_at_def)
    with True len show ?thesis
      by (simp add: on_initialize_clock clock_at_def should_update_def current_era_def EraInfo_default_def
          EraInfo_new_def saturating_add_code)
  next
    case False
    define m where "m = unat b - 1"
    have m: "unat b = Suc m" using False by (simp add: m_def unat_gt_0)
    have e: "unat (current (era st)) = 1 + m div unat len" "era_length (era st) = len"
      "unat (first_block (era st)) = 1 + m div unat len * unat len"
      using clock False by (simp_all add: clock_at_def m_def)
    have nz: "current (era st) \<noteq> 0" using e(1) by auto
    have "m div unat len * unat len \<le> Suc m" by (rule le_SucI) simp
    then have "first_block (era st) \<le> b + 1" unfolding word_le_nat_alt e Suc m by linarith
    then have upd: "should_update (era st) (b + 1) \<longleftrightarrow> Suc m mod unat len = 0"
      using nz era_boundary [OF L, of m] by (simp add: should_update_iff e Suc m add.commute [of "unat len"])
    have "m div unat len \<le> m" by simp
    moreover have "m < 2 ^ 32 - 2" using unat_bound [of "b + 1"] Suc m by simp
    ultimately have "unat (current (era st)) < 2 ^ 32 - 1" unfolding e(1) by linarith
    then have "current (era st) \<noteq> - 1" by (auto simp: unsigned_minus_1_eq_mask mask_eq_exp_minus_1)
    then have cur: "unat (saturating_add (current (era st)) 1) = 2 + m div unat len"
      using e(1) by (simp add: saturating_Suc unat_Suc_word)
    have whole: "Suc m div unat len * unat len = Suc m" if "Suc m mod unat len = 0"
      using that by (simp add: mod_eq_0_iff_dvd)
    show ?thesis
    proof (cases "Suc m mod unat len = 0")
      case True
      with upd nz cur whole b e(2) show ?thesis
        by (simp add: on_initialize_clock clock_at_def Suc m current_era_def div_Suc)
    next
      case False
      with upd b e show ?thesis by (simp add: on_initialize_clock clock_at_def Suc m div_Suc)
    qed
  qed
qed

section \<open>The clock of a network\<close>

text \<open>Steps under which the length of eras stays and the block number does not overflow.\<close>

definition clock_step_ok ::
    "('ac, 'cs, 'o) frame \<Rightarrow> ('ac, 'cs, 'o) runtime \<Rightarrow> ('ac, 'cs) runtime_state \<Rightarrow> ('ac, 'cs, 'o) runtime_step \<Rightarrow> bool" where
  "clock_step_ok F R s e \<longleftrightarrow> step_ok F R s e \<and> step_keeps_length e \<and>
     (e = BlockInit \<longrightarrow> env_block (rs_env s) + 1 \<noteq> 0)"

context wired_runtime
begin

lemma run_clock:
  assumes "runtime_run F R (clock_step_ok F R) s s'" and cur: "currency_ok F"
    and "DefaultBlocksPerEra (rt_staking R) = len" and "0 < len"
    and "clock_at len (env_block (rs_env s)) (era (rs_staking s))"
  shows "clock_at len (env_block (rs_env s')) (era (rs_staking s'))"
  using assms(1,5)
proof (rule runtime_run_invariant)
  fix t e u
  assume clock: "clock_at len (env_block (rs_env t)) (era (rs_staking t))"
    and ok: "clock_step_ok F R t e" and exec: "runtime_exec F R e t = Inr u"
  show "clock_at len (env_block (rs_env u)) (era (rs_staking u))"
  proof (cases "e = BlockInit")
    case True
    with exec have "era (rs_staking u) = era (snd (staking_on_initialize F (rt_staking R) (env_block (rs_env t) + 1) (rs_staking t)))"
      by (auto simp: in_staking_def Let_def)
    with clock_tick [OF clock assms(3,4)] True ok runtime_exec_block [OF exec] show ?thesis
      by (simp add: clock_step_ok_def)
  next
    case False
    with exec_clock [OF cur exec] ok runtime_exec_block [OF exec] clock show ?thesis
      by (simp add: clock_step_ok_def)
  qed
qed

end

lemma network_blocks_per_era: "DefaultBlocksPerEra (rt_staking (network_runtime F P n)) = 7200"
  by (cases n) (simp_all add: network_runtime_def keiko_runtime_def local_runtime_def keiko_staking_config_def
      local_staking_config_def)

text \<open>C14: Eras follow the blocks. On either network, from any genesis configuration, as long as root does not change the length of eras,
  block \<open>b\<close> is in era \<open>1 + (b - 1) div 7200\<close>, which started at block \<open>1 + (b - 1) div 7200 * 7200\<close>: whatever
  calls the blocks contain, no era is skipped, repeated or delayed. (The block number stays below its last
  value, and the blocks have no \<^verbatim>\<open>provider_bond_less\<close> whose sum wraps around.)\<close>

theorem eras_follow_blocks:
  assumes "currency_ok F" and "genesis_build F (network_runtime F P n) cs g = Some s0"
    and "runtime_run F (network_runtime F P n) (clock_step_ok F (network_runtime F P n)) s0 s"
    and "env_block (rs_env s) \<noteq> 0"
  shows "unat (current_era (rs_staking s)) = 1 + (unat (env_block (rs_env s)) - 1) div 7200 \<and>
    unat (first_block (era (rs_staking s))) = 1 + (unat (env_block (rs_env s)) - 1) div 7200 * 7200"
proof -
  have "clock_at 7200 (env_block (rs_env s0)) (era (rs_staking s0))"
    using assms(2) by (auto simp: genesis_build_def clock_at_def staking_genesis_def split: option.splits)
  from network.run_clock [OF assms(3,1) network_blocks_per_era _ this] assms(4) show ?thesis
    by (simp add: clock_at_def current_era_def)
qed

text \<open>The chain of \<open>Runtime_Props\<close>, at its first block.\<close>

lemma demo_genesis:
  "genesis_build ledger_frame demo_runtime demo_balances demo_genesis_config = Some (the (demo_chain []))"
proof -
  have "demo_chain [] \<noteq> None" by code_simp
  then show ?thesis by (auto simp: demo_chain_def demo_genesis_config_def split: option.splits)
qed

lemma demo_first_block:
  "runtime_exec ledger_frame demo_runtime BlockInit (the (demo_chain [])) = Inr (the (demo_chain [BlockInit]))"
  "env_block (rs_env (the (demo_chain []))) = 0" "env_block (rs_env (the (demo_chain [BlockInit]))) = 1"
proof -
  have ok: "demo_chain [] \<noteq> None" "demo_chain [BlockInit] \<noteq> None" by code_simp+
  show "runtime_exec ledger_frame demo_runtime BlockInit (the (demo_chain [])) = Inr (the (demo_chain [BlockInit]))"
    using ok by (auto simp: demo_chain_def split: option.splits sum.splits)
qed code_simp+

theorem eras_follow_blocks_witness:
  "unat (current_era (rs_staking (the (demo_chain [BlockInit])))) = 1"
proof -
  have "clock_step_ok ledger_frame demo_runtime (the (demo_chain [])) BlockInit"
    by (simp add: clock_step_ok_def step_ok_def step_keeps_length_def demo_first_block)
  then have "runtime_run ledger_frame demo_runtime (clock_step_ok ledger_frame demo_runtime)
      (the (demo_chain [])) (the (demo_chain [BlockInit]))"
    by (rule chain_step [OF chain_start _ demo_first_block(1)])
  from eras_follow_blocks [OF ledger_currency_ok demo_genesis [unfolded demo_runtime_def] this [unfolded demo_runtime_def]]
  show ?thesis by (simp add: demo_first_block)
qed

end
