(* ===== verification/Mocks.thy ===== *)
theory Mocks
  imports Clock_Props
begin

text \<open>
  The test runtimes of the pallets, \<^verbatim>\<open>pallets/*/src/mock.rs\<close>: their configurations, the storage their
  tests start from, and the functions that run blocks. Accounts are \<^verbatim>\<open>u64\<close> numbers there and natural
  numbers here; the balances of the validator mock and the block numbers, \<^verbatim>\<open>u64\<close> there, have the widths
  of the pallets' models. \<open>build\<close> is the genesis of the balances pallet.
\<close>

section \<open>The staking mock\<close>

datatype mock_provider = MockProvider "u8 list"

definition MockProvider_default :: mock_provider where
  "MockProvider_default = MockProvider (replicate 36 1)"

definition mock_staking_config :: "('ac, 'cs, 'o) frame \<Rightarrow> (string \<Rightarrow> 'ac) \<Rightarrow> 'ac staking_config" where
  "mock_staking_config F pallet = \<lparr>
     DefaultBlocksPerEra = 3,
     ProviderRewardsPercentage = perbill_from_percent F 80,
     MinProviderStake = 10,
     MaxDelegatorsPerProvider = 5,
     MinDelegatorStake = 10,
     MaxEraStakeValues = 8,
     UnbondingPeriod = 3,
     MaxUnlockingChunks = 4,
     pot = pallet ''mokdpstk''\<rparr>"

text \<open>Block number, currency and staking pallet.\<close>

type_synonym ('ac, 'pid, 'cs) staking_ext = "u32 \<times> 'cs \<times> ('ac, 'pid) staking_state"

definition mock_staking_build :: "((nat \<times> u128) list \<Rightarrow> 'cs) \<Rightarrow> (nat, 'pid, 'cs) staking_ext" where
  "mock_staking_build build =
     (1, build [(1, 9000), (2, 800), (3, 10000), (4, 4900), (5, 3800), (6, 10), (7, 1000), (8, 2000),
        (9, 10000), (10, 300), (11, 400), (20, 10), (540, 2), (1337, 1000000000000)],
      staking_genesis)"

definition mock_payout_block_rewards ::
    "('ac, 'cs, 'o) frame \<Rightarrow> 'ac staking_config \<Rightarrow> 'cs \<times> ('ac, 'pid) staking_state \<Rightarrow> 'cs \<times> ('ac, 'pid) staking_state" where
  "mock_payout_block_rewards F cfg = (\<lambda>(cs, st).
     let (imbalance, cs1) = issue F 123456 cs in handle_imbalance F cfg imbalance (cs1, st))"

text \<open>The body of the loop; the pallet has no \<^verbatim>\<open>on_finalize\<close>.\<close>

definition mock_next_block ::
    "('ac, 'cs, 'o) frame \<Rightarrow> 'ac staking_config \<Rightarrow> ('ac, 'pid, 'cs) staking_ext \<Rightarrow> ('ac, 'pid, 'cs) staking_ext" where
  "mock_next_block F cfg = (\<lambda>(b, w).
     let (cs, st) = mock_payout_block_rewards F cfg w
     in (b + 1, cs, snd (staking_on_initialize F cfg (b + 1) st)))"

lemma fst_mock_next_block [simp]: "fst (mock_next_block F cfg s) = fst s + 1"
  by (cases s) (simp add: mock_next_block_def split: prod.splits)

function mock_run_to_block ::
    "('ac, 'cs, 'o) frame \<Rightarrow> 'ac staking_config \<Rightarrow> u32 \<Rightarrow> ('ac, 'pid, 'cs) staking_ext \<Rightarrow> ('ac, 'pid, 'cs) staking_ext" where
  "mock_run_to_block F cfg n s = (if fst s < n then mock_run_to_block F cfg n (mock_next_block F cfg s) else s)"
  by pat_completeness auto

termination
proof (relation "measure (\<lambda>(F, cfg, n, s). unat n - unat (fst s))", goal_cases)
  case (2 F cfg n s)
  then have "fst s \<noteq> - 1" by (metis word_n1_ge linorder_not_less)
  with 2 show ?case by (simp add: unat_Suc_word word_less_nat_alt)
qed simp

declare mock_run_to_block.simps [simp del]

definition mock_run_for_blocks ::
    "('ac, 'cs, 'o) frame \<Rightarrow> 'ac staking_config \<Rightarrow> u32 \<Rightarrow> ('ac, 'pid, 'cs) staking_ext \<Rightarrow> ('ac, 'pid, 'cs) staking_ext" where
  "mock_run_for_blocks F cfg n s = mock_run_to_block F cfg (fst s + n) s"

text \<open>A loop that the pallet must end: \<open>None\<close> is out of fuel.\<close>

fun mock_advance_to_era ::
    "nat \<Rightarrow> ('ac, 'cs, 'o) frame \<Rightarrow> 'ac staking_config \<Rightarrow> era_index \<Rightarrow> ('ac, 'pid, 'cs) staking_ext \<Rightarrow>
     ('ac, 'pid, 'cs) staking_ext option" where
  "mock_advance_to_era fuel F cfg n s =
     (if current_era (snd (snd s)) < n
      then (case fuel of 0 \<Rightarrow> None
            | Suc fuel' \<Rightarrow> mock_advance_to_era fuel' F cfg n (mock_run_for_blocks F cfg 1 s))
      else Some s)"

declare mock_advance_to_era.simps [simp del]

lemma mock_payout_era [simp]: "era (snd (mock_payout_block_rewards F cfg w)) = era (snd w)"
  by (cases w) (simp add: mock_payout_block_rewards_def handle_imbalance_def split: prod.splits)

lemma mock_next_block_clock:
  assumes "clock_at len (fst s) (era (snd (snd s)))" and "DefaultBlocksPerEra cfg = len" "0 < len" and "fst s + 1 \<noteq> 0"
  shows "clock_at len (fst s + 1) (era (snd (snd (mock_next_block F cfg s))))"
proof -
  obtain b w where s: "s = (b, w)" by (cases s)
  let ?st = "snd (mock_payout_block_rewards F cfg w)"
  have "clock_at len (b + 1) (era (snd (staking_on_initialize F cfg (b + 1) ?st)))"
    using assms by (intro clock_tick) (simp_all add: s)
  then show ?thesis by (simp add: s mock_next_block_def split_beta)
qed

lemma mock_run_one_block:
  assumes "fst s + 1 \<noteq> 0"
  shows "mock_run_for_blocks F cfg 1 s = mock_next_block F cfg s"
proof -
  have "fst s < fst s + 1" using assms by (simp add: word_less_nat_alt unat_Suc_word add_eq_0_iff2)
  moreover have "\<not> fst (mock_next_block F cfg s) < fst s + 1" by simp
  ultimately show ?thesis
    unfolding mock_run_for_blocks_def by (metis mock_run_to_block.simps)
qed

text \<open>The loop of \<open>advance_to_era\<close> ends, in the first block of the era that it was asked for: as many steps as there are
  blocks up to there are enough. No era before it is left out.\<close>

lemma mock_advance_to_era_returns:
  assumes "clock_at len (fst s) (era (snd (snd s)))" and len: "DefaultBlocksPerEra cfg = len" "0 < len"
    and "fst s \<noteq> 0" and "current_era (snd (snd s)) < n" and n: "(unat n - 1) * unat len + 1 < 2 ^ 32"
    and "(unat n - 1) * unat len + 1 = unat (fst s) + fuel"
  shows "\<exists>s'. mock_advance_to_era fuel F cfg n s = Some s' \<and> current_era (snd (snd s')) = n \<and>
    unat (fst s') = (unat n - 1) * unat len + 1"
  using assms(1,4,5,7)
proof (induction fuel arbitrary: s)
  case 0
  have "unat (fst s) - 1 = (unat n - 1) * unat len" and "0 < unat len" using 0(4) len by (simp_all add: word_less_nat_alt)
  then have "unat (current_era (snd (snd s))) = 1 + (unat n - 1)"
    using 0(1,2) by (simp add: clock_at_def current_era_def)
  then show ?case using 0(3) by (simp add: word_less_nat_alt)
next
  case (Suc fuel)
  have "unat (fst s) + 1 < 2 ^ 32" using Suc.prems(4) n by simp
  then have nz: "fst s + 1 \<noteq> 0" and S: "unat (fst s + 1) = unat (fst s) + 1"
    by (auto simp: unat_word_ariths word_unat_eq_iff)
  let ?s = "mock_next_block F cfg s"
  have clock: "clock_at len (fst ?s) (era (snd (snd ?s)))"
    using mock_next_block_clock [OF Suc.prems(1) len nz] by simp
  have step: "mock_advance_to_era (Suc fuel) F cfg n s = mock_advance_to_era fuel F cfg n ?s"
    using Suc.prems(3) mock_run_one_block [OF nz, of F cfg] by (simp add: mock_advance_to_era.simps [of "Suc fuel"])
  have cur: "unat (current_era (snd (snd ?s))) = 1 + unat (fst s) div unat len"
    using clock nz S by (simp add: clock_at_def current_era_def)
  show ?case
  proof (cases "current_era (snd (snd ?s)) < n")
    case True
    then show ?thesis using Suc.IH [OF clock _ True] nz S Suc.prems(4) step by simp
  next
    case False
    have L: "0 < unat len" using len by (simp add: word_less_nat_alt)
    have "unat (fst s) \<le> (unat n - 1) * unat len" using Suc.prems(4) by simp
    then have "unat (fst s) div unat len \<le> unat n - 1"
      using L by (metis div_le_mono nonzero_mult_div_cancel_right less_numeral_extra(3))
    moreover have "0 < unat n" using Suc.prems(3) by (simp add: word_less_nat_alt)
    ultimately have "current_era (snd (snd ?s)) = n" and d: "unat (fst s) div unat len = unat n - 1"
      using cur False by (simp_all add: word_less_nat_alt word_unat_eq_iff)
    moreover have "(unat n - 1) * unat len \<le> unat (fst s)" unfolding d [symmetric] by simp
    ultimately show ?thesis using step False Suc.prems(4) S
      by (cases fuel) (simp_all add: mock_advance_to_era.simps)
  qed
qed

text \<open>\<open>None\<close> is the failed assertion.\<close>

definition mock_initialize_first_block ::
    "('ac, 'cs, 'o) frame \<Rightarrow> 'ac staking_config \<Rightarrow> ('ac, 'pid, 'cs) staking_ext \<Rightarrow> ('ac, 'pid, 'cs) staking_ext option" where
  "mock_initialize_first_block F cfg = (\<lambda>(b, w).
     if b \<noteq> 1 then None
     else let (cs, st) = mock_payout_block_rewards F cfg w
          in Some (mock_run_to_block F cfg 2 (b, cs, snd (staking_on_initialize F cfg b st))))"

section \<open>The dapi mock\<close>

text \<open>It has its own instance of the staking pallet, with the identifiers of the chain.\<close>

definition mock_dapi_staking_config :: "('ac, 'cs, 'o) frame \<Rightarrow> (string \<Rightarrow> 'ac) \<Rightarrow> 'ac staking_config" where
  "mock_dapi_staking_config F pallet = \<lparr>
     DefaultBlocksPerEra = 3,
     ProviderRewardsPercentage = perbill_from_percent F 80,
     MinProviderStake = 10,
     MaxDelegatorsPerProvider = 5,
     MinDelegatorStake = 10,
     MaxEraStakeValues = 8,
     UnbondingPeriod = 3,
     MaxUnlockingChunks = 4,
     pot = pallet ''mokdpstk''\<rparr>"

definition mock_dapi_config ::
    "('ac, 'cs, 'o) frame \<Rightarrow> (string \<Rightarrow> 'ac) \<Rightarrow>
     ('ac, massbit_id, ('ac, 'cs) staking_world, staking_error) dapi_config" where
  "mock_dapi_config F pallet = \<lparr>
     MaxChainIdLength = 64,
     ds_register = register_provider F (mock_dapi_staking_config F pallet),
     ds_unregister = unregister_provider,
     currency_withdraw = lift_withdraw F,
     on_project_payment = (\<lambda>imbalance. lift_currency (drop_imbalance F imbalance))\<rparr>"

definition mock_dapi_build ::
    "((nat \<times> u128) list \<Rightarrow> 'cs) \<Rightarrow> u32 \<times> (nat, 'cs) staking_world \<times> (nat, massbit_id) dapi_state" where
  "mock_dapi_build build =
     (1, (build [(1, 9000), (2, 800), (3, 10000), (4, 4900), (5, 3800), (6, 10), (7, 1000), (8, 2000),
        (9, 10000), (10, 300), (11, 400), (20, 10), (540, 2), (1337, 1000000000000)], staking_genesis),
      \<lparr>projects = [], providers = [], regulators = {}, chain_ids = {}, dapi_events = []\<rparr>)"

section \<open>The validator mock\<close>

definition mock_find_author :: "nat option" where
  "mock_find_author = Some 4"

definition mock_is_registered :: "nat \<Rightarrow> bool" where
  "mock_is_registered i = (if i = 7 then False else True)"

definition mock_validator_config :: "(nat, 'cs, 'o) frame \<Rightarrow> (string \<Rightarrow> nat) \<Rightarrow> db_weight \<Rightarrow> (nat, 'o) validator_config" where
  "mock_validator_config F pallet D = \<lparr>
     UpdateOrigin = (\<lambda>o'. ensure_signed F o' = Some 777),
     MaxCandidates = 20,
     MinCandidates = 1,
     MaxInvulnerables = 20,
     KickThreshold = 10,
     SlashRatio = perbill_from_percent F 10,
     ValidatorIdOf = IdentityValidator_convert,
     validator_pot = pallet ''PotStake'',
     weight_note_author = validator_UnitWeight D validator_w_note_author,
     weight_new_session = (\<lambda>r c. validator_UnitWeight D (validator_w_new_session r c))\<rparr>"

text \<open>What the session handler of the mock remembers.\<close>

record session_statics =
  SessionHandlerValidators :: "nat list"
  SessionChangeBlock :: u32

definition mock_on_genesis_session :: "(nat \<times> 'k) list \<Rightarrow> session_statics \<Rightarrow> session_statics" where
  "mock_on_genesis_session validators s = s\<lparr>SessionHandlerValidators := map fst validators\<rparr>"

definition mock_on_new_session :: "u32 \<Rightarrow> bool \<Rightarrow> (nat \<times> 'k) list \<Rightarrow> (nat \<times> 'k) list \<Rightarrow> session_statics \<Rightarrow> session_statics" where
  "mock_on_new_session block_number changed validators queued s =
     s\<lparr>SessionChangeBlock := block_number, SessionHandlerValidators := map fst validators\<rparr>"

text \<open>The balances, the validator pallet, then the session pallet (\<open>session_build\<close>, from the keys).\<close>

definition mock_validator_build ::
    "(nat, 'o) validator_config \<Rightarrow> ((nat \<times> u128) list \<Rightarrow> 'cs) \<Rightarrow>
     ((nat \<times> nat \<times> nat) list \<Rightarrow> 'cs \<times> nat validator_state \<Rightarrow> 'cs \<times> nat validator_state) \<Rightarrow>
     (u32 \<times> 'cs \<times> nat validator_state) option" where
  "mock_validator_build cfg build session_build =
     (let balances = [(1, 100), (2, 100), (3, 100), (4, 100), (5, 100)];
          keys = map (\<lambda>(i, _). (i, i, i)) balances;
          cs = build balances in
      case validator_genesis_build cfg [1, 2] 10 2 of None \<Rightarrow> None
      | Some st \<Rightarrow> Some (0, session_build keys (cs, st)))"

text \<open>\<open>hooks\<close> is \<^verbatim>\<open>on_initialize\<close> of all pallets of the mock.\<close>

function mock_initialize_to_block :: "(u32 \<Rightarrow> 's \<Rightarrow> 's) \<Rightarrow> u32 \<Rightarrow> u32 \<times> 's \<Rightarrow> u32 \<times> 's" where
  "mock_initialize_to_block hooks n (b, s) =
     (if b < n then mock_initialize_to_block hooks n (b + 1, hooks (b + 1) s) else (b, s))"
  by pat_completeness auto

termination
proof (relation "measure (\<lambda>(hooks, n, b, s). unat n - unat b)", goal_cases)
  case (2 hooks n b s)
  then have "b \<noteq> - 1" by (metis word_n1_ge linorder_not_less)
  with 2 show ?case by (simp add: unat_Suc_word word_less_nat_alt)
qed simp

section \<open>The block reward mock\<close>

definition mock_reward_config :: "('ac, 'cs, 'o) frame \<Rightarrow> (string \<Rightarrow> 'ac) \<Rightarrow> 'cs reward_pallet_config" where
  "mock_reward_config F pallet = \<lparr>
     RewardAmount = 1000000,
     currency_issue = issue F,
     payout_validators = resolve_creating F (pallet ''mokvaldt''),
     payout_providers = resolve_creating F (pallet ''mokprovd'')\<rparr>"

definition mock_reward_build :: "('ac, 'cs, 'o) frame \<Rightarrow> ((nat \<times> u128) list \<Rightarrow> 'cs) \<Rightarrow> u32 \<times> 'cs \<times> reward_state" where
  "mock_reward_build F build =
     (1, build [(1, 9000), (2, 800), (3, 10000)],
      \<lparr>reward_config = DistributionConfig_default F, reward_events = []\<rparr>)"

end
