(* ===== verification/Benchmarks.thy ===== *)
theory Benchmarks
  imports Mocks "HOL-Library.Monad_Syntax"
begin

text \<open>
  The benchmarks of the staking, dapi and block reward pallets, \<^verbatim>\<open>pallets/*/src/benchmarks.rs\<close>: each sets
  up a storage, makes the call whose weight is measured and checks the outcome. A benchmark is a
  function to \<open>option\<close>; \<open>None\<close> is a failed call, \<^verbatim>\<open>unwrap\<close> or assertion. The accounts, the funding of
  accounts and the origins are the framework's, the fields of \<open>bench_env\<close>.
\<close>

section \<open>Environment\<close>

record ('ac, 'cs, 'o) bench_env =
  bench_account :: "string \<Rightarrow> u32 \<Rightarrow> u32 \<Rightarrow> 'ac"
  whitelisted_caller :: 'ac
  make_free_balance_be :: "'ac \<Rightarrow> u128 \<Rightarrow> 'cs \<Rightarrow> 'cs"
  signed :: "'ac \<Rightarrow> 'o"
  root :: 'o

definition succeed :: "'e + 'a \<Rightarrow> 'a option" where
  "succeed r = (case r of Inl _ \<Rightarrow> None | Inr x \<Rightarrow> Some x)"

definition require :: "bool \<Rightarrow> unit option" where
  "require b = (if b then Some () else None)"

definition max_value :: u128 where
  "max_value = - 1"

section \<open>dapi-staking\<close>

definition staking_SEED :: u32 where
  "staking_SEED = 9000"

definition bench_initialize :: "('ac, 'pid) staking_state \<Rightarrow> ('ac, 'pid) staking_state" where
  "bench_initialize st = st\<lparr>era := EraInfo_default, era_state := [], reward_accumulator := 0,
     provider_info := [], provider_era_info := [], delegation_info := [], unbonding_info := []\<rparr>"

definition bench_payout_block_rewards ::
    "('ac, 'cs, 'o) frame \<Rightarrow> 'ac staking_config \<Rightarrow> 'cs \<times> ('ac, 'pid) staking_state \<Rightarrow> 'cs \<times> ('ac, 'pid) staking_state" where
  "bench_payout_block_rewards F cfg = (\<lambda>(cs, st).
     let (imbalance, cs1) = issue F 1000 cs in handle_imbalance F cfg imbalance (cs1, st))"

definition assert_last_staking_event :: "('ac, 'pid) staking_event \<Rightarrow> ('ac, 'pid) staking_state \<Rightarrow> unit option" where
  "assert_last_staking_event ev st = require (staking_events st \<noteq> [] \<and> last (staking_events st) = ev)"

text \<open>The body of the loop, then the loop; \<open>None\<close> is out of fuel.\<close>

definition bench_next_block ::
    "('ac, 'cs, 'o) frame \<Rightarrow> 'ac staking_config \<Rightarrow> ('ac, 'pid, 'cs) staking_ext \<Rightarrow> ('ac, 'pid, 'cs) staking_ext" where
  "bench_next_block F cfg = (\<lambda>(b, cs, st).
     let st1 = snd (staking_on_initialize F cfg b st);
         (cs2, st2) = bench_payout_block_rewards F cfg (cs, st1)
     in (b + 1, cs2, snd (staking_on_initialize F cfg (b + 1) st2)))"

fun bench_advance_to_era ::
    "nat \<Rightarrow> ('ac, 'cs, 'o) frame \<Rightarrow> 'ac staking_config \<Rightarrow> era_index \<Rightarrow> ('ac, 'pid, 'cs) staking_ext \<Rightarrow>
     ('ac, 'pid, 'cs) staking_ext option" where
  "bench_advance_to_era fuel F cfg n s =
     (if current_era (snd (snd s)) < n
      then (case fuel of 0 \<Rightarrow> None | Suc fuel' \<Rightarrow> bench_advance_to_era fuel' F cfg n (bench_next_block F cfg s))
      else Some s)"

declare bench_advance_to_era.simps [simp del]

definition bench_register_provider ::
    "('ac, 'cs, 'o) frame \<Rightarrow> 'ac staking_config \<Rightarrow> ('ac, 'cs, 'o) bench_env \<Rightarrow> 'pid \<Rightarrow>
     'cs \<times> ('ac, 'pid) staking_state \<Rightarrow> ('ac \<times> 'cs \<times> ('ac, 'pid) staking_state) option" where
  "bench_register_provider F cfg B provider_id = (\<lambda>(cs, st). do {
     let owner = bench_account B ''owner'' 10000 staking_SEED;
     let cs1 = make_free_balance_be B owner max_value cs;
     w <- succeed (register_provider F cfg owner provider_id (MinProviderStake cfg) (cs1, st));
     Some (owner, w)
   })"

fun bench_delegate_all ::
    "('ac, 'cs, 'o) frame \<Rightarrow> 'ac staking_config \<Rightarrow> ('ac, 'cs, 'o) bench_env \<Rightarrow> 'pid \<Rightarrow> u32 \<Rightarrow> nat list \<Rightarrow>
     'cs \<times> ('ac, 'pid) staking_state \<Rightarrow> ('ac list \<times> 'cs \<times> ('ac, 'pid) staking_state) option" where
  "bench_delegate_all F cfg B provider_id seed [] w = Some ([], w)"
| "bench_delegate_all F cfg B provider_id seed (i # is) w = do {
     let delegator = bench_account B ''delegator'' (word_of_nat i) seed;
     let cs1 = make_free_balance_be B delegator max_value (fst w);
     w1 <- succeed (delegate F cfg (signed B delegator) provider_id (MinDelegatorStake cfg) (cs1, snd w));
     (delegators, w2) <- bench_delegate_all F cfg B provider_id seed is w1;
     Some (delegator # delegators, w2)
   }"

definition prepare_delegate ::
    "('ac, 'cs, 'o) frame \<Rightarrow> 'ac staking_config \<Rightarrow> ('ac, 'cs, 'o) bench_env \<Rightarrow> u32 \<Rightarrow> 'pid \<Rightarrow> u32 \<Rightarrow>
     'cs \<times> ('ac, 'pid) staking_state \<Rightarrow> ('ac list \<times> 'cs \<times> ('ac, 'pid) staking_state) option" where
  "prepare_delegate F cfg B delegator_count provider_id seed w =
     bench_delegate_all F cfg B provider_id seed [0..<unat delegator_count] w"

text \<open>The benchmarks, on the block number and the storage; \<open>k\<close> is the fuel of \<open>advance_to_era\<close>.\<close>

definition bench_set_blocks_per_era ::
    "('ac, 'cs, 'o) frame \<Rightarrow> ('ac, 'cs, 'o) bench_env \<Rightarrow> ('ac, 'pid, 'cs) staking_ext \<Rightarrow> unit option" where
  "bench_set_blocks_per_era F B = (\<lambda>(b, w). do {
     w1 <- succeed (set_blocks_per_era F (root B) 1200 w);
     require (era_length (era (snd w1)) = 1200)
   })"

definition bench_provider_bond_more ::
    "('ac, 'cs, 'o) frame \<Rightarrow> 'ac staking_config \<Rightarrow> ('ac, 'cs, 'o) bench_env \<Rightarrow> 'pid \<Rightarrow>
     ('ac, 'pid, 'cs) staking_ext \<Rightarrow> unit option" where
  "bench_provider_bond_more F cfg B provider_id = (\<lambda>(b, cs, st). do {
     (owner, w1) <- bench_register_provider F cfg B provider_id (cs, bench_initialize st);
     let amount = max_value div 2;
     w2 <- succeed (provider_bond_more F (signed B owner) provider_id amount w1);
     assert_last_staking_event (ProviderBondedMore provider_id amount) (snd w2)
   })"

definition bench_provider_bond_less ::
    "('ac, 'cs, 'o) frame \<Rightarrow> 'ac staking_config \<Rightarrow> ('ac, 'cs, 'o) bench_env \<Rightarrow> 'pid \<Rightarrow>
     ('ac, 'pid, 'cs) staking_ext \<Rightarrow> unit option" where
  "bench_provider_bond_less F cfg B provider_id = (\<lambda>(b, cs, st). do {
     (owner, w1) <- bench_register_provider F cfg B provider_id (cs, bench_initialize st);
     let amount = max_value div 2;
     w2 <- succeed (provider_bond_more F (signed B owner) provider_id amount w1);
     w3 <- succeed (provider_bond_less F cfg (signed B owner) provider_id amount w2);
     assert_last_staking_event (ProviderBondedLess provider_id amount) (snd w3)
   })"

definition bench_delegate ::
    "('ac, 'cs, 'o) frame \<Rightarrow> 'ac staking_config \<Rightarrow> ('ac, 'cs, 'o) bench_env \<Rightarrow> 'pid \<Rightarrow>
     ('ac, 'pid, 'cs) staking_ext \<Rightarrow> unit option" where
  "bench_delegate F cfg B provider_id = (\<lambda>(b, cs, st). do {
     (_, w1) <- bench_register_provider F cfg B provider_id (cs, bench_initialize st);
     (_, cs2, st2) <- prepare_delegate F cfg B (MaxDelegatorsPerProvider cfg - 1) provider_id staking_SEED w1;
     let delegator = whitelisted_caller B;
     let amount = max_value div 2;
     w3 <- succeed (delegate F cfg (signed B delegator) provider_id amount
             (make_free_balance_be B delegator max_value cs2, st2));
     assert_last_staking_event (Delegated delegator provider_id amount) (snd w3)
   })"

definition bench_delegator_unstake ::
    "('ac, 'cs, 'o) frame \<Rightarrow> 'ac staking_config \<Rightarrow> ('ac, 'cs, 'o) bench_env \<Rightarrow> 'pid \<Rightarrow>
     ('ac, 'pid, 'cs) staking_ext \<Rightarrow> unit option" where
  "bench_delegator_unstake F cfg B provider_id = (\<lambda>(b, cs, st). do {
     (_, w1) <- bench_register_provider F cfg B provider_id (cs, bench_initialize st);
     (_, cs2, st2) <- prepare_delegate F cfg B (MaxDelegatorsPerProvider cfg - 1) provider_id staking_SEED w1;
     let delegator = whitelisted_caller B;
     let amount = max_value div 2;
     w3 <- succeed (delegate F cfg (signed B delegator) provider_id amount
             (make_free_balance_be B delegator max_value cs2, st2));
     w4 <- succeed (delegator_unstake F cfg (signed B delegator) provider_id amount w3);
     assert_last_staking_event (DelegatorUnstaked delegator provider_id amount) (snd w4)
   })"

definition bench_withdraw_unbonded ::
    "nat \<Rightarrow> ('ac, 'cs, 'o) frame \<Rightarrow> 'ac staking_config \<Rightarrow> ('ac, 'cs, 'o) bench_env \<Rightarrow> 'pid \<Rightarrow>
     ('ac, 'pid, 'cs) staking_ext \<Rightarrow> unit option" where
  "bench_withdraw_unbonded k F cfg B provider_id = (\<lambda>(b, cs, st). do {
     (_, w1) <- bench_register_provider F cfg B provider_id (cs, bench_initialize st);
     (_, cs2, st2) <- prepare_delegate F cfg B (MaxDelegatorsPerProvider cfg - 1) provider_id staking_SEED w1;
     let delegator = whitelisted_caller B;
     let stake_amount = max_value div 2;
     let unstake_amount = stake_amount div 2;
     w3 <- succeed (delegate F cfg (signed B delegator) provider_id stake_amount
             (make_free_balance_be B delegator max_value cs2, st2));
     w4 <- succeed (delegator_unstake F cfg (signed B delegator) provider_id unstake_amount w3);
     (b5, w5) <- bench_advance_to_era k F cfg (current_era (snd w4) + 1 + UnbondingPeriod cfg) (b, w4);
     w6 <- succeed (withdraw_unbonded F (signed B delegator) w5);
     assert_last_staking_event (Withdrawn delegator unstake_amount) (snd w6)
   })"

definition bench_claim_provider ::
    "nat \<Rightarrow> ('ac, 'cs, 'o) frame \<Rightarrow> 'ac staking_config \<Rightarrow> ('ac, 'cs, 'o) bench_env \<Rightarrow> 'pid \<Rightarrow>
     ('ac, 'pid, 'cs) staking_ext \<Rightarrow> unit option" where
  "bench_claim_provider k F cfg B provider_id = (\<lambda>(b, cs, st). do {
     (owner, w1) <- bench_register_provider F cfg B provider_id (cs, bench_initialize st);
     let claim_era = current_era (snd w1);
     (b2, w2) <- bench_advance_to_era k F cfg (claim_era + 1) (b, w1);
     w3 <- succeed (claim_provider F cfg (signed B owner) provider_id claim_era w2);
     info <- sget (provider_era_info (snd w3)) (provider_id, claim_era);
     require (pe_reward_claimed info)
   })"

definition bench_claim_delegator ::
    "nat \<Rightarrow> ('ac, 'cs, 'o) frame \<Rightarrow> 'ac staking_config \<Rightarrow> ('ac, 'cs, 'o) bench_env \<Rightarrow> 'pid \<Rightarrow>
     ('ac, 'pid, 'cs) staking_ext \<Rightarrow> unit option" where
  "bench_claim_delegator k F cfg B provider_id = (\<lambda>(b, cs, st). do {
     (_, w1) <- bench_register_provider F cfg B provider_id (cs, bench_initialize st);
     let claim_era = current_era (snd w1);
     (delegators, w2) <- prepare_delegate F cfg B 3 provider_id staking_SEED w1;
     let delegator = hd delegators;
     (b3, w3) <- bench_advance_to_era k F cfg (claim_era + 1) (b, w2);
     w4 <- succeed (claim_delegator F cfg (signed B delegator) provider_id w3);
     require (fst (fst (claim (delegation_of (snd w4) delegator provider_id))) > claim_era)
   })"

definition bench_provider_withdraw_unregistered ::
    "nat \<Rightarrow> ('ac, 'cs, 'o) frame \<Rightarrow> 'ac staking_config \<Rightarrow> ('ac, 'cs, 'o) bench_env \<Rightarrow> 'pid \<Rightarrow>
     ('ac, 'pid, 'cs) staking_ext \<Rightarrow> unit option" where
  "bench_provider_withdraw_unregistered k F cfg B provider_id = (\<lambda>(b, cs, st). do {
     (owner, w1) <- bench_register_provider F cfg B provider_id (cs, bench_initialize st);
     w2 <- succeed (unregister_provider provider_id w1);
     (b3, w3) <- bench_advance_to_era k F cfg (current_era (snd w2) + 1 + UnbondingPeriod cfg) (b, w2);
     w4 <- succeed (provider_withdraw_unregistered F cfg (signed B owner) provider_id w3);
     provider <- sget (provider_info (snd w4)) provider_id;
     _ <- require (pm_bond_withdrawn provider);
     assert_last_staking_event (Withdrawn owner (MinProviderStake cfg)) (snd w4)
   })"

definition bench_delegator_withdraw_unregistered ::
    "nat \<Rightarrow> ('ac, 'cs, 'o) frame \<Rightarrow> 'ac staking_config \<Rightarrow> ('ac, 'cs, 'o) bench_env \<Rightarrow> 'pid \<Rightarrow>
     ('ac, 'pid, 'cs) staking_ext \<Rightarrow> unit option" where
  "bench_delegator_withdraw_unregistered k F cfg B provider_id = (\<lambda>(b, cs, st). do {
     (_, w1) <- bench_register_provider F cfg B provider_id (cs, bench_initialize st);
     (delegators, w2) <- prepare_delegate F cfg B 1 provider_id staking_SEED w1;
     let delegator = hd delegators;
     w3 <- succeed (unregister_provider provider_id w2);
     (b4, w4) <- bench_advance_to_era k F cfg (current_era (snd w3) + 1 + UnbondingPeriod cfg) (b, w3);
     w5 <- succeed (delegator_withdraw_unregistered F cfg (signed B delegator) provider_id w4);
     _ <- require (latest_staked_value (delegation_of (snd w5) delegator provider_id) = 0);
     assert_last_staking_event (Withdrawn delegator (MinDelegatorStake cfg)) (snd w5)
   })"

section \<open>dapi\<close>

definition dapi_SEED :: u32 where
  "dapi_SEED = 9000"

type_synonym ('ac, 'w) dapi_ext = "'w \<times> ('ac, massbit_id) dapi_state"

definition bench_chain_id :: "u8 list" where
  "bench_chain_id = as_bytes ''eth.mainnet''"

definition bench_dapi_initialize ::
    "('ac, 'cs, 'o) frame \<Rightarrow> ('ac, massbit_id, 'w, 'e) dapi_config \<Rightarrow> ('ac, 'cs, 'o) bench_env \<Rightarrow>
     ('ac, 'w) dapi_ext \<Rightarrow> ('ac, 'w) dapi_ext option" where
  "bench_dapi_initialize F cfg B = (\<lambda>(w, st).
     succeed (add_chain_id F cfg (root B) bench_chain_id
       (w, st\<lparr>projects := [], providers := [], regulators := {}, chain_ids := {}\<rparr>)))"

definition assert_last_dapi_event :: "('ac, massbit_id) dapi_event \<Rightarrow> ('ac, massbit_id) dapi_state \<Rightarrow> unit option" where
  "assert_last_dapi_event ev st = require (dapi_events st \<noteq> [] \<and> last (dapi_events st) = ev)"

text \<open>\<open>fund\<close> is \<^verbatim>\<open>make_free_balance_be\<close> on the storage behind the pallet.\<close>

definition bench_register_project ::
    "('ac, 'cs, 'o) frame \<Rightarrow> ('ac, massbit_id, 'w, 'e) dapi_config \<Rightarrow> ('ac, 'cs, 'o) bench_env \<Rightarrow>
     ('ac \<Rightarrow> u128 \<Rightarrow> 'w \<Rightarrow> 'w) \<Rightarrow> ('ac, 'w) dapi_ext \<Rightarrow> unit option" where
  "bench_register_project F cfg B fund s = do {
     (w, st) <- bench_dapi_initialize F cfg B s;
     let consumer = bench_account B ''consumer'' 10000 dapi_SEED;
     let project_id = MassbitId_default;
     let amount = max_value div 2;
     let q = calculate_quota amount;
     s1 <- succeed (register_project F cfg (signed B consumer) project_id bench_chain_id amount
             (fund consumer max_value w, st));
     assert_last_dapi_event (ProjectRegistered project_id consumer bench_chain_id q) (snd s1)
   }"

definition bench_deposit_project ::
    "('ac, 'cs, 'o) frame \<Rightarrow> ('ac, massbit_id, 'w, 'e) dapi_config \<Rightarrow> ('ac, 'cs, 'o) bench_env \<Rightarrow>
     ('ac \<Rightarrow> u128 \<Rightarrow> 'w \<Rightarrow> 'w) \<Rightarrow> ('ac, 'w) dapi_ext \<Rightarrow> unit option" where
  "bench_deposit_project F cfg B fund s = do {
     (w, st) <- bench_dapi_initialize F cfg B s;
     let consumer = bench_account B ''consumer'' 10000 dapi_SEED;
     let project_id = MassbitId_default;
     let amount = max_value div 3;
     s1 <- succeed (register_project F cfg (signed B consumer) project_id bench_chain_id amount
             (fund consumer max_value w, st));
     _ <- succeed (deposit_project F cfg (signed B consumer) project_id amount s1);
     Some ()
   }"

text \<open>What the two provider benchmarks start with: a regulator registers a gateway for the owner.\<close>

definition bench_registered_provider ::
    "('ac, 'cs, 'o) frame \<Rightarrow> ('ac, massbit_id, 'w, 'e) dapi_config \<Rightarrow> ('ac, 'cs, 'o) bench_env \<Rightarrow>
     ('ac \<Rightarrow> u128 \<Rightarrow> 'w \<Rightarrow> 'w) \<Rightarrow> ('ac, 'w) dapi_ext \<Rightarrow> ('ac \<times> ('ac, 'w) dapi_ext) option" where
  "bench_registered_provider F cfg B fund s = do {
     s1 <- bench_dapi_initialize F cfg B s;
     let regulator = bench_account B ''regulator'' 10000 dapi_SEED;
     (w, st) <- succeed (add_regulator F (root B) regulator s1 :: ('ac, massbit_id, 'w, 'e) dapi_result);
     let owner = bench_account B ''owner'' 20000 dapi_SEED;
     s2 <- succeed (dapi_register_provider F cfg (signed B regulator) MassbitId_default Gateway owner bench_chain_id
             (fund owner max_value w, st));
     Some (owner, s2)
   }"

definition bench_deposit_provider ::
    "('ac, 'cs, 'o) frame \<Rightarrow> ('ac, massbit_id, 'w, 'e) dapi_config \<Rightarrow> ('ac, 'cs, 'o) bench_env \<Rightarrow>
     ('ac \<Rightarrow> u128 \<Rightarrow> 'w \<Rightarrow> 'w) \<Rightarrow> ('ac, 'w) dapi_ext \<Rightarrow> unit option" where
  "bench_deposit_provider F cfg B fund s = do {
     (owner, s1) <- bench_registered_provider F cfg B fund s;
     s2 <- succeed (deposit_provider F cfg (signed B owner) MassbitId_default (max_value div 2) s1);
     assert_last_dapi_event (ProviderActivated MassbitId_default Gateway) (snd s2)
   }"

definition bench_unregister_provider ::
    "('ac, 'cs, 'o) frame \<Rightarrow> ('ac, massbit_id, 'w, 'e) dapi_config \<Rightarrow> ('ac, 'cs, 'o) bench_env \<Rightarrow>
     ('ac \<Rightarrow> u128 \<Rightarrow> 'w \<Rightarrow> 'w) \<Rightarrow> ('ac, 'w) dapi_ext \<Rightarrow> unit option" where
  "bench_unregister_provider F cfg B fund s = do {
     (owner, s1) <- bench_registered_provider F cfg B fund s;
     s2 <- succeed (deposit_provider F cfg (signed B owner) MassbitId_default (max_value div 2) s1);
     s3 <- succeed (dapi_unregister_provider F cfg (signed B owner) MassbitId_default s2);
     assert_last_dapi_event (ProviderDeactivated MassbitId_default Gateway UnRegistered) (snd s3)
   }"

definition bench_add_chain_id ::
    "('ac, 'cs, 'o) frame \<Rightarrow> ('ac, massbit_id, 'w, 'e) dapi_config \<Rightarrow> ('ac, 'cs, 'o) bench_env \<Rightarrow>
     ('ac, 'w) dapi_ext \<Rightarrow> unit option" where
  "bench_add_chain_id F cfg B = (\<lambda>(w, st). do {
     _ <- succeed (add_chain_id F cfg (root B) bench_chain_id (w, st\<lparr>chain_ids := {}\<rparr>));
     Some ()
   })"

definition bench_remove_chain_id ::
    "('ac, 'cs, 'o) frame \<Rightarrow> ('ac, massbit_id, 'w, 'e) dapi_config \<Rightarrow> ('ac, 'cs, 'o) bench_env \<Rightarrow>
     ('ac, 'w) dapi_ext \<Rightarrow> unit option" where
  "bench_remove_chain_id F cfg B = (\<lambda>(w, st). do {
     s1 <- succeed (add_chain_id F cfg (root B) bench_chain_id (w, st\<lparr>chain_ids := {}\<rparr>));
     _ <- succeed (remove_chain_id F cfg (root B) bench_chain_id s1);
     Some ()
   })"

definition bench_add_regulator ::
    "('ac, 'cs, 'o) frame \<Rightarrow> ('ac, massbit_id, 'w, 'e) dapi_config \<Rightarrow> ('ac, 'cs, 'o) bench_env \<Rightarrow>
     ('ac, 'w) dapi_ext \<Rightarrow> unit option" where
  "bench_add_regulator F cfg B s = do {
     s1 <- bench_dapi_initialize F cfg B s;
     let regulator = bench_account B ''regulator'' 10000 dapi_SEED;
     _ <- succeed (add_regulator F (root B) regulator s1 :: ('ac, massbit_id, 'w, 'e) dapi_result);
     Some ()
   }"

definition bench_remove_regulator ::
    "('ac, 'cs, 'o) frame \<Rightarrow> ('ac, massbit_id, 'w, 'e) dapi_config \<Rightarrow> ('ac, 'cs, 'o) bench_env \<Rightarrow>
     ('ac, 'w) dapi_ext \<Rightarrow> unit option" where
  "bench_remove_regulator F cfg B s = do {
     s1 <- bench_dapi_initialize F cfg B s;
     let regulator = bench_account B ''regulator'' 10000 dapi_SEED;
     s2 <- succeed (add_regulator F (root B) regulator s1 :: ('ac, massbit_id, 'w, 'e) dapi_result);
     _ <- succeed (remove_regulator F (root B) regulator s2 :: ('ac, massbit_id, 'w, 'e) dapi_result);
     Some ()
   }"

section \<open>block-reward\<close>

definition bench_set_config ::
    "('ac, 'cs, 'o) frame \<Rightarrow> ('ac, 'cs, 'o) bench_env \<Rightarrow> 'w \<times> reward_state \<Rightarrow> unit option" where
  "bench_set_config F B s = do {
     let c = DistributionConfig_default F;
     _ <- require (distribution_is_valid F c);
     s1 <- succeed (set_config F (root B) c s);
     require (reward_events (snd s1) \<noteq> [] \<and> last (reward_events (snd s1)) = DistributionConfigChanged c)
   }"

end
