(* ===== verification/Validator_Bench.thy ===== *)
theory Validator_Bench
  imports Benchmarks
begin

text \<open>
  The benchmarks of the validator pallet, \<^verbatim>\<open>pallets/validator-set/src/benchmarks.rs\<close>. Their set-ups have a
  parameter, the number of candidates; the one of \<open>new_session\<close>, from which the weight of a session change
  is computed, is shown to pass for every choice of its parameters.
\<close>

section \<open>Environment\<close>

text \<open>The session pallet, over its storage \<open>'ss\<close>: \<open>set_keys\<close> may refuse (an account that does not exist, a key
  that has another owner) or answers with the storage afterwards; \<open>is_registered\<close> tells who has keys.\<close>

record ('ac, 'cs, 'o, 'k, 'ss) session_bench = "('ac, 'cs, 'o) bench_env" +
  bench_keys :: "u32 \<Rightarrow> 'k"
  set_keys :: "'ac \<Rightarrow> 'k \<Rightarrow> 'cs \<Rightarrow> 'ss \<Rightarrow> 'ss option"
  is_registered :: "'ss \<Rightarrow> 'ac \<Rightarrow> bool"
  successful_origin :: 'o

record ('ac, 'cs, 'ss) validator_ext =
  ve_block :: u32
  ve_session :: 'ss
  ve_currency :: 'cs
  ve_validators :: "'ac validator_state"

definition validator_SEED :: u32 where
  "validator_SEED = 0"

section \<open>Set-up\<close>

definition assert_last_validator_event :: "'ac validator_event \<Rightarrow> 'ac validator_state \<Rightarrow> unit option" where
  "assert_last_validator_event ev st = require (validator_events st \<noteq> [] \<and> last (validator_events st) = ev)"

definition create_funded_user ::
    "('ac, 'cs, 'o) frame \<Rightarrow> ('ac, 'cs, 'o, 'k, 'ss) session_bench \<Rightarrow> string \<Rightarrow> u32 \<Rightarrow> u32 \<Rightarrow>
     ('ac, 'cs, 'ss) validator_ext \<Rightarrow> 'ac \<times> ('ac, 'cs, 'ss) validator_ext" where
  "create_funded_user F B name n balance_factor s =
     (let user = bench_account B name n validator_SEED;
          balance = minimum_balance F * ucast balance_factor
      in (user, s\<lparr>ve_currency := make_free_balance_be B user balance (ve_currency s)\<rparr>))"

definition bench_validator ::
    "('ac, 'cs, 'o) frame \<Rightarrow> ('ac, 'cs, 'o, 'k, 'ss) session_bench \<Rightarrow> u32 \<Rightarrow> ('ac, 'cs, 'ss) validator_ext \<Rightarrow>
     ('ac \<times> 'k) \<times> ('ac, 'cs, 'ss) validator_ext" where
  "bench_validator F B c s =
     (let (user, s1) = create_funded_user F B ''candidate'' c 1000 s in ((user, bench_keys B c), s1))"

fun bench_validators ::
    "('ac, 'cs, 'o) frame \<Rightarrow> ('ac, 'cs, 'o, 'k, 'ss) session_bench \<Rightarrow> nat list \<Rightarrow> ('ac, 'cs, 'ss) validator_ext \<Rightarrow>
     ('ac \<times> 'k) list \<times> ('ac, 'cs, 'ss) validator_ext" where
  "bench_validators F B [] s = ([], s)"
| "bench_validators F B (c # cs) s =
     (let (v, s1) = bench_validator F B (word_of_nat c) s; (vs, s2) = bench_validators F B cs s1 in (v # vs, s2))"

fun bench_set_keys ::
    "('ac, 'cs, 'o, 'k, 'ss) session_bench \<Rightarrow> ('ac \<times> 'k) list \<Rightarrow> ('ac, 'cs, 'ss) validator_ext \<Rightarrow> ('ac, 'cs, 'ss) validator_ext option" where
  "bench_set_keys B [] s = Some s"
| "bench_set_keys B ((who, keys) # vs) s = do {
     session <- set_keys B who keys (ve_currency s) (ve_session s);
     bench_set_keys B vs (s\<lparr>ve_session := session\<rparr>)
   }"

definition register_validators ::
    "('ac, 'cs, 'o) frame \<Rightarrow> ('ac, 'cs, 'o, 'k, 'ss) session_bench \<Rightarrow> u32 \<Rightarrow> ('ac, 'cs, 'ss) validator_ext \<Rightarrow>
     ('ac list \<times> ('ac, 'cs, 'ss) validator_ext) option" where
  "register_validators F B count s =
     (let (validators, s1) = bench_validators F B [0..<unat count] s in do {
        s2 <- bench_set_keys B validators s1;
        Some (map fst validators, s2)
      })"

fun bench_register_all ::
    "('ac, 'cs, 'o) frame \<Rightarrow> ('ac, 'o) validator_config \<Rightarrow> ('ac, 'cs, 'o, 'k, 'ss) session_bench \<Rightarrow> 'ac list \<Rightarrow>
     ('ac, 'cs, 'ss) validator_ext \<Rightarrow> ('ac, 'cs, 'ss) validator_ext option" where
  "bench_register_all F cfg B [] s = Some s"
| "bench_register_all F cfg B (who # rest) s = do {
     let cs = make_free_balance_be B who (candidacy_bond (ve_validators s) * 2) (ve_currency s);
     (cs1, st1) <- succeed (register_as_candidate F cfg (is_registered B (ve_session s)) (ve_block s) (signed B who) (cs, ve_validators s));
     bench_register_all F cfg B rest (s\<lparr>ve_currency := cs1, ve_validators := st1\<rparr>)
   }"

definition bench_candidates :: "('ac, 'cs, 'o, 'k, 'ss) session_bench \<Rightarrow> u32 \<Rightarrow> 'ac list" where
  "bench_candidates B count = map (\<lambda>c. bench_account B ''candidate'' (word_of_nat c) validator_SEED) [0..<unat count]"

definition register_candidates ::
    "('ac, 'cs, 'o) frame \<Rightarrow> ('ac, 'o) validator_config \<Rightarrow> ('ac, 'cs, 'o, 'k, 'ss) session_bench \<Rightarrow> u32 \<Rightarrow>
     ('ac, 'cs, 'ss) validator_ext \<Rightarrow> ('ac, 'cs, 'ss) validator_ext option" where
  "register_candidates F cfg B count s = do {
     _ <- require (candidacy_bond (ve_validators s) > 0);
     bench_register_all F cfg B (bench_candidates B count) s
   }"

section \<open>The benchmarks\<close>

definition bench_set_invulnerables ::
    "('ac, 'cs, 'o) frame \<Rightarrow> ('ac, 'o) validator_config \<Rightarrow> ('ac, 'cs, 'o, 'k, 'ss) session_bench \<Rightarrow> u32 \<Rightarrow>
     ('ac, 'cs, 'ss) validator_ext \<Rightarrow> unit option" where
  "bench_set_invulnerables F cfg B b s = do {
     (new_invulnerables, s1) <- register_validators F B b s;
     (_, st) <- succeed (set_invulnerables cfg (is_registered B (ve_session s1)) (successful_origin B) new_invulnerables
                  (ve_currency s1, ve_validators s1));
     assert_last_validator_event (NewInvulnerables new_invulnerables) st
   }"

definition bench_set_desired_candidates ::
    "('ac, 'o) validator_config \<Rightarrow> ('ac, 'cs, 'o, 'k, 'ss) session_bench \<Rightarrow> ('ac, 'cs, 'ss) validator_ext \<Rightarrow> unit option" where
  "bench_set_desired_candidates cfg B s = do {
     (_, st) <- succeed (set_desired_candidates cfg (successful_origin B) 999 (ve_currency s, ve_validators s));
     assert_last_validator_event (NewDesiredCandidates 999) st
   }"

definition bench_set_candidacy_bond ::
    "('ac, 'cs, 'o) frame \<Rightarrow> ('ac, 'o) validator_config \<Rightarrow> ('ac, 'cs, 'o, 'k, 'ss) session_bench \<Rightarrow>
     ('ac, 'cs, 'ss) validator_ext \<Rightarrow> unit option" where
  "bench_set_candidacy_bond F cfg B s = do {
     let bond = minimum_balance F * 10;
     (_, st) <- succeed (set_candidacy_bond cfg (successful_origin B) bond (ve_currency s, ve_validators s));
     assert_last_validator_event (NewCandidacyBond bond) st
   }"

text \<open>Writes the candidacy bond and the desired number of candidates.\<close>

definition bench_put ::
    "('ac, 'cs, 'o) frame \<Rightarrow> u32 \<Rightarrow> ('ac, 'cs, 'ss) validator_ext \<Rightarrow> ('ac, 'cs, 'ss) validator_ext" where
  "bench_put F desired s = s\<lparr>ve_validators := (ve_validators s)\<lparr>candidacy_bond := minimum_balance F,
     desired_candidates := desired\<rparr>\<rparr>"

definition bench_register_as_candidate ::
    "('ac, 'cs, 'o) frame \<Rightarrow> ('ac, 'o) validator_config \<Rightarrow> ('ac, 'cs, 'o, 'k, 'ss) session_bench \<Rightarrow> u32 \<Rightarrow>
     ('ac, 'cs, 'ss) validator_ext \<Rightarrow> unit option" where
  "bench_register_as_candidate F cfg B c s = do {
     (_, s1) <- register_validators F B c (bench_put F (c + 1) s);
     s2 <- register_candidates F cfg B c s1;
     let caller = whitelisted_caller B;
     let bond = minimum_balance F * 2;
     let cs = make_free_balance_be B caller bond (ve_currency s2);
     session <- set_keys B caller (bench_keys B (c + 1)) cs (ve_session s2);
     (_, st) <- succeed (register_as_candidate F cfg (is_registered B session) (ve_block s2) (signed B caller) (cs, ve_validators s2));
     assert_last_validator_event (CandidateAdded caller (bond div 2)) st
   }"

definition bench_leave_intent ::
    "('ac, 'cs, 'o) frame \<Rightarrow> ('ac, 'o) validator_config \<Rightarrow> ('ac, 'cs, 'o, 'k, 'ss) session_bench \<Rightarrow> u32 \<Rightarrow>
     ('ac, 'cs, 'ss) validator_ext \<Rightarrow> unit option" where
  "bench_leave_intent F cfg B c s = do {
     (_, s1) <- register_validators F B c (bench_put F c s);
     s2 <- register_candidates F cfg B c s1;
     _ <- require (candidates (ve_validators s2) \<noteq> []);
     let leaving = cd_who (last (candidates (ve_validators s2)));
     (_, st) <- succeed (leave_intent F cfg (signed B leaving) (ve_currency s2, ve_validators s2));
     assert_last_validator_event (CandidateRemoved leaving) st
   }"

definition bench_note_author ::
    "('ac, 'cs, 'o) frame \<Rightarrow> ('ac, 'o) validator_config \<Rightarrow> ('ac, 'cs, 'o, 'k, 'ss) session_bench \<Rightarrow>
     ('ac, 'cs, 'ss) validator_ext \<Rightarrow> unit option" where
  "bench_note_author F cfg B s = do {
     let st = (ve_validators s)\<lparr>candidacy_bond := minimum_balance F\<rparr>;
     let cs = make_free_balance_be B (validator_account_id cfg) (minimum_balance F * 4) (ve_currency s);
     let author = bench_account B ''author'' 0 validator_SEED;
     _ <- require (free_balance F cs author = 0);
     let (_, cs1, st1) = note_author F cfg 10 author (cs, st);
     require (free_balance F cs1 author > 0)
   }"

definition insert_all :: "'ac list \<Rightarrow> u32 \<Rightarrow> ('ac, u32) storage \<Rightarrow> ('ac, u32) storage" where
  "insert_all as b m = foldl (\<lambda>m a. sinsert a b m) m as"

definition bench_new_session ::
    "('ac, 'cs, 'o) frame \<Rightarrow> ('ac, 'o) validator_config \<Rightarrow> ('ac, 'cs, 'o, 'k, 'ss) session_bench \<Rightarrow> u32 \<Rightarrow> u32 \<Rightarrow>
     ('ac, 'cs, 'ss) validator_ext \<Rightarrow> unit option" where
  "bench_new_session F cfg B r c s = do {
     (_, s1) <- register_validators F B c ((bench_put F c s)\<lparr>ve_block := 0\<rparr>);
     s2 <- register_candidates F cfg B c s1;
     let st2 = ve_validators s2;
     let whos = map cd_who (candidates st2);
     let non_removals = saturating_sub c r;
     _ <- require (unat c \<le> length whos);
     let authored = insert_all (take (unat c) whos) 0 (last_authored_block st2);
     let authored = (if non_removals > 0 then insert_all (take (unat non_removals) whos) 1800 authored
                     else insert_all (take (unat c) whos) 1800 authored);
     let st3 = st2\<lparr>last_authored_block := authored\<rparr>;
     let pre_length = length (candidates st3);
     _ <- require (length (candidates st3) = unat c);
     let (_, _, _, st4) = new_session F cfg 1800 (ve_currency s2, st3);
     if c > r \<and> non_removals \<ge> MinCandidates cfg then require (length (candidates st4) < pre_length)
     else if c > r \<and> non_removals < MinCandidates cfg then require (length (candidates st4) = unat (MinCandidates cfg))
     else require (length (candidates st4) = pre_length)
   }"

section \<open>The benchmark of a session change passes\<close>

text \<open>What the benchmark relies on: origins that are those of their accounts, different accounts for
  different numbers, funding with at least the existential deposit that sets the free balance and touches
  nothing else, a reserve that succeeds when the balance is there and not locked, and session keys that, once
  the session pallet has accepted them, stay set. \<open>unlocked\<close> tells whether an account is free of locks; funding
  and reserving put none on it.\<close>

definition bench_ok ::
    "('cs \<Rightarrow> 'ac \<Rightarrow> bool) \<Rightarrow> ('ac, 'cs, 'o) frame \<Rightarrow> ('ac, 'cs, 'o, 'k, 'ss) session_bench \<Rightarrow> bool" where
  "bench_ok unlocked F B \<longleftrightarrow>
     (\<forall>a. ensure_signed F (signed B a) = Some a) \<and>
     (\<forall>i j. bench_account B ''candidate'' i validator_SEED = bench_account B ''candidate'' j validator_SEED \<longrightarrow> i = j) \<and>
     (\<forall>a v cs b. minimum_balance F \<le> v \<longrightarrow>
        free_balance F (make_free_balance_be B a v cs) b = (if b = a then v else free_balance F cs b) \<and>
        reserved_balance F (make_free_balance_be B a v cs) b = reserved_balance F cs b \<and>
        (unlocked cs b \<longrightarrow> unlocked (make_free_balance_be B a v cs) b)) \<and>
     (\<forall>a v cs cs' b. reserve F a v cs = Inr cs' \<longrightarrow> unlocked cs b \<longrightarrow> unlocked cs' b) \<and>
     (\<forall>a v cs. unlocked cs a \<longrightarrow> v \<le> free_balance F cs a \<longrightarrow> unat (reserved_balance F cs a) + unat v < 2 ^ 128 \<longrightarrow>
        (\<exists>cs'. reserve F a v cs = Inr cs')) \<and>
     (\<forall>a k cs ss ss'. set_keys B a k cs ss = Some ss' \<longrightarrow>
        is_registered B ss' a \<and> (\<forall>b. is_registered B ss b \<longrightarrow> is_registered B ss' b))"

lemma bench_okD:
  assumes "bench_ok unlocked F B"
  shows "ensure_signed F (signed B a) = Some a"
    and "bench_account B ''candidate'' i validator_SEED = bench_account B ''candidate'' j validator_SEED \<Longrightarrow> i = j"
    and "minimum_balance F \<le> v \<Longrightarrow> free_balance F (make_free_balance_be B a v cs) b = (if b = a then v else free_balance F cs b)"
    and "minimum_balance F \<le> v \<Longrightarrow> reserved_balance F (make_free_balance_be B a v cs) b = reserved_balance F cs b"
    and "unlocked cs a \<Longrightarrow> v \<le> free_balance F cs a \<Longrightarrow> unat (reserved_balance F cs a) + unat v < 2 ^ 128 \<Longrightarrow> \<exists>cs'. reserve F a v cs = Inr cs'"
    and "set_keys B a k cs ss = Some ss' \<Longrightarrow> is_registered B ss' a \<and> (\<forall>b. is_registered B ss b \<longrightarrow> is_registered B ss' b)"
    and "minimum_balance F \<le> v \<Longrightarrow> unlocked cs b \<Longrightarrow> unlocked (make_free_balance_be B a v cs) b"
    and "reserve F a v cs = Inr cs' \<Longrightarrow> unlocked cs b \<Longrightarrow> unlocked cs' b"
  using assms unfolding bench_ok_def by (elim conjE, (simp; fail | blast))+

lemma insert_all_get [simp]: "get_or d (insert_all as b m) a = (if a \<in> set as then b else get_or d m a)"
proof -
  have "get_or d (foldl (\<lambda>m a. sinsert a b m) m as) a = (if a \<in> set as then b else get_or d m a)" for m
    by (induction as arbitrary: m) auto
  then show ?thesis by (simp add: insert_all_def)
qed

lemma bench_validators_run:
  assumes "bench_ok unlocked F B" and "unat (minimum_balance F) * 1000 < 2 ^ 128" and "bench_validators F B cs s = (vs, s')"
  shows "map fst vs = map (\<lambda>c. bench_account B ''candidate'' (word_of_nat c) validator_SEED) cs \<and>
    ve_block s' = ve_block s \<and> ve_session s' = ve_session s \<and> ve_validators s' = ve_validators s \<and>
    (\<forall>a. reserved_balance F (ve_currency s') a = reserved_balance F (ve_currency s) a \<and>
       (unlocked (ve_currency s) a \<longrightarrow> unlocked (ve_currency s') a))"
  using assms(3)
proof (induction cs arbitrary: s vs)
  case (Cons c cs)
  have "minimum_balance F \<le> minimum_balance F * 1000"
    using assms(2) by (simp add: word_le_nat_alt unat_word_ariths)
  note funded = bench_okD(4,7) [OF assms(1) this]
  obtain v s1 where v: "bench_validator F B (word_of_nat c) s = (v, s1)" by fastforce
  obtain ws where ws: "bench_validators F B cs s1 = (ws, s')" and vs: "vs = v # ws"
    using Cons.prems v by (auto split: prod.splits)
  have "fst v = bench_account B ''candidate'' (word_of_nat c) validator_SEED \<and> ve_block s1 = ve_block s \<and>
      ve_session s1 = ve_session s \<and> ve_validators s1 = ve_validators s \<and>
      (\<forall>a. reserved_balance F (ve_currency s1) a = reserved_balance F (ve_currency s) a \<and>
         (unlocked (ve_currency s) a \<longrightarrow> unlocked (ve_currency s1) a))"
    using v funded by (auto simp: bench_validator_def create_funded_user_def Let_def)
  with Cons.IH [OF ws] vs show ?case by simp
qed simp

lemma bench_set_keys_run:
  assumes "bench_ok unlocked F B" and "bench_set_keys B vs s = Some s'"
  shows "\<exists>ss. s' = s\<lparr>ve_session := ss\<rparr> \<and> (\<forall>a \<in> fst ` set vs. is_registered B ss a) \<and>
    (\<forall>a. is_registered B (ve_session s) a \<longrightarrow> is_registered B ss a)"
  using assms(2)
proof (induction vs arbitrary: s)
  case Nil
  then show ?case by (intro exI [of _ "ve_session s"]) simp
next
  case (Cons v vs)
  obtain who keys where v: "v = (who, keys)" by (cases v)
  obtain ss where ss: "set_keys B who keys (ve_currency s) (ve_session s) = Some ss"
    and rest: "bench_set_keys B vs (s\<lparr>ve_session := ss\<rparr>) = Some s'"
    using Cons.prems by (auto simp: v bind_eq_Some_conv)
  from Cons.IH [OF rest] bench_okD(6) [OF assms(1) ss] show ?case by (auto simp: v)
qed

lemma register_validators_run:
  assumes ok: "bench_ok unlocked F B" "unat (minimum_balance F) * 1000 < 2 ^ 128"
    and reg: "register_validators F B count s = Some (whos, s')"
  shows "whos = bench_candidates B count \<and> ve_block s' = ve_block s \<and> ve_validators s' = ve_validators s \<and>
    (\<forall>a \<in> set (bench_candidates B count). is_registered B (ve_session s') a) \<and>
    (\<forall>a. reserved_balance F (ve_currency s') a = reserved_balance F (ve_currency s) a \<and>
       (unlocked (ve_currency s) a \<longrightarrow> unlocked (ve_currency s') a))"
proof -
  obtain vs s1 where vs: "bench_validators F B [0..<unat count] s = (vs, s1)" by fastforce
  note run = bench_validators_run [OF ok vs]
  have keys: "bench_set_keys B vs s1 = Some s'" and whos: "whos = map fst vs"
    using reg vs by (auto simp: register_validators_def bind_eq_Some_conv)
  have "map fst vs = bench_candidates B count" using run by (simp add: bench_candidates_def)
  moreover from this have "fst ` set vs = set (bench_candidates B count)" by (metis list.set_map)
  ultimately show ?thesis using bench_set_keys_run [OF ok(1) keys] run whos by auto
qed

text \<open>The loop of \<open>register_candidates\<close>.\<close>

lemma bench_register_all_run:
  assumes ok: "bench_ok unlocked F B" "currency_ok F" "ValidatorIdOf cfg = Some"
    and bond: "0 < candidacy_bond (ve_validators s)" "minimum_balance F \<le> candidacy_bond (ve_validators s)"
      "unat (candidacy_bond (ve_validators s)) * 2 < 2 ^ 128"
    and "distinct (map cd_who (candidates (ve_validators s)) @ whos)"
    and "set whos \<inter> set (invulnerables (ve_validators s)) = {}"
    and "\<forall>a \<in> set whos. is_registered B (ve_session s) a \<and> reserved_balance F (ve_currency s) a = 0 \<and>
      unlocked (ve_currency s) a"
    and "length (candidates (ve_validators s)) + length whos \<le> unat (desired_candidates (ve_validators s))"
  shows "\<exists>s'. bench_register_all F cfg B whos s = Some s' \<and>
    candidates (ve_validators s') = candidates (ve_validators s) @
      map (\<lambda>a. \<lparr>cd_who = a, cd_deposit = candidacy_bond (ve_validators s)\<rparr>) whos"
  using assms(4-)
proof (induction whos arbitrary: s)
  case (Cons who rest)
  let ?st = "ve_validators s"
  let ?bond = "candidacy_bond ?st"
  define cs where "cs = make_free_balance_be B who (?bond * 2) (ve_currency s)"
  have two: "unat (?bond * 2) = unat ?bond * 2" using Cons.prems(3) by (simp add: unat_word_ariths)
  have min: "minimum_balance F \<le> ?bond * 2" using two Cons.prems(2) by (simp add: word_le_nat_alt)
  have "free_balance F cs who = ?bond * 2" and zero: "reserved_balance F cs who = 0"
    and keep: "reserved_balance F cs a = reserved_balance F (ve_currency s) a" for a
    using Cons.prems(6) min by (simp_all add: cs_def bench_okD(3,4) [OF ok(1)])
  moreover have unl: "unlocked cs a" if "a \<in> set (who # rest)" for a
    using that Cons.prems(6) by (auto simp: cs_def intro: bench_okD(7) [OF ok(1) min])
  ultimately obtain cs1 where res: "reserve F who ?bond cs = Inr cs1"
    using bench_okD(5) [OF ok(1), of cs who ?bond] two unat_less_u128 [of ?bond] by (auto simp: word_le_nat_alt)
  have len: "word_of_nat (length (candidates ?st)) < desired_candidates ?st"
    using Cons.prems(7) unat_bound [of "desired_candidates ?st"]
    by (simp add: word_less_nat_alt unat_of_nat)
  define st1 where "st1 = validator_deposit_event (CandidateAdded who ?bond)
    (?st\<lparr>candidates := candidates ?st @ [\<lparr>cd_who = who, cd_deposit = ?bond\<rparr>],
         last_authored_block := sinsert who (ve_block s + KickThreshold cfg) (last_authored_block ?st)\<rparr>)"
  have reg: "register_as_candidate F cfg (is_registered B (ve_session s)) (ve_block s) (signed B who) (cs, ?st) = Inr (cs1, st1)"
    using ok(3) len Cons.prems(4-6) res
    by (auto simp: register_as_candidate_def bench_okD(1) [OF ok(1)] list_ex_iff st1_def Let_def)
  let ?s1 = "s\<lparr>ve_currency := cs1, ve_validators := st1\<rparr>"
  have st1: "candidacy_bond st1 = ?bond" "invulnerables st1 = invulnerables ?st" "desired_candidates st1 = desired_candidates ?st"
    "candidates st1 = candidates ?st @ [\<lparr>cd_who = who, cd_deposit = ?bond\<rparr>]"
    by (simp_all add: st1_def validator_deposit_event_def)
  have "unlocked cs1 a" if "a \<in> set rest" for a
    using bench_okD(8) [OF ok(1) res] unl that by simp
  moreover have "reserved_balance F cs1 a = 0" if "a \<in> set rest" for a
    using reserveD(1) [OF ok(2) res, of a] that Cons.prems(4,6) keep [of a]
    by (auto simp: word_unat_eq_iff)
  ultimately have "\<exists>s'. bench_register_all F cfg B rest ?s1 = Some s' \<and>
      candidates (ve_validators s') = candidates st1 @ map (\<lambda>a. \<lparr>cd_who = a, cd_deposit = candidacy_bond st1\<rparr>) rest"
    using Cons.prems by (intro Cons.IH [of ?s1, simplified]) (auto simp: st1)
  with reg show ?case by (auto simp: succeed_def cs_def [symmetric] st1)
qed simp

lemma bench_candidates_distinct:
  assumes "bench_ok unlocked F B"
  shows "distinct (bench_candidates B c)" and "length (bench_candidates B c) = unat c"
proof -
  have "inj_on (\<lambda>i. bench_account B ''candidate'' (word_of_nat i) validator_SEED) {0..<unat c}"
  proof (rule inj_onI)
    fix i j
    assume ij: "i \<in> {0..<unat c}" "j \<in> {0..<unat c}"
      and "bench_account B ''candidate'' (word_of_nat i) validator_SEED = bench_account B ''candidate'' (word_of_nat j) validator_SEED"
    then have "word_of_nat i = (word_of_nat j :: u32)" using bench_okD(2) [OF assms] by blast
    then have "unat (word_of_nat i :: u32) = unat (word_of_nat j :: u32)" by simp
    then show "i = j" using ij unat_bound [of c] by (simp add: unat_of_nat)
  qed
  then show "distinct (bench_candidates B c)" by (simp add: bench_candidates_def distinct_map)
qed (simp add: bench_candidates_def)

text \<open>A storage without candidates in which no account of the benchmark is invulnerable, has a reserve or is
  locked.\<close>

definition bench_fresh ::
    "('cs \<Rightarrow> 'ac \<Rightarrow> bool) \<Rightarrow> ('ac, 'cs, 'o) frame \<Rightarrow> ('ac, 'cs, 'o, 'k, 'ss) session_bench \<Rightarrow> u32 \<Rightarrow>
     ('ac, 'cs, 'ss) validator_ext \<Rightarrow> bool" where
  "bench_fresh unlocked F B c s \<longleftrightarrow> candidates (ve_validators s) = [] \<and>
     (\<forall>a \<in> set (bench_candidates B c). a \<notin> set (invulnerables (ve_validators s)) \<and>
        reserved_balance F (ve_currency s) a = 0 \<and> unlocked (ve_currency s) a)"

lemma bench_setup:
  assumes ok: "bench_ok unlocked F B" "currency_ok F" "ValidatorIdOf cfg = Some"
    and ed: "0 < minimum_balance F" "unat (minimum_balance F) * 1000 < 2 ^ 128"
    and fresh: "bench_fresh unlocked F B c s" and d: "c \<le> d"
    and reg: "register_validators F B c ((bench_put F d s)\<lparr>ve_block := b\<rparr>) = Some (whos, s1)"
  shows "\<exists>s2. register_candidates F cfg B c s1 = Some s2 \<and>
    candidates (ve_validators s2) = map (\<lambda>a. \<lparr>cd_who = a, cd_deposit = minimum_balance F\<rparr>) (bench_candidates B c)"
proof -
  let ?s = "(bench_put F d s)\<lparr>ve_block := b\<rparr>"
  have s1: "ve_validators s1 = ve_validators ?s" "\<forall>a \<in> set (bench_candidates B c). is_registered B (ve_session s1) a"
    "\<forall>a. reserved_balance F (ve_currency s1) a = reserved_balance F (ve_currency ?s) a \<and>
      (unlocked (ve_currency ?s) a \<longrightarrow> unlocked (ve_currency s1) a)"
    using register_validators_run [OF ok(1) ed(2) reg] by blast+
  have put: "candidacy_bond (ve_validators s1) = minimum_balance F" "candidates (ve_validators s1) = []"
    "desired_candidates (ve_validators s1) = d" "invulnerables (ve_validators s1) = invulnerables (ve_validators s)"
    "ve_currency ?s = ve_currency s"
    using fresh by (simp_all add: s1(1) bench_put_def bench_fresh_def)
  have "\<exists>s2. bench_register_all F cfg B (bench_candidates B c) s1 = Some s2 \<and> candidates (ve_validators s2) =
      candidates (ve_validators s1) @ map (\<lambda>a. \<lparr>cd_who = a, cd_deposit = candidacy_bond (ve_validators s1)\<rparr>) (bench_candidates B c)"
    using ed fresh s1(2,3) d bench_candidates_distinct [OF ok(1), of c]
    by (intro bench_register_all_run [OF ok]) (auto simp: put bench_fresh_def word_le_nat_alt)
  then show ?thesis using ed(1) by (auto simp: register_candidates_def require_def put)
qed

text \<open>How many candidates the session change finds stale.\<close>

lemma stale_count:
  assumes "distinct xs" and "m \<le> length xs"
  shows "length (filter (\<lambda>x. x \<notin> set (take m xs)) xs) = length xs - m"
proof -
  let ?P = "\<lambda>x. x \<notin> set (take m xs)"
  have "filter ?P (take m xs) = []" and "filter ?P (drop m xs) = drop m xs"
    using set_take_disj_set_drop_if_distinct [OF assms(1), of m m] by (auto simp: filter_empty_conv filter_id_conv)
  then have "filter ?P (take m xs @ drop m xs) = drop m xs" by (simp only: filter_append append_Nil)
  then show ?thesis by simp
qed

text \<open>The benchmark over the ledger: a session pallet that refuses accounts without a balance and keys that
  another account has.\<close>

definition ledger_session_bench :: "(nat, ledger, nat option, nat, (nat, nat) storage) session_bench" where
  "ledger_session_bench = \<lparr>
     bench_account = (\<lambda>name i seed. unat i + 10),
     whitelisted_caller = 5,
     make_free_balance_be = (\<lambda>a v l. ledger_set a v (ledger_reserved l a) l),
     signed = Some,
     root = None,
     bench_keys = unat,
     set_keys = (\<lambda>a k l owners. if 2 \<le> ledger_free l a \<and> (\<forall>(b, k') \<in> set owners. k' = k \<longrightarrow> b = a)
       then Some (sinsert a k owners) else None),
     is_registered = (\<lambda>owners a. sget owners a \<noteq> None),
     successful_origin = Some 777\<rparr>"

definition ledger_validator_ext :: "(nat, ledger, (nat, nat) storage) validator_ext" where
  "ledger_validator_ext = \<lparr>ve_block = 1, ve_session = [], ve_currency = \<lparr>l_free = [], l_reserved = []\<rparr>,
     ve_validators = \<lparr>invulnerables = [1, 2], candidates = [], last_authored_block = [], desired_candidates = 2,
       candidacy_bond = 10, slash_destination = None, validator_events = []\<rparr>\<rparr>"

text \<open>C30: The benchmark from which the weight of a session change is computed passes for every number of
  candidates and of removals once the session pallet has accepted the keys of its accounts: all candidates
  register, and after the session change exactly the number of candidates that the benchmark checks for is
  left. There are at least \<^verbatim>\<open>MinCandidates\<close> candidates, the kick threshold is positive and at most 1800
  blocks (as in both runtimes and in the mock), a validator id is its account, the existential deposit is
  positive and a thousand of it fit the balance type, and the storage is fresh: no candidates, and no account
  of the benchmark is invulnerable, has a reserve or is locked.\<close>

theorem new_session_benchmark_passes:
  assumes ok: "bench_ok unlocked F B" "currency_ok F" "ValidatorIdOf cfg = Some"
    and ed: "0 < minimum_balance F" "unat (minimum_balance F) * 1000 < 2 ^ 128"
    and cfg: "MinCandidates cfg \<le> c" "0 < KickThreshold cfg" "KickThreshold cfg \<le> 1800"
    and rc: "0 < r" "0 < c" and fresh: "bench_fresh unlocked F B c s"
    and keys: "register_validators F B c ((bench_put F c s)\<lparr>ve_block := 0\<rparr>) = Some (whos, s1)"
  shows "bench_new_session F cfg B r c s = Some ()"
proof -
  let ?as = "bench_candidates B c" and ?m = "saturating_sub c r" and ?min = "unat (MinCandidates cfg)"
  obtain s2 where s2: "register_candidates F cfg B c s1 = Some s2"
    and cands: "candidates (ve_validators s2) = map (\<lambda>a. \<lparr>cd_who = a, cd_deposit = minimum_balance F\<rparr>) ?as"
    using bench_setup [OF ok ed fresh order.refl keys] by blast
  have whos: "map cd_who (candidates (ve_validators s2)) = ?as" by (simp add: cands comp_def)
  note as = bench_candidates_distinct [OF ok(1), of c]
  define late where "late = (if ?m > 0 then take (unat ?m) ?as else ?as)"
  define authored where "authored = insert_all late 1800 (insert_all ?as 0 (last_authored_block (ve_validators s2)))"
  define st3 where "st3 = (ve_validators s2)\<lparr>last_authored_block := authored\<rparr>"
  obtain vs w cs4 st4 where ns: "new_session F cfg 1800 (ve_currency s2, st3) = (vs, w, (cs4, st4))"
    by (metis prod.collapse)
  have stale: "\<not> authored_lately cfg 1800 st3 a \<longleftrightarrow> a \<notin> set late" if "a \<in> set ?as" for a
    using that cfg by (auto simp: authored_lately_def st3_def authored_def saturating_sub_def)
  have c3: "candidates st3 = candidates (ve_validators s2)" by (simp add: st3_def)
  have "candidates st4 = drop_first (unat c - ?min) (\<lambda>x. \<not> authored_lately cfg 1800 st3 (cd_who x)) (candidates st3)"
    using new_session_drops(1) [OF _ _ ns] as unat_bound [of c]
    by (simp add: validator_inv_def c3 whos cands comp_def)
  then have len4: "length (candidates st4) = unat c - min (unat c - ?min) (length (filter (\<lambda>a. a \<notin> set late) ?as))"
    using stale by (simp add: length_drop_first c3 cands as comp_def filter_map cong: filter_cong)
  have m: "unat ?m = unat c - unat r" by (simp add: unat_saturating_sub)
  have left: "length (filter (\<lambda>a. a \<notin> set late) ?as) = (if unat r < unat c then unat r else 0)"
    using stale_count [OF as(1), of "unat ?m"] m by (auto simp: late_def as word_less_nat_alt)
  have pos: "0 < unat r" "0 < unat c" using rc by (simp_all add: word_less_nat_alt)
  then have final: "length (candidates st4) = (if unat r < unat c then unat c - min (unat c - ?min) (unat r) else unat c)"
    using len4 left by auto
  have run: "bench_new_session F cfg B r c s =
      (if c > r \<and> ?m \<ge> MinCandidates cfg then require (length (candidates st4) < unat c)
       else if c > r \<and> ?m < MinCandidates cfg then require (length (candidates st4) = unat (MinCandidates cfg))
       else require (length (candidates st4) = unat c))"
  proof -
    have "length (candidates (ve_validators s2)) = unat c" by (simp add: cands as)
    then show ?thesis using keys s2 ns as
      by (cases "0 < ?m")
        (simp_all add: bench_new_session_def Let_def whos require_def [of True] st3_def authored_def late_def)
  qed
  show ?thesis
    unfolding run using final pos cfg(1) m by (auto simp: require_def word_less_nat_alt word_le_nat_alt)
qed

theorem new_session_benchmark_passes_witness:
  "bench_new_session ledger_frame (mock_validator_config ledger_frame (\<lambda>_. 9) demo_db_weight) ledger_session_bench 1 3
     ledger_validator_ext = Some ()"
proof -
  let ?s = "(bench_put ledger_frame 3 ledger_validator_ext)\<lparr>ve_block := 0\<rparr>"
  have "register_validators ledger_frame ledger_session_bench 3 ?s \<noteq> None" by code_simp
  then obtain whos s1 where keys: "register_validators ledger_frame ledger_session_bench 3 ?s = Some (whos, s1)"
    by auto
  show ?thesis
  proof (rule new_session_benchmark_passes [OF _ _ _ _ _ _ _ _ _ _ _ keys])
    show "bench_ok (\<lambda>_ _. True) ledger_frame ledger_session_bench"
      by (simp add: bench_ok_def ledger_frame_def ledger_session_bench_def ledger_reserve_def add_fits_def
          validator_SEED_def word_unat_eq_iff)
    show "bench_fresh (\<lambda>_ _. True) ledger_frame ledger_session_bench 3 ledger_validator_ext" by code_simp
  qed (simp_all add: ledger_currency_ok, simp_all add: ledger_frame_def mock_validator_config_def
      IdentityValidator_convert_def fun_eq_iff word_less_nat_alt)
qed

end
