(* ===== verification/Bench_Props.thy ===== *)
theory Bench_Props
  imports Validator_Bench
begin

text \<open>
  The benchmarks of the staking, dapi and block reward pallets, evaluated in the mock runtimes.
\<close>

section \<open>The benchmarks as tests of the mocks\<close>

text \<open>\<^verbatim>\<open>impl_benchmark_test_suite!\<close> runs every benchmark of a pallet in its mock runtime.\<close>

definition staking_benchmarks ::
    "nat \<Rightarrow> ('ac, 'cs, 'o) frame \<Rightarrow> 'ac staking_config \<Rightarrow> ('ac, 'cs, 'o) bench_env \<Rightarrow> 'pid \<Rightarrow>
     (('ac, 'pid, 'cs) staking_ext \<Rightarrow> unit option) list" where
  "staking_benchmarks k F cfg B p =
     [bench_set_blocks_per_era F B, bench_provider_bond_more F cfg B p, bench_provider_bond_less F cfg B p,
      bench_delegate F cfg B p, bench_delegator_unstake F cfg B p, bench_withdraw_unbonded k F cfg B p,
      bench_claim_provider k F cfg B p, bench_claim_delegator k F cfg B p,
      bench_provider_withdraw_unregistered k F cfg B p, bench_delegator_withdraw_unregistered k F cfg B p]"

definition dapi_benchmarks ::
    "('ac, 'cs, 'o) frame \<Rightarrow> ('ac, massbit_id, 'w, 'e) dapi_config \<Rightarrow> ('ac, 'cs, 'o) bench_env \<Rightarrow>
     ('ac \<Rightarrow> u128 \<Rightarrow> 'w \<Rightarrow> 'w) \<Rightarrow> (('ac, 'w) dapi_ext \<Rightarrow> unit option) list" where
  "dapi_benchmarks F cfg B fund =
     [bench_register_project F cfg B fund, bench_deposit_project F cfg B fund, bench_deposit_provider F cfg B fund,
      bench_unregister_provider F cfg B fund, bench_add_chain_id F cfg B, bench_remove_chain_id F cfg B,
      bench_add_regulator F cfg B, bench_remove_regulator F cfg B]"

text \<open>The mocks over the ledger, with the accounts of the benchmarks as small numbers.\<close>

definition ledger_build :: "(nat \<times> u128) list \<Rightarrow> ledger" where
  "ledger_build balances = \<lparr>l_free = balances, l_reserved = []\<rparr>"

definition ledger_bench :: "(nat, ledger, nat option) bench_env" where
  "ledger_bench = \<lparr>
     bench_account = (\<lambda>name i seed. if name = ''owner'' then 1 else if name = ''delegator'' then 10 + unat i else 4),
     whitelisted_caller = 5,
     make_free_balance_be = (\<lambda>a v l. ledger_set a v (ledger_reserved l a) l),
     signed = Some,
     root = None\<rparr>"

definition mock_pallet_account :: "string \<Rightarrow> nat" where
  "mock_pallet_account i = 9"

abbreviation staking_bench_passes :: "((nat, mock_provider, ledger) staking_ext \<Rightarrow> unit option) \<Rightarrow> bool" where
  "staking_bench_passes bench \<equiv> bench (mock_staking_build ledger_build) = Some ()"

lemma staking_benchmarks_run_1:
  "staking_bench_passes (bench_set_blocks_per_era ledger_frame ledger_bench)"
  "staking_bench_passes (bench_provider_bond_more ledger_frame (mock_staking_config ledger_frame mock_pallet_account) ledger_bench MockProvider_default)"
  "staking_bench_passes (bench_provider_bond_less ledger_frame (mock_staking_config ledger_frame mock_pallet_account) ledger_bench MockProvider_default)"
  by code_simp+

lemma staking_benchmarks_run_2:
  "staking_bench_passes (bench_delegate ledger_frame (mock_staking_config ledger_frame mock_pallet_account) ledger_bench MockProvider_default)"
  "staking_bench_passes (bench_delegator_unstake ledger_frame (mock_staking_config ledger_frame mock_pallet_account) ledger_bench MockProvider_default)"
  by code_simp+

lemma staking_benchmarks_run_3:
  "staking_bench_passes (bench_withdraw_unbonded 12 ledger_frame (mock_staking_config ledger_frame mock_pallet_account) ledger_bench MockProvider_default)"
  by code_simp+

lemma staking_benchmarks_run_4:
  "staking_bench_passes (bench_claim_provider 12 ledger_frame (mock_staking_config ledger_frame mock_pallet_account) ledger_bench MockProvider_default)"
  by code_simp+

lemma staking_benchmarks_run_5:
  "staking_bench_passes (bench_claim_delegator 12 ledger_frame (mock_staking_config ledger_frame mock_pallet_account) ledger_bench MockProvider_default)"
  by code_simp+

lemma staking_benchmarks_run_6:
  "staking_bench_passes (bench_provider_withdraw_unregistered 12 ledger_frame (mock_staking_config ledger_frame mock_pallet_account) ledger_bench MockProvider_default)"
  by code_simp+

lemma staking_benchmarks_run_7:
  "staking_bench_passes (bench_delegator_withdraw_unregistered 12 ledger_frame (mock_staking_config ledger_frame mock_pallet_account) ledger_bench MockProvider_default)"
  by code_simp+

lemmas staking_benchmarks_run =
  staking_benchmarks_run_1 staking_benchmarks_run_2 staking_benchmarks_run_3 staking_benchmarks_run_4 staking_benchmarks_run_5 staking_benchmarks_run_6 staking_benchmarks_run_7

abbreviation dapi_bench_passes :: "((nat, (nat, ledger) staking_world) dapi_ext \<Rightarrow> unit option) \<Rightarrow> bool" where
  "dapi_bench_passes bench \<equiv> bench (snd (mock_dapi_build ledger_build)) = Some ()"

definition ledger_fund :: "nat \<Rightarrow> u128 \<Rightarrow> (nat, ledger) staking_world \<Rightarrow> (nat, ledger) staking_world" where
  "ledger_fund a v = lift_currency (make_free_balance_be ledger_bench a v)"

lemma dapi_benchmarks_run_1:
  "dapi_bench_passes (bench_register_project ledger_frame (mock_dapi_config ledger_frame mock_pallet_account) ledger_bench ledger_fund)"
  "dapi_bench_passes (bench_deposit_project ledger_frame (mock_dapi_config ledger_frame mock_pallet_account) ledger_bench ledger_fund)"
  by code_simp+

lemma dapi_benchmarks_run_2:
  "dapi_bench_passes (bench_deposit_provider ledger_frame (mock_dapi_config ledger_frame mock_pallet_account) ledger_bench ledger_fund)"
  by code_simp+

lemma dapi_benchmarks_run_3:
  "dapi_bench_passes (bench_unregister_provider ledger_frame (mock_dapi_config ledger_frame mock_pallet_account) ledger_bench ledger_fund)"
  by code_simp+

lemma dapi_benchmarks_run_4:
  "dapi_bench_passes (bench_add_chain_id ledger_frame (mock_dapi_config ledger_frame mock_pallet_account) ledger_bench)"
  "dapi_bench_passes (bench_remove_chain_id ledger_frame (mock_dapi_config ledger_frame mock_pallet_account) ledger_bench)"
  "dapi_bench_passes (bench_add_regulator ledger_frame (mock_dapi_config ledger_frame mock_pallet_account) ledger_bench)"
  "dapi_bench_passes (bench_remove_regulator ledger_frame (mock_dapi_config ledger_frame mock_pallet_account) ledger_bench)"
  by code_simp+

lemmas dapi_benchmarks_run =
  dapi_benchmarks_run_1 dapi_benchmarks_run_2 dapi_benchmarks_run_3 dapi_benchmarks_run_4

lemma benchmarks_pass:
  "list_all staking_bench_passes
     (staking_benchmarks 12 ledger_frame (mock_staking_config ledger_frame mock_pallet_account) ledger_bench MockProvider_default) \<and>
   list_all dapi_bench_passes
     (dapi_benchmarks ledger_frame (mock_dapi_config ledger_frame mock_pallet_account) ledger_bench ledger_fund) \<and>
   bench_set_config ledger_frame ledger_bench (snd (mock_reward_build ledger_frame ledger_build)) = Some ()"
proof -
  have "bench_set_config ledger_frame ledger_bench (snd (mock_reward_build ledger_frame ledger_build)) = Some ()"
    by code_simp
  then show ?thesis
    using staking_benchmarks_run dapi_benchmarks_run by (simp add: staking_benchmarks_def dapi_benchmarks_def)
qed

end
