(* ===== verification/Unit_Tests.thy ===== *)
theory Unit_Tests
  imports Bench_Props
begin

text \<open>
  The unit tests of the pallets, \<^verbatim>\<open>pallets/*/src/tests.rs\<close>, statement by statement, as a check of the
  definitions against the behaviour their authors expect. A test is a value of \<open>unit option\<close> over the
  storage that the mock builds; \<open>None\<close> is a failed assertion. The hook of the authorship pallet is a
  parameter. The two tests of the validator pallet that rotate sessions run on the session pallet, which is
  not code of the repository, and are left out.
\<close>

text \<open>\<^verbatim>\<open>assert_noop!\<close>: the call fails with this error; a failed call returns no storage, so none is changed.\<close>

definition assert_noop :: "('e, 'a) dispatch \<Rightarrow> 'e dispatch_error \<Rightarrow> unit option" where
  "assert_noop r err = require (case r of Inl e \<Rightarrow> e = err | Inr _ \<Rightarrow> False)"

section \<open>dapi-staking\<close>

record 'ac memory_snapshot =
  ms_era_info :: era_metadata
  ms_provider_info :: "'ac provider_metadata"
  ms_delegator_info :: delegation
  ms_provider_era_info :: provider_era_metadata
  ms_free_balance :: u128

definition snapshot_all ::
    "('ac, 'cs, 'o) frame \<Rightarrow> era_index \<Rightarrow> 'pid \<Rightarrow> 'ac \<Rightarrow> 'cs \<times> ('ac, 'pid) staking_state \<Rightarrow> 'ac memory_snapshot option" where
  "snapshot_all F e provider_id account = (\<lambda>(cs, st). do {
     era_info <- sget (era_state st) e;
     info <- sget (provider_info st) provider_id;
     Some \<lparr>ms_era_info = era_info, ms_provider_info = info, ms_delegator_info = delegation_of st account provider_id,
       ms_provider_era_info = provider_era_or_default st provider_id e, ms_free_balance = free_balance F cs account\<rparr>
   })"

definition snapshot_provider ::
    "era_index \<Rightarrow> 'pid \<Rightarrow> ('ac, 'pid) staking_state \<Rightarrow> 'ac memory_snapshot option" where
  "snapshot_provider e provider_id st = do {
     era_info <- sget (era_state st) e;
     info <- sget (provider_info st) provider_id;
     Some \<lparr>ms_era_info = era_info, ms_provider_info = info, ms_delegator_info = Delegation_default,
       ms_provider_era_info = provider_era_or_default st provider_id e, ms_free_balance = 0\<rparr>
   }"

definition get_total_reward_per_era :: u128 where
  "get_total_reward_per_era = 123456 * 3"

definition assert_register ::
    "('ac, 'cs, 'o) frame \<Rightarrow> 'ac staking_config \<Rightarrow> 'ac \<Rightarrow> 'pid \<Rightarrow> u128 \<Rightarrow>
     'cs \<times> ('ac, 'pid) staking_state \<Rightarrow> ('cs \<times> ('ac, 'pid) staking_state) option" where
  "assert_register F cfg operator provider_id stake_amount w = do {
     let init_reserved_balance = reserved_balance F (fst w) operator;
     require (sget (provider_info (snd w)) provider_id = None);
     w' <- succeed (register_provider F cfg operator provider_id stake_amount w);
     provider <- sget (provider_info (snd w')) provider_id;
     require (pm_status provider = Active);
     require (pm_owner provider = operator);
     require (reserved_balance F (fst w') operator = init_reserved_balance + stake_amount);
     Some w'
   }"

definition assert_unregister ::
    "'ac \<Rightarrow> 'pid \<Rightarrow> 'cs \<times> ('ac, 'pid) staking_state \<Rightarrow> ('cs \<times> ('ac, 'pid) staking_state) option" where
  "assert_unregister operator provider_id w = do {
     let current = current_era (snd w);
     init_state <- snapshot_provider current provider_id (snd w);
     require (pm_status (ms_provider_info init_state) = Active);
     w' <- succeed (unregister_provider provider_id w);
     final_state <- snapshot_provider current provider_id (snd w');
     require (em_staked (ms_era_info final_state) =
       em_staked (ms_era_info init_state) - pe_total (ms_provider_era_info init_state));
     require (pe_total (ms_provider_era_info final_state) = pe_total (ms_provider_era_info init_state));
     require (pm_status (ms_provider_info final_state) = Inactive current);
     require (pm_owner (ms_provider_info final_state) = operator);
     Some w'
   }"

definition assert_delegate ::
    "('ac, 'cs, 'o) frame \<Rightarrow> 'ac staking_config \<Rightarrow> ('ac, 'cs, 'o) bench_env \<Rightarrow> 'ac \<Rightarrow> 'pid \<Rightarrow> u128 \<Rightarrow>
     'cs \<times> ('ac, 'pid) staking_state \<Rightarrow> ('cs \<times> ('ac, 'pid) staking_state) option" where
  "assert_delegate F cfg B delegator provider_id v w = do {
     let current = current_era (snd w);
     init_state <- snapshot_all F current provider_id delegator w;
     let staking_value = min (ms_free_balance init_state) v;
     w' <- succeed (delegate F cfg (signed B delegator) provider_id v w);
     assert_last_staking_event (Delegated delegator provider_id staking_value) (snd w');
     final_state <- snapshot_all F current provider_id delegator w';
     (if latest_staked_value (ms_delegator_info init_state) = 0
      then do {
        require (sget (delegation_info (snd w')) (delegator, provider_id) \<noteq> None);
        require (pe_delegator_count (ms_provider_era_info final_state) =
          pe_delegator_count (ms_provider_era_info init_state) + 1) }
      else Some ());
     require (em_staked (ms_era_info final_state) = em_staked (ms_era_info init_state) + staking_value);
     require (pe_total (ms_provider_era_info final_state) = pe_total (ms_provider_era_info init_state) + staking_value);
     require (latest_staked_value (ms_delegator_info final_state) =
       latest_staked_value (ms_delegator_info init_state) + staking_value);
     Some w'
   }"

definition test_reward_is_ok ::
    "('ac, 'cs, 'o) frame \<Rightarrow> 'ac staking_config \<Rightarrow> ('ac, 'pid, 'cs) staking_ext \<Rightarrow> unit option" where
  "test_reward_is_ok F cfg = (\<lambda>(b, cs, st). do {
     require (reward_accumulator st = 0);
     require (free_balance F cs (staking_account_id cfg) = 0);
     let reward = 123456;
     let (imbalance, cs1) = issue F reward cs;
     let (cs2, st2) = handle_imbalance F cfg imbalance (cs1, st);
     require (reward = free_balance F cs2 (staking_account_id cfg));
     let st3 = snd (staking_on_initialize F cfg b st2);
     require (reward_accumulator st3 = 0);
     require (reward = free_balance F cs2 (staking_account_id cfg))
   })"

definition test_on_initialize_is_ok ::
    "nat \<Rightarrow> ('ac, 'cs, 'o) frame \<Rightarrow> 'ac staking_config \<Rightarrow> ('ac, 'pid, 'cs) staking_ext \<Rightarrow> unit option" where
  "test_on_initialize_is_ok fuel F cfg s = do {
     require (current_era (snd (snd s)) = 0);
     s1 <- mock_initialize_first_block F cfg s;
     let previous_era = current_era (snd (snd s1));
     require (1 = previous_era);
     s2 <- mock_advance_to_era fuel F cfg (previous_era + 10) s1;
     let current = current_era (snd (snd s2));
     require (list_all (\<lambda>e. map_option em_rewards (sget (era_state (snd (snd s2))) (word_of_nat e)) = Some get_total_reward_per_era)
       [1..<unat current]);
     em <- sget (era_state (snd (snd s2))) current;
     require (0 = em_staked em);
     require (0 = em_rewards em)
   }"

definition test_register_is_ok ::
    "(nat, 'cs, 'o) frame \<Rightarrow> nat staking_config \<Rightarrow> (nat, mock_provider, 'cs) staking_ext \<Rightarrow> unit option" where
  "test_register_is_ok F cfg s = do {
     (b, w) <- mock_initialize_first_block F cfg s;
     let operator = 1;
     let provider = MockProvider_default;
     require (reserved_balance F (fst w) operator = 0);
     _ <- assert_register F cfg operator provider 100 w;
     Some ()
   }"

definition test_register_same_provider_twice_fails ::
    "(nat, 'cs, 'o) frame \<Rightarrow> nat staking_config \<Rightarrow> (nat, mock_provider, 'cs) staking_ext \<Rightarrow> unit option" where
  "test_register_same_provider_twice_fails F cfg s = do {
     (b, w) <- mock_initialize_first_block F cfg s;
     let operator1 = 1;
     let operator2 = 2;
     let provider = MockProvider_default;
     w1 <- assert_register F cfg operator1 provider 100 w;
     assert_noop (register_provider F cfg operator2 provider 100 w1) (ModuleError ProviderExists)
   }"

definition test_unregister_after_register_is_ok ::
    "(nat, 'cs, 'o) frame \<Rightarrow> nat staking_config \<Rightarrow> (nat, mock_provider, 'cs) staking_ext \<Rightarrow> unit option" where
  "test_unregister_after_register_is_ok F cfg s = do {
     (b, w) <- mock_initialize_first_block F cfg s;
     let operator = 1;
     let provider_id = MockProvider_default;
     require (reserved_balance F (fst w) operator = 0);
     w1 <- assert_register F cfg operator provider_id 100 w;
     _ <- assert_unregister operator provider_id w1;
     Some ()
   }"

definition test_unregister_stake_and_unstake_is_not_ok ::
    "(nat, 'cs, 'o) frame \<Rightarrow> nat staking_config \<Rightarrow> (nat, 'cs, 'o) bench_env \<Rightarrow> (nat, mock_provider, 'cs) staking_ext \<Rightarrow> unit option" where
  "test_unregister_stake_and_unstake_is_not_ok F cfg B s = do {
     (b, w) <- mock_initialize_first_block F cfg s;
     let operator = 1;
     let delegator = 2;
     let provider_id = MockProvider_default;
     require (reserved_balance F (fst w) operator = 0);
     w1 <- assert_register F cfg operator provider_id 100 w;
     w2 <- assert_delegate F cfg B delegator provider_id 100 w1;
     _ <- assert_unregister operator provider_id w2;
     Some ()
   }"

section \<open>block-reward\<close>

definition test_default_distribution_config_is_valid :: "('ac, 'cs, 'o) frame \<Rightarrow> unit option" where
  "test_default_distribution_config_is_valid F = do {
     let config = DistributionConfig_default F;
     require (distribution_is_valid F config)
   }"

definition test_distribution_config_is_valid :: "('ac, 'cs, 'o) frame \<Rightarrow> unit option" where
  "test_distribution_config_is_valid F = do {
     let config = \<lparr>providers_percent = perbill_from_percent F 100, validators_percent = perbill_zero F\<rparr>;
     require (distribution_is_valid F config);
     let config = \<lparr>providers_percent = perbill_from_percent F 80, validators_percent = perbill_from_percent F 20\<rparr>;
     require (distribution_is_valid F config)
   }"

definition test_distribution_config_is_invalid :: "('ac, 'cs, 'o) frame \<Rightarrow> unit option" where
  "test_distribution_config_is_invalid F = do {
     let config = (DistributionConfig_default F)\<lparr>providers_percent := perbill_from_percent F 100\<rparr>;
     require (\<not> distribution_is_valid F config);
     let config = \<lparr>providers_percent = perbill_from_percent F 80, validators_percent = perbill_from_percent F 19\<rparr>;
     require (\<not> distribution_is_valid F config)
   }"

definition test_set_configuration_fail ::
    "(nat, 'cs, 'o) frame \<Rightarrow> (nat, 'cs, 'o) bench_env \<Rightarrow> 'cs \<times> reward_state \<Rightarrow> unit option" where
  "test_set_configuration_fail F B s = do {
     assert_noop (set_config F (signed B 1) (DistributionConfig_default F) s) BadOrigin;
     let config = (DistributionConfig_default F)\<lparr>providers_percent := perbill_from_percent F 100\<rparr>;
     require (\<not> distribution_is_valid F config);
     assert_noop (set_config F (root B) config s) (ModuleError InvalidDistributionConfig)
   }"

definition test_set_configuration_success ::
    "(nat, 'cs, 'o) frame \<Rightarrow> (nat, 'cs, 'o) bench_env \<Rightarrow> 'cs \<times> reward_state \<Rightarrow> unit option" where
  "test_set_configuration_success F B s = do {
     let config = \<lparr>providers_percent = perbill_from_percent F 50, validators_percent = perbill_from_percent F 50\<rparr>;
     require (distribution_is_valid F config);
     (cs, st) <- succeed (set_config F (root B) config s);
     require (reward_events st \<noteq> [] \<and> last (reward_events st) = DistributionConfigChanged config);
     require (reward_config st = config)
   }"

text \<open>\<open>total_issuance\<close> is the currency's. The bodies of the two loops, and the loops.\<close>

fun test_inflation ::
    "('ac, 'cs, 'o) frame \<Rightarrow> 'cs reward_pallet_config \<Rightarrow> ('cs \<Rightarrow> u128) \<Rightarrow> u128 \<Rightarrow> nat list \<Rightarrow> 'cs \<times> reward_state \<Rightarrow> unit option" where
  "test_inflation F cfg total_issuance init_issuance [] s = Some ()"
| "test_inflation F cfg total_issuance init_issuance (block # blocks) s = do {
     require (total_issuance (fst s) = word_of_nat block * 1000000 + init_issuance);
     let s' = on_timestamp_set F cfg s;
     require (total_issuance (fst s') = (word_of_nat block + 1) * 1000000 + init_issuance);
     test_inflation F cfg total_issuance init_issuance blocks s'
   }"

definition test_inflation_and_total_issuance_as_expected ::
    "('ac, 'cs, 'o) frame \<Rightarrow> 'cs reward_pallet_config \<Rightarrow> ('cs \<Rightarrow> u128) \<Rightarrow> 'cs \<times> reward_state \<Rightarrow> unit option" where
  "test_inflation_and_total_issuance_as_expected F cfg total_issuance s =
     test_inflation F cfg total_issuance (total_issuance (fst s)) [0..<10] s"

record free_balance_snapshot =
  fs_validators :: u128
  fs_providers :: u128

definition FreeBalanceSnapshot_new :: "(nat, 'cs, 'o) frame \<Rightarrow> (string \<Rightarrow> nat) \<Rightarrow> 'cs \<Rightarrow> free_balance_snapshot" where
  "FreeBalanceSnapshot_new F pallet cs =
     \<lparr>fs_validators = free_balance F cs (pallet ''mokvaldt''), fs_providers = free_balance F cs (pallet ''mokprovd'')\<rparr>"

definition FreeBalanceSnapshot_is_zero :: "free_balance_snapshot \<Rightarrow> bool" where
  "FreeBalanceSnapshot_is_zero f \<longleftrightarrow> fs_providers f = 0 \<and> fs_providers f = 0"

record reward_parts =
  validators_reward :: u128
  providers_reward :: u128

definition Rewards_calculate :: "('ac, 'cs, 'o) frame \<Rightarrow> distribution_config \<Rightarrow> reward_parts" where
  "Rewards_calculate F config =
     \<lparr>validators_reward = perbill_mul F (validators_percent config) 1000000,
      providers_reward = perbill_mul F (providers_percent config) 1000000\<rparr>"

definition assert_distribution :: "free_balance_snapshot \<Rightarrow> free_balance_snapshot \<Rightarrow> reward_parts \<Rightarrow> unit option" where
  "assert_distribution f post_reward_state rewards = do {
     require (fs_validators f + validators_reward rewards = fs_validators post_reward_state);
     require (fs_providers f + providers_reward rewards = fs_providers post_reward_state)
   }"

fun test_distribution ::
    "nat \<Rightarrow> (nat, 'cs, 'o) frame \<Rightarrow> (string \<Rightarrow> nat) \<Rightarrow> distribution_config \<Rightarrow> 'cs \<times> reward_state \<Rightarrow> unit option" where
  "test_distribution 0 F pallet config s = Some ()"
| "test_distribution (Suc n) F pallet config s = do {
     let init_balance_state = FreeBalanceSnapshot_new F pallet (fst s);
     let rewards = Rewards_calculate F config;
     let s' = on_timestamp_set F (mock_reward_config F pallet) s;
     let final_balance_state = FreeBalanceSnapshot_new F pallet (fst s');
     assert_distribution init_balance_state final_balance_state rewards;
     test_distribution n F pallet config s'
   }"

definition test_reward_distribution_as_expected ::
    "(nat, 'cs, 'o) frame \<Rightarrow> (string \<Rightarrow> nat) \<Rightarrow> (nat, 'cs, 'o) bench_env \<Rightarrow> 'cs \<times> reward_state \<Rightarrow> unit option" where
  "test_reward_distribution_as_expected F pallet B s = do {
     require (FreeBalanceSnapshot_is_zero (FreeBalanceSnapshot_new F pallet (fst s)));
     let config = \<lparr>providers_percent = perbill_from_percent F 80, validators_percent = perbill_from_percent F 20\<rparr>;
     require (distribution_is_valid F config);
     s' <- succeed (set_config F (root B) config s);
     test_distribution 100 F pallet config s'
   }"

text \<open>The loop of the last test passes for any number of blocks, as long as the pots have room.\<close>

lemma mock_distribution_step:
  fixes F :: "(nat, 'cs, 'o) frame"
  assumes cur: "currency_ok F" and issued: "fst (issue F 1000000 cs) = 1000000"
    and pots: "pallet ''mokvaldt'' \<noteq> pallet ''mokprovd''"
    and parts: "Rewards_calculate F (reward_config st) = \<lparr>validators_reward = v, providers_reward = p\<rparr>" "unat v + unat p = 1000000"
    and min: "minimum_balance F \<le> v" "minimum_balance F \<le> p"
    and room: "unat (free_balance F cs (pallet ''mokvaldt'')) + 1000000 < 2 ^ 128" "unat (free_balance F cs (pallet ''mokprovd'')) + 1000000 < 2 ^ 128"
  obtains cs' where "on_timestamp_set F (mock_reward_config F pallet) (cs, st) = (cs', st)"
    and "free_balance F cs' (pallet ''mokvaldt'') = free_balance F cs (pallet ''mokvaldt'') + v"
    and "free_balance F cs' (pallet ''mokprovd'') = free_balance F cs (pallet ''mokprovd'') + p"
    and "unat (free_balance F cs' (pallet ''mokvaldt'')) \<le> unat (free_balance F cs (pallet ''mokvaldt'')) + 1000000"
    and "unat (free_balance F cs' (pallet ''mokprovd'')) \<le> unat (free_balance F cs (pallet ''mokprovd'')) + 1000000"
proof -
  let ?a = "pallet ''mokvaldt''" and ?b = "pallet ''mokprovd''"
  have p: "perbill_mul F (providers_percent (reward_config st)) 1000000 = p" using parts(1) by (simp add: Rewards_calculate_def)
  obtain x y where xy: "imbalance_split F 1000000 p = (x, y)" by (cases "imbalance_split F 1000000 p")
  have "unat x = unat p" "unat y = unat v" using imbalance_splitD [OF cur xy] parts(2) by simp_all
  then have "x = p" "y = v" by (simp_all add: word_unat_eq_iff)
  define cs1 where "cs1 = snd (issue F 1000000 cs)"
  define cs2 where "cs2 = resolve_creating F ?a v cs1"
  define cs' where "cs' = resolve_creating F ?b p cs2"
  have "unat v \<le> 1000000" "unat p \<le> 1000000" using parts(2) by linarith+
  have same: "free_balance F cs1 c = free_balance F cs c" for c using cur by (simp add: cs1_def)
  have r: "resolve_ok F" using cur by (simp add: currency_ok_def)
  have a: "unat (free_balance F cs2 ?a) = unat (free_balance F cs ?a) + unat v" "free_balance F cs2 ?b = free_balance F cs ?b"
    using r min(1) room(1) \<open>unat v \<le> 1000000\<close> pots same unfolding cs2_def resolve_ok_def by simp_all
  have b: "unat (free_balance F cs' ?b) = unat (free_balance F cs ?b) + unat p" "free_balance F cs' ?a = free_balance F cs2 ?a"
    using r min(2) room(2) \<open>unat p \<le> 1000000\<close> pots a(2) unfolding cs'_def resolve_ok_def by simp_all
  show ?thesis
  proof (rule that [of cs'])
    show "on_timestamp_set F (mock_reward_config F pallet) (cs, st) = (cs', st)"
      using issued xy \<open>x = p\<close> \<open>y = v\<close> p
      by (cases "issue F 1000000 cs")
        (simp add: on_timestamp_set_def distribute_rewards_def mock_reward_config_def cs'_def cs2_def cs1_def)
  qed (use a b room \<open>unat v \<le> 1000000\<close> \<open>unat p \<le> 1000000\<close> in \<open>simp_all add: word_unat_eq_iff unat_plus_fits\<close>)
qed

lemma test_distribution_passes:
  fixes F :: "(nat, 'cs, 'o) frame"
  assumes cur: "currency_ok F" and issued: "\<And>cs. fst (issue F 1000000 cs) = 1000000"
    and pots: "pallet ''mokvaldt'' \<noteq> pallet ''mokprovd''"
    and parts: "Rewards_calculate F config = \<lparr>validators_reward = v, providers_reward = p\<rparr>" "unat v + unat p = 1000000"
    and min: "minimum_balance F \<le> v" "minimum_balance F \<le> p"
  shows "reward_config (snd s) = config \<Longrightarrow> unat (free_balance F (fst s) (pallet ''mokvaldt'')) + n * 1000000 < 2 ^ 128 \<Longrightarrow>
    unat (free_balance F (fst s) (pallet ''mokprovd'')) + n * 1000000 < 2 ^ 128 \<Longrightarrow> test_distribution n F pallet config s = Some ()"
proof (induction n arbitrary: s)
  case (Suc n)
  obtain cs st where s: "s = (cs, st)" by (cases s)
  have c: "Rewards_calculate F (reward_config st) = \<lparr>validators_reward = v, providers_reward = p\<rparr>" using Suc.prems(1) parts(1) s by simp
  have room: "unat (free_balance F cs (pallet ''mokvaldt'')) + 1000000 < 2 ^ 128" "unat (free_balance F cs (pallet ''mokprovd'')) + 1000000 < 2 ^ 128"
    using Suc.prems(2,3) s by simp_all
  from mock_distribution_step [OF cur issued pots c parts(2) min room] obtain cs'
    where cs': "on_timestamp_set F (mock_reward_config F pallet) (cs, st) = (cs', st)"
      "free_balance F cs' (pallet ''mokvaldt'') = free_balance F cs (pallet ''mokvaldt'') + v"
      "free_balance F cs' (pallet ''mokprovd'') = free_balance F cs (pallet ''mokprovd'') + p"
    and le: "unat (free_balance F cs' (pallet ''mokvaldt'')) \<le> unat (free_balance F cs (pallet ''mokvaldt'')) + 1000000"
      "unat (free_balance F cs' (pallet ''mokprovd'')) \<le> unat (free_balance F cs (pallet ''mokprovd'')) + 1000000" by blast
  have "test_distribution n F pallet config (cs', st) = Some ()"
    using Suc.IH [of "(cs', st)"] Suc.prems s le by simp
  then show ?case
    using cs' parts(1) by (simp add: s assert_distribution_def FreeBalanceSnapshot_new_def require_def)
qed simp

section \<open>validator-set\<close>

text \<open>The storage of the validator mock: block number, currency and pallet.\<close>

type_synonym 'cs validator_ext = "u32 \<times> 'cs \<times> nat validator_state"

definition test_basic_setup_works :: "'cs validator_ext \<Rightarrow> unit option" where
  "test_basic_setup_works = (\<lambda>(now, cs, st). do {
     require (desired_candidates st = 2);
     require (candidacy_bond st = 10);
     require (candidates st = []);
     require (invulnerables st = [1, 2])
   })"

definition test_set_invulnerables ::
    "(nat, 'cs, 'o) frame \<Rightarrow> (nat, 'o) validator_config \<Rightarrow> (nat, 'cs, 'o) bench_env \<Rightarrow> 'cs validator_ext \<Rightarrow> unit option" where
  "test_set_invulnerables F cfg B = (\<lambda>(now, s). do {
     let new_invulnerables = [1, 2, 3];
     s1 <- succeed (set_invulnerables cfg mock_is_registered (signed B 777) new_invulnerables s);
     require (invulnerables (snd s1) = new_invulnerables);
     assert_noop (set_invulnerables cfg mock_is_registered (signed B 1) new_invulnerables s1) BadOrigin;
     assert_noop (set_invulnerables cfg mock_is_registered (signed B 777) [7] s1) (ModuleError ValidatorNotRegistered)
   })"

definition test_set_desired_candidates ::
    "(nat, 'cs, 'o) frame \<Rightarrow> (nat, 'o) validator_config \<Rightarrow> (nat, 'cs, 'o) bench_env \<Rightarrow> 'cs validator_ext \<Rightarrow> unit option" where
  "test_set_desired_candidates F cfg B = (\<lambda>(now, s). do {
     require (desired_candidates (snd s) = 2);
     s1 <- succeed (set_desired_candidates cfg (signed B 777) 7 s);
     require (desired_candidates (snd s1) = 7);
     assert_noop (set_desired_candidates cfg (signed B 1) 8 s1) BadOrigin
   })"

definition test_set_candidacy_bond ::
    "(nat, 'cs, 'o) frame \<Rightarrow> (nat, 'o) validator_config \<Rightarrow> (nat, 'cs, 'o) bench_env \<Rightarrow> 'cs validator_ext \<Rightarrow> unit option" where
  "test_set_candidacy_bond F cfg B = (\<lambda>(now, s). do {
     require (candidacy_bond (snd s) = 10);
     s1 <- succeed (set_candidacy_bond cfg (signed B 777) 7 s);
     require (candidacy_bond (snd s1) = 7);
     assert_noop (set_candidacy_bond cfg (signed B 1) 8 s1) BadOrigin
   })"

definition test_cannot_register_candidate_if_too_many ::
    "(nat, 'cs, 'o) frame \<Rightarrow> (nat, 'o) validator_config \<Rightarrow> (nat, 'cs, 'o) bench_env \<Rightarrow> 'cs validator_ext \<Rightarrow> unit option" where
  "test_cannot_register_candidate_if_too_many F cfg B = (\<lambda>(now, cs, st). do {
     let st = st\<lparr>desired_candidates := 0\<rparr>;
     assert_noop (register_as_candidate F cfg mock_is_registered now (signed B 3) (cs, st)) (ModuleError TooManyCandidates);
     let st = st\<lparr>desired_candidates := 1\<rparr>;
     s1 <- succeed (register_as_candidate F cfg mock_is_registered now (signed B 4) (cs, st));
     assert_noop (register_as_candidate F cfg mock_is_registered now (signed B 5) s1) (ModuleError TooManyCandidates)
   })"

definition test_cannot_unregister_candidate_if_too_few ::
    "(nat, 'cs, 'o) frame \<Rightarrow> (nat, 'o) validator_config \<Rightarrow> (nat, 'cs, 'o) bench_env \<Rightarrow> 'cs validator_ext \<Rightarrow> unit option" where
  "test_cannot_unregister_candidate_if_too_few F cfg B = (\<lambda>(now, cs, st). do {
     let st = st\<lparr>desired_candidates := 1\<rparr>;
     s1 <- succeed (register_as_candidate F cfg mock_is_registered now (signed B 4) (cs, st));
     assert_noop (leave_intent F cfg (signed B 4) s1) (ModuleError TooFewCandidates)
   })"

definition test_cannot_register_as_candidate_if_already_invulnerable ::
    "(nat, 'cs, 'o) frame \<Rightarrow> (nat, 'o) validator_config \<Rightarrow> (nat, 'cs, 'o) bench_env \<Rightarrow> 'cs validator_ext \<Rightarrow> unit option" where
  "test_cannot_register_as_candidate_if_already_invulnerable F cfg B = (\<lambda>(now, s). do {
     require (invulnerables (snd s) = [1, 2]);
     assert_noop (register_as_candidate F cfg mock_is_registered now (signed B 1) s) (ModuleError AlreadyInvulnerable)
   })"

definition test_cannot_register_duplicate_candidate ::
    "(nat, 'cs, 'o) frame \<Rightarrow> (nat, 'o) validator_config \<Rightarrow> (nat, 'cs, 'o) bench_env \<Rightarrow> 'cs validator_ext \<Rightarrow> unit option" where
  "test_cannot_register_duplicate_candidate F cfg B = (\<lambda>(now, s). do {
     (cs, st) <- succeed (register_as_candidate F cfg mock_is_registered now (signed B 3) s);
     let addition = \<lparr>cd_who = 3, cd_deposit = 10\<rparr>;
     require (candidates st = [addition]);
     require (get_or 0 (last_authored_block st) 3 = 10);
     require (free_balance F cs 3 = 90);
     assert_noop (register_as_candidate F cfg mock_is_registered now (signed B 3) (cs, st)) (ModuleError AlreadyCandidate)
   })"

text \<open>\<open>insufficient_balance\<close> is the error of the balances pallet.\<close>

definition test_cannot_register_as_candidate_if_insufficient_fund ::
    "(nat, 'cs, 'o) frame \<Rightarrow> (nat, 'o) validator_config \<Rightarrow> (nat, 'cs, 'o) bench_env \<Rightarrow> nat \<Rightarrow> 'cs validator_ext \<Rightarrow> unit option" where
  "test_cannot_register_as_candidate_if_insufficient_fund F cfg B insufficient_balance = (\<lambda>(now, s). do {
     require (free_balance F (fst s) 3 = 100);
     require (free_balance F (fst s) 33 = 0);
     s1 <- succeed (register_as_candidate F cfg mock_is_registered now (signed B 3) s);
     assert_noop (register_as_candidate F cfg mock_is_registered now (signed B 33) s1) (CurrencyError insufficient_balance)
   })"

definition test_register_as_candidate_successfully ::
    "(nat, 'cs, 'o) frame \<Rightarrow> (nat, 'o) validator_config \<Rightarrow> (nat, 'cs, 'o) bench_env \<Rightarrow> 'cs validator_ext \<Rightarrow> unit option" where
  "test_register_as_candidate_successfully F cfg B = (\<lambda>(now, s). do {
     require (desired_candidates (snd s) = 2);
     require (candidacy_bond (snd s) = 10);
     require (candidates (snd s) = []);
     require (invulnerables (snd s) = [1, 2]);
     require (free_balance F (fst s) 3 = 100);
     require (free_balance F (fst s) 4 = 100);
     s1 <- succeed (register_as_candidate F cfg mock_is_registered now (signed B 3) s);
     s2 <- succeed (register_as_candidate F cfg mock_is_registered now (signed B 4) s1);
     require (free_balance F (fst s2) 3 = 90);
     require (free_balance F (fst s2) 4 = 90);
     require (length (candidates (snd s2)) = 2)
   })"

definition test_leave_intent ::
    "(nat, 'cs, 'o) frame \<Rightarrow> (nat, 'o) validator_config \<Rightarrow> (nat, 'cs, 'o) bench_env \<Rightarrow> 'cs validator_ext \<Rightarrow> unit option" where
  "test_leave_intent F cfg B = (\<lambda>(now, s). do {
     s1 <- succeed (register_as_candidate F cfg mock_is_registered now (signed B 3) s);
     require (free_balance F (fst s1) 3 = 90);
     s2 <- succeed (register_as_candidate F cfg mock_is_registered now (signed B 5) s1);
     require (free_balance F (fst s2) 5 = 90);
     assert_noop (leave_intent F cfg (signed B 4) s2) (ModuleError NotCandidate);
     s3 <- succeed (leave_intent F cfg (signed B 3) s2);
     require (free_balance F (fst s3) 3 = 100);
     require (get_or 0 (last_authored_block (snd s3)) 3 = 0)
   })"

text \<open>\<open>authorship\<close> is \<^verbatim>\<open>Authorship::on_initialize\<close>, which runs at the block number of the storage.\<close>

definition test_authorship_event_handler ::
    "(nat, 'cs, 'o) frame \<Rightarrow> (nat, 'o) validator_config \<Rightarrow> (nat, 'cs, 'o) bench_env \<Rightarrow>
     (u32 \<Rightarrow> 'cs \<times> nat validator_state \<Rightarrow> 'cs \<times> nat validator_state) \<Rightarrow> 'cs validator_ext \<Rightarrow> unit option" where
  "test_authorship_event_handler F cfg B authorship = (\<lambda>(now, cs, st). do {
     let cs = make_free_balance_be B (validator_pot cfg) 105 cs;
     require (free_balance F cs 4 = 100);
     s1 <- succeed (register_as_candidate F cfg mock_is_registered now (signed B 4) (cs, st));
     let (cs', st') = authorship now s1;
     let validator = \<lparr>cd_who = 4, cd_deposit = 10\<rparr>;
     require (candidates st' = [validator]);
     require (get_or 0 (last_authored_block st') 4 = 0);
     require (free_balance F cs' 4 = 190);
     require (free_balance F cs' (validator_pot cfg) = 5)
   })"

text \<open>\<open>#[should_panic]\<close>: the genesis build must panic.\<close>

definition test_cannot_set_genesis_value_twice :: "(nat, 'o) validator_config \<Rightarrow> unit option" where
  "test_cannot_set_genesis_value_twice cfg = do {
     let invulnerables = [1, 1];
     require (validator_genesis_build cfg invulnerables 10 2 = None)
   }"

section \<open>The tests on the ledger\<close>

definition test_account :: "string \<Rightarrow> nat" where
  "test_account i = (if i = ''mokvaldt'' then 101 else 100)"

definition ledger_total_issuance :: "ledger \<Rightarrow> u128" where
  "ledger_total_issuance l = sum_list (map snd (l_free l)) + sum_list (map snd (l_reserved l))"

abbreviation staking_test_config :: "nat staking_config" where
  "staking_test_config \<equiv> mock_staking_config ledger_frame test_account"

abbreviation reward_test_passes :: "(ledger \<times> reward_state \<Rightarrow> unit option) \<Rightarrow> bool" where
  "reward_test_passes t \<equiv> t (snd (mock_reward_build ledger_frame ledger_build)) = Some ()"

definition validator_test_frame :: "(nat, ledger, nat option) frame" where
  "validator_test_frame = ledger_frame\<lparr>minimum_balance := 5\<rparr>"

definition validator_test_config :: "(nat, nat option) validator_config" where
  "validator_test_config = mock_validator_config validator_test_frame test_account demo_db_weight"

abbreviation validator_test_passes :: "(ledger validator_ext \<Rightarrow> unit option) \<Rightarrow> bool" where
  "validator_test_passes t \<equiv>
     Option.bind (mock_validator_build validator_test_config ledger_build (\<lambda>_ w. w)) t = Some ()"

lemma staking_tests_eras:
  "staking_bench_passes (test_on_initialize_is_ok 40 ledger_frame staking_test_config)"
  by code_simp

lemma reward_tests_1:
  "test_default_distribution_config_is_valid ledger_frame = Some ()"
  "test_distribution_config_is_valid ledger_frame = Some ()"
  "test_distribution_config_is_invalid ledger_frame = Some ()"
  "reward_test_passes (test_set_configuration_fail ledger_frame ledger_bench)"
  "reward_test_passes (test_set_configuration_success ledger_frame ledger_bench)"
  by code_simp+

lemma reward_tests_2:
  "reward_test_passes (test_inflation_and_total_issuance_as_expected ledger_frame (mock_reward_config ledger_frame test_account)
     ledger_total_issuance)"
  by code_simp

lemma reward_tests_3:
  "reward_test_passes (test_reward_distribution_as_expected ledger_frame test_account ledger_bench)"
proof -
  let ?c = "\<lparr>providers_percent = perbill_from_percent ledger_frame 80, validators_percent = perbill_from_percent ledger_frame 20\<rparr>"
  let ?s = "snd (mock_reward_build ledger_frame ledger_build)"
  obtain s where s: "succeed (set_config ledger_frame (root ledger_bench) ?c ?s) = Some s" "reward_config (snd s) = ?c" "fst s = fst ?s"
  proof -
    have "map_option (\<lambda>s. (fst s, reward_config (snd s))) (succeed (set_config ledger_frame (root ledger_bench) ?c ?s)) = Some (fst ?s, ?c)"
      by code_simp
    then show ?thesis using that by auto
  qed
  have parts: "Rewards_calculate ledger_frame ?c = \<lparr>validators_reward = 200000, providers_reward = 800000\<rparr>" by code_simp
  have loop: "test_distribution 100 ledger_frame test_account ?c s = Some ()"
    by (rule test_distribution_passes [OF ledger_currency_ok _ _ parts _ _ _ s(2)]) 
      (simp_all add: s(3) mock_reward_build_def ledger_build_def ledger_frame_def test_account_def ledger_free_def get_or_def sget_def)
  have start: "FreeBalanceSnapshot_is_zero (FreeBalanceSnapshot_new ledger_frame test_account (fst ?s))"
    "distribution_is_valid ledger_frame ?c" by code_simp+
  show ?thesis unfolding test_reward_distribution_as_expected_def using start s(1) loop by (simp add: require_def)
qed

section \<open>The suite\<close>

definition staking_tests ::
    "nat \<Rightarrow> (nat, 'cs, 'o) frame \<Rightarrow> nat staking_config \<Rightarrow> (nat, 'cs, 'o) bench_env \<Rightarrow>
     ((nat, mock_provider, 'cs) staking_ext \<Rightarrow> unit option) list" where
  "staking_tests fuel F cfg B =
     [test_reward_is_ok F cfg, test_on_initialize_is_ok fuel F cfg, test_register_is_ok F cfg,
      test_register_same_provider_twice_fails F cfg, test_unregister_after_register_is_ok F cfg,
      test_unregister_stake_and_unstake_is_not_ok F cfg B]"

definition reward_tests ::
    "(nat, 'cs, 'o) frame \<Rightarrow> (string \<Rightarrow> nat) \<Rightarrow> (nat, 'cs, 'o) bench_env \<Rightarrow> ('cs \<Rightarrow> u128) \<Rightarrow>
     ('cs \<times> reward_state \<Rightarrow> unit option) list" where
  "reward_tests F pallet B total_issuance =
     [\<lambda>_. test_default_distribution_config_is_valid F, \<lambda>_. test_distribution_config_is_valid F,
      \<lambda>_. test_distribution_config_is_invalid F, test_set_configuration_fail F B, test_set_configuration_success F B,
      test_inflation_and_total_issuance_as_expected F (mock_reward_config F pallet) total_issuance,
      test_reward_distribution_as_expected F pallet B]"

definition validator_tests ::
    "(nat, 'cs, 'o) frame \<Rightarrow> (nat, 'o) validator_config \<Rightarrow> (nat, 'cs, 'o) bench_env \<Rightarrow> nat \<Rightarrow>
     (u32 \<Rightarrow> 'cs \<times> nat validator_state \<Rightarrow> 'cs \<times> nat validator_state) \<Rightarrow> ('cs validator_ext \<Rightarrow> unit option) list" where
  "validator_tests F cfg B insufficient_balance authorship =
     [test_basic_setup_works, test_set_invulnerables F cfg B, test_set_desired_candidates F cfg B, test_set_candidacy_bond F cfg B,
      test_cannot_register_candidate_if_too_many F cfg B, test_cannot_unregister_candidate_if_too_few F cfg B,
      test_cannot_register_as_candidate_if_already_invulnerable F cfg B, test_cannot_register_duplicate_candidate F cfg B,
      test_cannot_register_as_candidate_if_insufficient_fund F cfg B insufficient_balance,
      test_register_as_candidate_successfully F cfg B, test_leave_intent F cfg B,
      test_authorship_event_handler F cfg B authorship, \<lambda>_. test_cannot_set_genesis_value_twice cfg]"

lemma staking_tests_run:
  "list_all staking_bench_passes
     [test_reward_is_ok ledger_frame staking_test_config, test_register_is_ok ledger_frame staking_test_config,
      test_register_same_provider_twice_fails ledger_frame staking_test_config,
      test_unregister_after_register_is_ok ledger_frame staking_test_config,
      test_unregister_stake_and_unstake_is_not_ok ledger_frame staking_test_config ledger_bench]"
  by code_simp

text \<open>\<^verbatim>\<open>Authorship::on_initialize\<close> is documented to hand the author of the block to the event handler.\<close>

lemma validator_tests_run:
  assumes "authorship = (\<lambda>now w. case mock_find_author of None \<Rightarrow> w
     | Some a \<Rightarrow> snd (note_author validator_test_frame validator_test_config now a w))"
  shows "list_all validator_test_passes
     (validator_tests validator_test_frame validator_test_config ledger_bench 0 authorship)"
  unfolding assms by code_simp

lemma unit_tests_pass:
  "list_all staking_bench_passes (staking_tests 40 ledger_frame staking_test_config ledger_bench)"
  "list_all reward_test_passes (reward_tests ledger_frame test_account ledger_bench ledger_total_issuance)"
  using staking_tests_run staking_tests_eras reward_tests_1 reward_tests_2 reward_tests_3
  by (simp_all add: staking_tests_def reward_tests_def)

end
