(* ===== verification/Spec2Isabelle.thy ===== *)
theory Spec2Isabelle
  imports Payout_Props Node_Service Authority_Props Runtime_Bench Unit_Tests
begin

text \<open>
  A verification development for massbitchain, a Substrate chain on which projects buy request quota,
  providers serve it, delegators stake on providers and validators make blocks.

  \<^bold>\<open>The program.\<close> Four pallets keep the state. \<^verbatim>\<open>pallets/dapi\<close> registers projects and providers and
  knows the regulators; it calls \<^verbatim>\<open>pallets/dapi-staking\<close> through \<^verbatim>\<open>DapiStakingRegistration\<close> when a provider
  is activated or taken out and hands it the payments of projects. \<^verbatim>\<open>pallets/dapi-staking\<close> holds bonds and
  stakes in the reserved balances, counts eras in its block hook and pays rewards era by era.
  \<^verbatim>\<open>pallets/validator-set\<close> keeps invulnerable validators and bonded candidates and answers the session
  pallet. \<^verbatim>\<open>pallets/block-reward\<close> issues a reward per block and splits it between the validators' pot and the
  staking pot. \<^verbatim>\<open>runtime/keiko\<close> and \<^verbatim>\<open>runtime/local\<close> connect them over one balances pallet; \<^verbatim>\<open>node\<close> holds the
  genesis of both networks, chooses the runtime and starts client, network and consensus. Each pallet has
  a mock runtime and benchmarks, from which its weights are computed.

  \<^bold>\<open>Theories and the code they model.\<close>
  \<^item> \<open>Chain_Prelude\<close>: machine integers (\<open>saturating_add\<close>, \<open>checked_add\<close>, ...), storage maps as association lists
    in insertion order, the result type of dispatchable calls.
  \<^item> \<open>Frame\<close>: the traits of the framework the pallets call, as one record of functions, and what their
    documentation promises (\<open>currency_ok\<close>, \<open>perbill_ok\<close>); the locale \<open>reserving_pallet\<close>, the contract between a
    pallet with deposits and the shared currency; a ledger that keeps the promises.
  \<^item> \<open>Era_Info\<close>, \<open>Delegation\<close>, \<open>Unbonding\<close>: \<^verbatim>\<open>dapi-staking/src/types.rs\<close>. The locales \<open>stake_history\<close> and
    \<open>unlocking_queue\<close> are what the pallet relies on, interpreted as \<open>dh\<close> and \<open>uq\<close>.
  \<^item> \<open>Staking\<close>: \<^verbatim>\<open>dapi-staking/src/lib.rs\<close>, one definition per call, hook and helper on the record
    \<open>staking_state\<close>; \<open>Staking_Inv\<close>: what each call did and the structural invariant; \<open>Staking_Balance\<close>: debts against
    reserves per call; \<open>Staking_Machine\<close>: the pallet as a state machine; \<open>Staking_Books\<close>: its totals.
  \<^item> \<open>Dapi\<close>, \<open>Dapi_Inv\<close>: \<^verbatim>\<open>dapi/src\<close> with the signed extension; the locale \<open>provider_registry\<close> is what it
    expects of the staking pallet.
  \<^item> \<open>Validator_Set\<close>, \<open>Validator_Inv\<close>, \<open>Validator_Machine\<close>: \<^verbatim>\<open>validator-set/src/lib.rs\<close>.
  \<^item> \<open>Block_Reward\<close>: \<^verbatim>\<open>block-reward/src/lib.rs\<close>; the locale \<open>beneficiaries\<close> is what it expects of the two payouts.
  \<^item> \<open>Weights\<close>: the four \<^verbatim>\<open>weights.rs\<close>, both implementations.
  \<^item> \<open>Runtime_Config\<close>: constants, call filter, fee and reward handlers and pallet configurations of both
    runtimes, and \<^verbatim>\<open>common/src/lib.rs\<close>. \<open>Runtime\<close>: their composition, the dispatch of calls, transactions and
    hooks as steps on \<open>runtime_state\<close>. \<open>Runtime_Inv\<close>: the locale \<open>wired_runtime\<close>, from which \<open>provider_registry\<close> and
    \<open>beneficiaries\<close> follow as sublocales, interpreted for both runtimes; the invariants of whole chains.
  \<^item> \<open>Chain_Spec\<close>: \<^verbatim>\<open>node/src/chain_spec\<close>, \<^verbatim>\<open>node/src/command.rs\<close>, the states a network reaches from genesis.
  \<^item> \<open>Runtime_Api\<close>: the version, the limits of a block, the slot duration and the off-chain transactions of
    both runtimes. \<open>Runtime_Bench\<close>: their benchmarking API, in which what is listed can be run.
  \<^item> \<open>Node_Service\<close>: \<^verbatim>\<open>node/src/service.rs\<close> and \<^verbatim>\<open>node/src/rpc.rs\<close>, the start of a node as a computation with
    errors over a record of library functions (\<open>node_libs\<close>), which records the tasks it spawns.
  \<^item> \<open>Mocks\<close>: \<^verbatim>\<open>pallets/*/src/mock.rs\<close>; \<open>Benchmarks\<close> and \<open>Validator_Bench\<close>: \<^verbatim>\<open>pallets/*/src/benchmarks.rs\<close>, each
    benchmark a function from a storage to whether it passes; \<open>Unit_Tests\<close>: \<^verbatim>\<open>pallets/*/src/tests.rs\<close>, each test
    likewise, statement by statement.

  A state is a record with one field per storage item, a call a function from the currency's storage
  and the state to an error or both updated; an error leaves the storage as it was. The events a pallet
  deposits are part of its state.

  \<^bold>\<open>What is shown.\<close>
  \<^item> Deposits (\<open>Runtime_Props\<close>, \<open>Staking_Props\<close>, \<open>Validator_Props\<close>): the reserve of every account covers
    what all pallets owe it, in every state either runtime reaches from any genesis by the steps admitted
    below; every entry point moves reserve and debt together; unstaked funds stay locked for the period and
    come back in full to the free balance.
  \<^item> Rewards: no era is paid twice to a provider or a delegator; a delegator who keeps claiming is paid for
    each era once; over whole runs, everything paid for an era stays within what was collected in it, up to
    a unit of rounding per payment (\<open>Reward_Props\<close>, \<open>Payout_Props\<close>: an account of what was paid and what is
    still due that every step keeps); the block reward is split without loss.
  \<^item> Payments (\<open>Payment_Props\<close>): what a project pays reaches the rewards of the providers in full and buys its
    quota; what a dropped candidate loses and what it gets back.
  \<^item> Time (\<open>Clock_Props\<close>, \<open>Runtime_Api\<close>): the era of every block of a chain, in blocks and in hours; the lifetime of
    a transaction created off chain.
  \<^item> Books (\<open>Staking_Props\<close>, \<open>History_Props\<close>): totals and counts are the sums over the delegations; the
    compressed history implements a function from eras to amounts; the binary search is an insertion;
    vectors stay within their limits; a new era starts from the books of the old one.
  \<^item> Agreement and authority (\<open>Runtime_Props\<close>): the registries of the two pallets agree, an owner whose
    transaction the framework's extensions admit (\<open>apply_signed\<close>) can always leave, settings are root's, usage and registration are the regulators', keiko's validators are closed.
  \<^item> Sessions and authors (\<open>Validator_Props\<close>): which candidates a session change drops; bonds come back; authors are
    paid the pot; the
    validators of a session fit into what aura and grandpa can store (\<open>Authority_Props\<close>). Weights
    (\<open>Weights\<close>), genesis and versions (\<open>Runtime_Props\<close>).
  \<^item> The node (\<open>Node_Service\<close>): a start succeeds as a whole or leaves the network down; which of its own
    tasks run. That the libraries answer is not shown.
  \<^item> Tests and benchmarks (\<open>Unit_Tests\<close>, \<open>Validator_Bench\<close>, \<open>Bench_Props\<close>): the session benchmark passes for all its
    parameters once the session pallet has accepted its keys; as checks of the definitions, the unit tests
    of the repository hold of the model, except two that run on the session pallet, and the other benchmarks
    pass in the mock runtimes; the loop of the mocks that advances to an era ends there (\<open>Mocks\<close>).
  \<^item> Limits of the code (\<open>Staking_Limits\<close> and others): a wrapping sum in \<open>provider_bond_less\<close>, stakes that can be
    locked for ever, one delegator too many, a repeated validator, swapped weight arguments, a version that
    does not match the runtime, slashes that are always burnt.

  \<^bold>\<open>Hypotheses and bounds.\<close> The code accepts a call of \<open>provider_bond_less\<close> whose sum \<^verbatim>\<open>amount + MinProviderStake\<close>
  wraps around, and such a call breaks solvency, totals and what rests on them (\<open>bond_less_wraps\<close>). Theorems
  over \<open>staking_call_ok\<close>, \<open>bounded_call\<close> and \<open>step_ok\<close>, and with it \<open>network_reaches\<close>, exclude it and say so; those over
  all runs do not. Where totals matter, the reserves stay within the total issuance. A network starts from
  any genesis configuration, over any first storage of the balances pallet, not only from the two
  specifications of the code: the network \<^verbatim>\<open>keiko\<close> starts from a file. Transactions are steps from the repository's own
  extension on; what the framework's extensions do before is a parameter (\<open>apply_signed\<close>) or a step. The
  pallets outside the repository take part as steps that change a reserve by what they change in their own
  deposits. Three loops have fuel: \<open>claims\<close>, for which as many claims as the number of the running era are
  enough; \<open>mock_advance_to_era\<close>, for which the number of blocks up to the era is enough
  (\<open>mock_advance_to_era_returns\<close>; a test runs it with 40, for ten eras of three blocks); and
  \<open>bench_advance_to_era\<close>, run with 12, the blocks of four eras of the mock. All other definitions are total by structural recursion or a measure.

  \<^bold>\<open>Not modelled.\<close> Balances, sessions, timestamps, authorship, sudo and transaction payment are the
  framework's: parameters and steps. In the runtimes and mocks: the configurations of those pallets, and
  \<^verbatim>\<open>impl_runtime_apis\<close> where it only forwards to the framework. In the node: the command runners, which are
  library code, and the binary's entry point. The build scripts. \<^verbatim>\<open>RewardInfo\<close> in \<^verbatim>\<open>types.rs\<close> is
  unused.
\<close>

end
